(* ===== verification/Gate_Prelude.thy ===== *)
theory Gate_Prelude
  imports Main
begin

text \<open>
  Shared vocabulary of the development.

  \<^item> Time: \<open>std::time::Instant\<close> and \<open>tokio::time::Instant\<close> are nanosecond counts;
    \<open>duration_since\<close> saturates at zero, which is subtraction on natural numbers.
  \<^item> Text: a Rust \<open>str\<close> is its UTF-8 bytes, one \<^typ>\<open>char\<close> per byte, so that
    \<open>len\<close> is \<^const>\<open>length\<close>; the operations of the standard library that look at
    characters (\<open>split_whitespace\<close>, \<open>trim\<close>) recognise the multi-byte white space.
  \<^item> Traces: a component is a step function, and a run feeds it a list of events in
    the order in which its lock admits them.
  \<^item> \<open>keyed_component\<close>: the interface of a component that keeps independent state per
    key (agent or tenant), with the isolation lemmas that every such component has.
\<close>

named_theorems gate_simps \<open>characteristic equations of the components' operations\<close>
named_theorems gate_inv \<open>preservation lemmas of the components' invariants\<close>

section \<open>Time\<close>

type_synonym instant = nat
type_synonym duration = nat

definition from_secs :: "nat \<Rightarrow> duration" where
  "from_secs n = n * 1000000000"

definition from_millis :: "nat \<Rightarrow> duration" where
  "from_millis n = n * 1000000"

definition as_secs :: "duration \<Rightarrow> nat" where
  "as_secs d = d div 1000000000"

definition as_micros :: "duration \<Rightarrow> nat" where
  "as_micros d = d div 1000"

definition duration_since :: "instant \<Rightarrow> instant \<Rightarrow> duration" where
  "duration_since later earlier = later - earlier"

definition saturating_sub :: "duration \<Rightarrow> duration \<Rightarrow> duration" where
  "saturating_sub a b = a - b"

lemma duration_since_self [simp]: "duration_since t t = 0"
  by (simp add: duration_since_def)

lemma duration_since_antimono: "t \<le> t' \<Longrightarrow> duration_since n t' \<le> duration_since n t"
  by (simp add: duration_since_def)

lemma duration_since_mono: "n \<le> n' \<Longrightarrow> duration_since n t \<le> duration_since n' t"
  by (simp add: duration_since_def)

lemma duration_since_less_iff: "t \<le> n \<Longrightarrow> duration_since n t < d \<longleftrightarrow> n < t + d"
  by (auto simp: duration_since_def)

lemma as_secs_mono: "a \<le> b \<Longrightarrow> as_secs a \<le> as_secs b"
  by (simp add: as_secs_def div_le_mono)

section \<open>Text\<close>

subsection \<open>Decimal printing of unsigned integers\<close>

fun show_nat :: "nat \<Rightarrow> string" where
  "show_nat n = (if n < 10 then [char_of (48 + n)] else show_nat (n div 10) @ [char_of (48 + n mod 10)])"

declare show_nat.simps [simp del]

lemma show_nat_nonempty [simp]: "show_nat n \<noteq> []"
  by (subst show_nat.simps) simp

subsection \<open>White space of the standard library, on UTF-8 bytes\<close>

text \<open>
  \<open>ws_len s\<close> is the byte length of the white-space character at the head of \<open>s\<close> and 0
  where there is none: U+0009..U+000D, U+0020, U+0085, U+00A0, U+1680, U+2000..U+200A,
  U+2028, U+2029, U+202F, U+205F and U+3000.
\<close>

fun ws_len_bytes :: "nat list \<Rightarrow> nat" where
  "ws_len_bytes [] = 0"
| "ws_len_bytes (a # s) =
     (if a = 32 \<or> 9 \<le> a \<and> a \<le> 13 then 1
      else (case s of
          [] \<Rightarrow> 0
        | b # s' \<Rightarrow>
            if a = 194 \<and> (b = 133 \<or> b = 160) then 2
            else (case s' of
                [] \<Rightarrow> 0
              | c # _ \<Rightarrow>
                  if a = 225 \<and> b = 154 \<and> c = 128
                   \<or> a = 226 \<and> b = 128 \<and> (128 \<le> c \<and> c \<le> 138 \<or> c = 168 \<or> c = 169 \<or> c = 175)
                   \<or> a = 226 \<and> b = 129 \<and> c = 159
                   \<or> a = 227 \<and> b = 128 \<and> c = 128
                  then 3 else 0)))"

definition ws_len :: "string \<Rightarrow> nat" where
  "ws_len s = ws_len_bytes (map of_char (take 3 s))"

lemma ws_len_Nil [simp]: "ws_len [] = 0"
  by (simp add: ws_len_def)

fun split_ws_aux :: "string \<Rightarrow> string \<Rightarrow> nat \<Rightarrow> string list" where
  "split_ws_aux acc [] skip = (if acc = [] then [] else [acc])"
| "split_ws_aux acc (c # s) (Suc n) = split_ws_aux acc s n"
| "split_ws_aux acc (c # s) 0 =
     (case ws_len (c # s) of
        0 \<Rightarrow> split_ws_aux (acc @ [c]) s 0
      | Suc n \<Rightarrow> (if acc = [] then [] else [acc]) @ split_ws_aux [] s n)"

text \<open>\<open>str::split_whitespace\<close>: the maximal runs of bytes between white space.\<close>

definition split_whitespace :: "string \<Rightarrow> string list" where
  "split_whitespace s = split_ws_aux [] s 0"

text \<open>\<open>str::trim\<close> leaves nothing exactly when the text holds white space only.\<close>

definition trim_is_empty :: "string \<Rightarrow> bool" where
  "trim_is_empty s \<longleftrightarrow> split_whitespace s = []"

lemma split_ws_aux_nonempty: "t \<in> set (split_ws_aux acc s n) \<Longrightarrow> t \<noteq> []"
  by (induction acc s n rule: split_ws_aux.induct) (auto split: nat.splits if_splits)

lemma split_whitespace_nonempty: "t \<in> set (split_whitespace s) \<Longrightarrow> t \<noteq> []"
  by (simp add: split_whitespace_def split_ws_aux_nonempty)

lemma split_ws_aux_length: "t \<in> set (split_ws_aux acc s n) \<Longrightarrow> length t \<le> length acc + length s"
  by (induction acc s n rule: split_ws_aux.induct) (fastforce split: nat.splits if_splits)+

subsection \<open>Splitting at a separator and joining\<close>

fun split_char :: "char \<Rightarrow> string \<Rightarrow> string list" where
  "split_char d [] = [[]]"
| "split_char d (c # s) =
     (if c = d then [] # split_char d s
      else (case split_char d s of [] \<Rightarrow> [[c]] | t # ts \<Rightarrow> (c # t) # ts))"

fun join :: "string \<Rightarrow> string list \<Rightarrow> string" where
  "join d [] = []"
| "join d [t] = t"
| "join d (t # u # ts) = t @ d @ join d (u # ts)"

lemma split_char_nonempty [simp]: "split_char d s \<noteq> []"
  by (induction s) (auto split: list.splits)

lemma join_Cons: "ts \<noteq> [] \<Longrightarrow> join d (t # ts) = t @ d @ join d ts"
  by (cases ts) auto

lemma join_split_char [simp]: "join [d] (split_char d s) = s"
proof (induction s)
  case Nil
  then show ?case by simp
next
  case (Cons c s)
  then show ?case
    by (cases "split_char d s"; cases "tl (split_char d s)") (auto simp: join_Cons)
qed

lemma split_char_no_sep: "t \<in> set (split_char d s) \<Longrightarrow> d \<notin> set t"
proof (induction s arbitrary: t)
  case Nil
  then show ?case by simp
next
  case (Cons c s)
  then show ?case by (fastforce split: if_splits list.splits)
qed

lemma split_char_id: "d \<notin> set s \<Longrightarrow> split_char d s = [s]"
  by (induction s) auto

lemma split_char_append: "d \<notin> set t \<Longrightarrow> split_char d (t @ d # s) = t # split_char d s"
  by (induction t) auto

lemma split_char_join:
  "ts \<noteq> [] \<Longrightarrow> (\<And>t. t \<in> set ts \<Longrightarrow> d \<notin> set t) \<Longrightarrow> split_char d (join [d] ts) = ts"
proof (induction ts)
  case Nil
  then show ?case by simp
next
  case (Cons t ts)
  then show ?case
    by (cases ts) (auto simp: split_char_id split_char_append)
qed

subsection \<open>Prefix, suffix and substring tests\<close>

fun starts_with :: "string \<Rightarrow> string \<Rightarrow> bool" where
  "starts_with s [] = True"
| "starts_with [] (p # ps) = False"
| "starts_with (c # s) (p # ps) = (c = p \<and> starts_with s ps)"

fun contains :: "string \<Rightarrow> string \<Rightarrow> bool" where
  "contains [] p = (p = [])"
| "contains (c # s) p = (starts_with (c # s) p \<or> contains s p)"

lemma contains_Nil [simp]: "contains s []"
  by (cases s) auto

definition strip_prefix :: "string \<Rightarrow> string \<Rightarrow> string option" where
  "strip_prefix p s = (if starts_with s p then Some (drop (length p) s) else None)"

lemma starts_with_iff: "starts_with s p \<longleftrightarrow> (\<exists>r. s = p @ r)"
  by (induction s p rule: starts_with.induct) auto

lemma strip_prefix_Some_iff: "strip_prefix p s = Some r \<longleftrightarrow> s = p @ r"
  by (auto simp: strip_prefix_def starts_with_iff)

lemma strip_prefix_None_iff: "strip_prefix p s = None \<longleftrightarrow> (\<forall>r. s \<noteq> p @ r)"
  by (auto simp: strip_prefix_def starts_with_iff)

lemma contains_iff: "contains s p \<longleftrightarrow> (\<exists>u v. s = u @ p @ v)"
proof (induction s)
  case Nil
  then show ?case by auto
next
  case (Cons c s)
  show ?case
  proof
    assume "contains (c # s) p"
    then consider r where "c # s = p @ r" | "contains s p"
      by (auto simp: starts_with_iff)
    then show "\<exists>u v. c # s = u @ p @ v"
    proof cases
      case (1 r)
      then have "c # s = [] @ p @ r" by simp
      then show ?thesis by blast
    next
      case 2
      with Cons.IH obtain u v where "s = u @ p @ v" by blast
      then have "c # s = (c # u) @ p @ v" by simp
      then show ?thesis by blast
    qed
  next
    assume "\<exists>u v. c # s = u @ p @ v"
    then obtain u v where uv: "c # s = u @ p @ v" by blast
    show "contains (c # s) p"
    proof (cases u)
      case Nil
      with uv have "starts_with (c # s) p" by (simp add: starts_with_iff)
      then show ?thesis by simp
    next
      case (Cons c' u')
      with uv have "s = u' @ p @ v" by simp
      with Cons.IH show ?thesis by auto
    qed
  qed
qed

section \<open>Traces of a component\<close>

fun run_trace :: "('s \<Rightarrow> 'e \<Rightarrow> 's \<times> 'r) \<Rightarrow> 's \<Rightarrow> 'e list \<Rightarrow> 's \<times> 'r list" where
  "run_trace step s [] = (s, [])"
| "run_trace step s (e # es) =
     (case step s e of (s', r) \<Rightarrow>
        (case run_trace step s' es of (s'', rs) \<Rightarrow> (s'', r # rs)))"

lemma fst_run_trace_Cons [simp]:
  "fst (run_trace step s (e # es)) = fst (run_trace step (fst (step s e)) es)"
  by (simp split: prod.splits)

lemma snd_run_trace_Cons [simp]:
  "snd (run_trace step s (e # es)) = snd (step s e) # snd (run_trace step (fst (step s e)) es)"
  by (simp split: prod.splits)

declare run_trace.simps(2) [simp del]

lemma run_trace_length [simp]: "length (snd (run_trace step s es)) = length es"
  by (induction es arbitrary: s) auto

lemma fst_run_trace_append [simp]:
  "fst (run_trace step s (es @ fs)) = fst (run_trace step (fst (run_trace step s es)) fs)"
  by (induction es arbitrary: s) auto

lemma snd_run_trace_append [simp]:
  "snd (run_trace step s (es @ fs)) =
     snd (run_trace step s es) @ snd (run_trace step (fst (run_trace step s es)) fs)"
  by (induction es arbitrary: s) auto

lemma run_trace_invariant:
  assumes "I s" and "\<And>s e. I s \<Longrightarrow> I (fst (step s e))"
  shows "I (fst (run_trace step s es))"
  using assms(1) by (induction es arbitrary: s) (auto intro: assms(2))

text \<open>The results that the events of one key received, in order.\<close>

definition results_for :: "('e \<Rightarrow> 'k) \<Rightarrow> 'k \<Rightarrow> 'e list \<Rightarrow> 'r list \<Rightarrow> 'r list" where
  "results_for key_of k es rs = map snd (filter (\<lambda>(e, r). key_of e = k) (zip es rs))"

section \<open>Components with independent state per key\<close>

text \<open>
  The contract a keyed component promises to the proxy: an event of one key neither reads
  nor writes what is kept for another key. The client lemma \<open>isolation\<close> is that in any
  interleaving each key sees exactly the results it would see on its own.
\<close>

locale keyed_component =
  fixes step :: "'s \<Rightarrow> 'e \<Rightarrow> 's \<times> 'r"
    and key_of :: "'e \<Rightarrow> 'k"
    and view :: "'s \<Rightarrow> 'k \<Rightarrow> 'v"
  assumes frame: "key_of e \<noteq> k \<Longrightarrow> view (fst (step s e)) k = view s k"
    and local_view: "view s (key_of e) = view s' (key_of e) \<Longrightarrow>
      view (fst (step s e)) (key_of e) = view (fst (step s' e)) (key_of e)"
    and local_result: "view s (key_of e) = view s' (key_of e) \<Longrightarrow>
      snd (step s e) = snd (step s' e)"
begin

lemma isolation_gen:
  assumes "view s k = view s' k"
  shows "view (fst (run_trace step s es)) k
           = view (fst (run_trace step s' (filter (\<lambda>e. key_of e = k) es))) k
       \<and> results_for key_of k es (snd (run_trace step s es))
           = snd (run_trace step s' (filter (\<lambda>e. key_of e = k) es))"
  using assms
proof (induction es arbitrary: s s')
  case Nil
  then show ?case by (simp add: results_for_def)
next
  case (Cons e es)
  show ?case
  proof (cases "key_of e = k")
    case True
    with Cons.prems local_view local_result
    have "view (fst (step s e)) k = view (fst (step s' e)) k" and "snd (step s e) = snd (step s' e)"
      by blast+
    with Cons.IH [of "fst (step s e)" "fst (step s' e)"] True show ?thesis
      by (simp add: results_for_def)
  next
    case False
    with Cons.prems frame have "view (fst (step s e)) k = view s' k" by simp
    with Cons.IH [of "fst (step s e)" s'] False show ?thesis
      by (simp add: results_for_def)
  qed
qed

lemma isolation_view:
  "view (fst (run_trace step s es)) k
     = view (fst (run_trace step s (filter (\<lambda>e. key_of e = k) es))) k"
  using isolation_gen [of s k s es] by simp

lemma isolation_results:
  "results_for key_of k es (snd (run_trace step s es))
     = snd (run_trace step s (filter (\<lambda>e. key_of e = k) es))"
  using isolation_gen [of s k s es] by simp

lemma untouched:
  "(\<And>e. e \<in> set es \<Longrightarrow> key_of e \<noteq> k) \<Longrightarrow> view (fst (run_trace step s es)) k = view s k"
proof -
  assume "\<And>e. e \<in> set es \<Longrightarrow> key_of e \<noteq> k"
  then have "filter (\<lambda>e. key_of e = k) es = []" by (simp add: filter_empty_conv)
  then show ?thesis using isolation_view [of s es k] by simp
qed

end

section \<open>Generic facts on lists\<close>

lemma filter_subset_length:
  "(\<And>x. x \<in> set xs \<Longrightarrow> P x \<Longrightarrow> Q x) \<Longrightarrow> length (filter P xs) \<le> length (filter Q xs)"
  by (induction xs) auto

lemma count_update:
  "i < length xs \<Longrightarrow>
   length (filter P (xs[i := y])) + of_bool (P (xs ! i)) = length (filter P xs) + of_bool (P y)"
proof (induction xs arbitrary: i)
  case (Cons x xs)
  then show ?case using Cons.IH [of "i - 1"] by (cases i) auto
qed simp

lemma filter_filter_stronger:
  "(\<And>x. x \<in> set xs \<Longrightarrow> P x \<Longrightarrow> Q x) \<Longrightarrow> filter P (filter Q xs) = filter P xs"
  by (induction xs) auto

section \<open>Families of counters\<close>

text \<open>A family of counters of which finitely many are not zero, and its total.\<close>

definition bump :: "'k \<Rightarrow> ('k \<Rightarrow> nat) \<Rightarrow> 'k \<Rightarrow> nat" where
  "bump k f = f(k := f k + 1)"

definition total_count :: "('k \<Rightarrow> nat) \<Rightarrow> nat" where
  "total_count f = sum f {k. f k \<noteq> 0}"

lemma total_superset: "finite S \<Longrightarrow> {k. f k \<noteq> 0} \<subseteq> S \<Longrightarrow> total_count f = sum f S"
  unfolding total_count_def by (intro sum.mono_neutral_left) auto

lemma finite_bump: "finite {k. f k \<noteq> 0} \<Longrightarrow> finite {k'. bump k f k' \<noteq> 0}"
  by (rule finite_subset [of _ "insert k {k. f k \<noteq> 0}"]) (auto simp: bump_def)

lemma total_bump:
  assumes "finite {k. f k \<noteq> 0}"
  shows "total_count (bump k f) = total_count f + 1"
proof -
  let ?S = "insert k {k. f k \<noteq> 0}"
  have "total_count (bump k f) = sum (bump k f) ?S"
    using assms by (intro total_superset) (auto simp: bump_def)
  moreover have "total_count f = sum f ?S"
    using assms by (intro total_superset) auto
  moreover have "sum (bump k f) ?S = sum f ?S + 1"
    using assms by (simp add: bump_def sum.insert_remove)
  ultimately show ?thesis by simp
qed

section \<open>Generic facts on results\<close>

lemma map_sum_Inr_iff [simp]: "map_sum f g s = Inr y \<longleftrightarrow> (\<exists>x. s = Inr x \<and> y = g x)"
  by (cases s) auto

lemma map_sum_Inl_iff [simp]: "map_sum f g s = Inl e \<longleftrightarrow> (\<exists>x. s = Inl x \<and> e = f x)"
  by (cases s) auto

end
