(* ===== verification/Core_Types.thy ===== *)
theory Core_Types
  imports Gate_Prelude
begin

text \<open>
  The types of \<open>safegate-core\<close> that every other component shares: \<open>SafeGateError\<close>
  (\<open>error.rs\<close>) and \<open>AgentContext\<close> (\<open>identity.rs\<close>).
\<close>

text \<open>\<open>Result<T, E>\<close> is the sum \<open>E + T\<close>; \<open>is_ok\<close> is Rust's \<open>Result::is_ok\<close>.\<close>

abbreviation is_ok :: "'e + 'a \<Rightarrow> bool" where
  "is_ok r \<equiv> \<not> isl r"

datatype SafeGateError =
    JsonRpcError string
  | Unauthorized string
  | RateLimitExceeded
  | CircuitOpen string
  | GuardrailViolation string
  | WasmExecutionError string
  | InternalError string

text \<open>The \<open>Display\<close> text that \<open>thiserror\<close> derives from the \<open>#[error(..)]\<close> attributes.\<close>

fun error_to_string :: "SafeGateError \<Rightarrow> string" where
  "error_to_string (JsonRpcError m) = ''JSON-RPC error: '' @ m"
| "error_to_string (Unauthorized m) = ''unauthorized: '' @ m"
| "error_to_string RateLimitExceeded = ''rate limit exceeded''"
| "error_to_string (CircuitOpen m) = ''circuit breaker open: '' @ m"
| "error_to_string (GuardrailViolation m) = ''guardrail violation: '' @ m"
| "error_to_string (WasmExecutionError m) = ''WASM execution error: '' @ m"
| "error_to_string (InternalError m) = ''internal error: '' @ m"

record AgentContext =
  agent_id :: string
  tenant_id :: string
  roles :: "string list"
  authenticated :: bool

end
