(* ===== verification/Rate_Limit.thy ===== *)
theory Rate_Limit
  imports Core_Types
begin

text \<open>
  \<open>safegate-proxy/src/rate_limit.rs\<close>: the per-agent sliding-window limiter. The shared
  \<open>DashMap\<close> is a map from agents to the instants of their admitted requests; one call of
  \<open>check_rate_limit\<close> is one event, atomic under the entry's lock. The clock is read
  before the lock is taken, so the instants of successive events need not be sorted: the
  bound on what is stored holds for any instants, the bound on every window for a
  sorted sequence, and \<open>skewed_clock_exceeds_window\<close> shows what a race can do.
\<close>

section \<open>Model\<close>

record RateLimiter =
  requests :: "string \<rightharpoonup> instant list"

definition rate_limiter_new :: RateLimiter where
  "rate_limiter_new = \<lparr>requests = Map.empty\<rparr>"

definition timestamps_of :: "RateLimiter \<Rightarrow> string \<Rightarrow> instant list" where
  "timestamps_of rl key = (case requests rl key of None \<Rightarrow> [] | Some ts \<Rightarrow> ts)"

definition check_rate_limit ::
  "RateLimiter \<Rightarrow> string \<Rightarrow> nat \<Rightarrow> duration \<Rightarrow> instant \<Rightarrow> RateLimiter \<times> (SafeGateError + unit)" where
  "check_rate_limit rl key max_requests window_duration now =
     (let timestamps = timestamps_of rl key;
          retained = filter (\<lambda>timestamp. duration_since now timestamp < window_duration) timestamps
      in if max_requests \<le> length retained
         then (rl\<lparr>requests := (requests rl)(key \<mapsto> retained)\<rparr>, Inl RateLimitExceeded)
         else (rl\<lparr>requests := (requests rl)(key \<mapsto> retained @ [now])\<rparr>, Inr ()))"

text \<open>One event: a key and the instant its caller read from the clock.\<close>

definition rate_step ::
  "nat \<Rightarrow> duration \<Rightarrow> RateLimiter \<Rightarrow> string \<times> instant \<Rightarrow> RateLimiter \<times> (SafeGateError + unit)" where
  "rate_step max_requests window_duration rl e =
     check_rate_limit rl (fst e) max_requests window_duration (snd e)"

definition admitted_for :: "string \<Rightarrow> (string \<times> instant) list \<Rightarrow> (SafeGateError + unit) list \<Rightarrow> instant list" where
  "admitted_for key es rs = map (snd \<circ> fst) (filter (\<lambda>(e, r). fst e = key \<and> is_ok r) (zip es rs))"

section \<open>Behaviour of one call\<close>

lemma timestamps_of_new [simp]: "timestamps_of rate_limiter_new key = []"
  by (simp add: timestamps_of_def rate_limiter_new_def)

lemma timestamps_of_update [simp]:
  "timestamps_of (rl\<lparr>requests := (requests rl)(key \<mapsto> ts)\<rparr>) key' =
     (if key' = key then ts else timestamps_of rl key')"
  by (simp add: timestamps_of_def)

lemma check_rate_limit_ok_iff:
  "is_ok (snd (check_rate_limit rl key m w now)) \<longleftrightarrow>
     length (filter (\<lambda>t. duration_since now t < w) (timestamps_of rl key)) < m"
  by (auto simp: check_rate_limit_def Let_def)

lemma check_rate_limit_timestamps:
  "timestamps_of (fst (check_rate_limit rl key m w now)) key' =
     (if key' \<noteq> key then timestamps_of rl key'
      else filter (\<lambda>t. duration_since now t < w) (timestamps_of rl key)
           @ (if is_ok (snd (check_rate_limit rl key m w now)) then [now] else []))"
  by (auto simp: check_rate_limit_def Let_def)

lemma rate_step_ok_iff:
  "is_ok (snd (rate_step m w rl e)) \<longleftrightarrow>
     length (filter (\<lambda>t. duration_since (snd e) t < w) (timestamps_of rl (fst e))) < m"
  by (simp add: rate_step_def check_rate_limit_ok_iff)

lemma rate_step_timestamps:
  "timestamps_of (fst (rate_step m w rl e)) key =
     (if key \<noteq> fst e then timestamps_of rl key
      else filter (\<lambda>t. duration_since (snd e) t < w) (timestamps_of rl (fst e))
           @ (if is_ok (snd (rate_step m w rl e)) then [snd e] else []))"
  by (simp add: rate_step_def check_rate_limit_timestamps)

lemmas rate_simps [gate_simps] = rate_step_timestamps rate_step_ok_iff

interpretation rate: keyed_component "rate_step m w" fst timestamps_of
  by unfold_locales (auto simp: rate_step_def check_rate_limit_def Let_def)

section \<open>What is stored is bounded by the quota\<close>

definition rate_inv :: "nat \<Rightarrow> RateLimiter \<Rightarrow> bool" where
  "rate_inv m rl \<longleftrightarrow> (\<forall>key. length (timestamps_of rl key) \<le> m)"

lemma rate_inv_new [gate_inv]: "rate_inv m rate_limiter_new"
  by (simp add: rate_inv_def)

lemma rate_step_inv [gate_inv]:
  assumes "rate_inv m rl"
  shows "rate_inv m (fst (rate_step m w rl e))"
proof -
  have "length (filter P (timestamps_of rl key)) \<le> m" for P key
    using assms by (auto simp: rate_inv_def intro: order_trans [OF length_filter_le])
  with assms show ?thesis
    unfolding rate_inv_def rate_simps by (auto simp: Suc_le_eq)
qed

section \<open>Every window holds at most the quota\<close>

text \<open>
  With sorted instants the stored list is exactly the part of the agent's admitted history
  that lies inside the window ending at the last call.
\<close>

abbreviation rate_run :: "nat \<Rightarrow> duration \<Rightarrow> (string \<times> instant) list \<Rightarrow> RateLimiter \<times> (SafeGateError + unit) list" where
  "rate_run m w es \<equiv> run_trace (rate_step m w) rate_limiter_new es"

abbreviation rate_admitted :: "nat \<Rightarrow> duration \<Rightarrow> string \<Rightarrow> (string \<times> instant) list \<Rightarrow> instant list" where
  "rate_admitted m w key es \<equiv> admitted_for key es (snd (rate_run m w es))"

lemma admitted_for_snoc:
  "length es = length rs \<Longrightarrow>
   admitted_for key (es @ [e]) (rs @ [r]) =
     admitted_for key es rs @ (if fst e = key \<and> is_ok r then [snd e] else [])"
  by (simp add: admitted_for_def)

lemma admitted_for_subset: "set (admitted_for key es rs) \<subseteq> snd ` set es"
  by (fastforce simp: admitted_for_def dest: set_zip_leftD)

lemma rate_history:
  assumes "sorted (map snd es)" and "\<And>e. e \<in> set es \<Longrightarrow> snd e \<le> now"
  shows "filter (\<lambda>t. duration_since now t < w) (timestamps_of (fst (rate_run m w es)) key)
       = filter (\<lambda>t. duration_since now t < w) (rate_admitted m w key es)"
  using assms
proof (induction es arbitrary: now rule: rev_induct)
  case Nil
  then show ?case by (simp add: admitted_for_def)
next
  case (snoc e es)
  let ?rl = "fst (rate_run m w es)"
  let ?in = "\<lambda>n t. duration_since n t < w"
  have le: "snd e \<le> now" and sorted: "sorted (map snd es)" and last: "\<And>x. x \<in> set es \<Longrightarrow> snd x \<le> snd e"
    using snoc.prems by (auto simp: sorted_append)
  have now: "\<And>x. x \<in> set es \<Longrightarrow> snd x \<le> now" using last le by (meson le_trans)
  note IH = snoc.IH [OF sorted now]
  show ?case
  proof (cases "fst e = key")
    case False
    then show ?thesis using IH
      by (simp add: admitted_for_snoc rate_step_timestamps)
  next
    case True
    have "filter (\<lambda>t. ?in (snd e) t \<and> ?in now t) ts = filter (?in now) ts" for ts
      using duration_since_mono [OF le] by (intro filter_cong) (auto intro: order_le_less_trans)
    with True IH show ?thesis
      by (simp add: admitted_for_snoc rate_step_timestamps)
  qed
qed

lemma rate_admit_room:
  assumes "sorted (map snd (es @ [e]))" and "is_ok (snd (rate_step m w (fst (rate_run m w es)) e))"
  shows "length (filter (\<lambda>t. duration_since (snd e) t < w) (rate_admitted m w (fst e) es)) < m"
proof -
  from assms(1) have "sorted (map snd es)" and "\<And>x. x \<in> set es \<Longrightarrow> snd x \<le> snd e"
    by (auto simp: sorted_append)
  from rate_history [OF this, of w m "fst e"] assms(2) show ?thesis
    by (simp add: rate_step_ok_iff)
qed

lemma rate_window_bound:
  assumes "sorted (map snd es)"
  shows "length (filter (\<lambda>t. s \<le> t \<and> t < s + w) (rate_admitted m w key es)) \<le> m"
  using assms
proof (induction es rule: rev_induct)
  case Nil
  then show ?case by (simp add: admitted_for_def)
next
  case (snoc e es)
  let ?win = "\<lambda>t. s \<le> t \<and> t < s + w"
  let ?ok = "is_ok (snd (rate_step m w (fst (rate_run m w es)) e))"
  from snoc.prems have IH: "length (filter ?win (rate_admitted m w key es)) \<le> m"
    and older: "\<And>x. x \<in> set es \<Longrightarrow> snd x \<le> snd e"
    using snoc.IH by (auto simp: sorted_append)
  show ?case
  proof (cases "fst e = key \<and> ?ok \<and> ?win (snd e)")
    case False
    then show ?thesis using IH by (auto simp: admitted_for_snoc)
  next
    case True
    have "length (filter ?win (rate_admitted m w key es))
        \<le> length (filter (\<lambda>t. duration_since (snd e) t < w) (rate_admitted m w key es))"
      using True by (intro filter_subset_length) (auto simp: duration_since_def)
    also have "\<dots> < m" using rate_admit_room [OF snoc.prems] True by simp
    finally show ?thesis using True by (simp add: admitted_for_snoc)
  qed
qed

section \<open>Properties\<close>

text \<open>
  C18. The documented quota: when calls are admitted in the order of their clock readings,
  at most \<open>max_requests\<close> requests of an agent are admitted in any interval of the length
  of the window, whatever other agents do.
\<close>

theorem rate_limit_every_window:
  assumes "sorted (map snd es)"
  shows "length (filter (\<lambda>t. s \<le> t \<and> t < s + w)
           (admitted_for key es (snd (run_trace (rate_step m w) rate_limiter_new es)))) \<le> m"
  using assms by (rule rate_window_bound)

theorem rate_limit_every_window_witness:
  "length (filter (\<lambda>t. 0 \<le> t \<and> t < 0 + 10)
     (admitted_for ''a'' [(''a'', 1), (''b'', 2), (''a'', 3), (''a'', 12)]
       (snd (run_trace (rate_step 1 10) rate_limiter_new [(''a'', 1), (''b'', 2), (''a'', 3), (''a'', 12)])))) \<le> 1"
  by (rule rate_limit_every_window) simp

text \<open>
  Whatever the clock readings and their order, the limiter never stores more than
  \<open>max_requests\<close> instants for an agent.
\<close>

theorem rate_limit_storage_bound:
  "length (timestamps_of (fst (run_trace (rate_step m w) rate_limiter_new es)) key) \<le> m"
proof -
  have "rate_inv m (fst (run_trace (rate_step m w) rate_limiter_new es))"
    by (rule run_trace_invariant) (auto intro: gate_inv)
  then show ?thesis by (simp add: rate_inv_def)
qed

text \<open>
  Agents are isolated: the results of an agent's calls do not depend on the calls of
  other agents that are interleaved with them.
\<close>

theorem rate_limit_isolation:
  "results_for fst key es (snd (run_trace (rate_step m w) rl es))
     = snd (run_trace (rate_step m w) rl (filter (\<lambda>e. fst e = key) es))"
  by (rule rate.isolation_results)

text \<open>
  A limited agent recovers: with a positive quota, a call at an instant by which every
  stored request left the window is admitted, and only its own instant is stored.
\<close>

theorem rate_limit_recovers:
  assumes "0 < m" and "\<And>t. t \<in> set (timestamps_of rl key) \<Longrightarrow> t + w \<le> now"
  shows "snd (check_rate_limit rl key m w now) = Inr ()
       \<and> timestamps_of (fst (check_rate_limit rl key m w now)) key = [now]"
proof -
  have "filter (\<lambda>t. duration_since now t < w) (timestamps_of rl key) = []"
    using assms(2) by (force simp: filter_empty_conv duration_since_def)
  with assms(1) show ?thesis by (simp add: check_rate_limit_def)
qed

theorem rate_limit_recovers_witness:
  "snd (check_rate_limit (fst (check_rate_limit rate_limiter_new ''a'' 1 60 5)) ''a'' 1 60 65) = Inr ()"
  using rate_limit_recovers [of 1 "fst (check_rate_limit rate_limiter_new ''a'' 1 60 5)" "''a''" 60 65]
  by (simp add: check_rate_limit_timestamps check_rate_limit_ok_iff)

text \<open>
  The window bound needs the order of the calls: the clock is read before the lock is taken, and with
  a quota of two per window of two, four calls that read 4, 4, 6 and 5 and are admitted in
  that order leave three admitted requests in the interval from 4 up to 6.
\<close>

theorem skewed_clock_exceeds_window:
  "length (filter (\<lambda>t. 4 \<le> t \<and> t < 4 + 2)
     (admitted_for ''a'' [(''a'', 4), (''a'', 4), (''a'', 6), (''a'', 5)]
       (snd (run_trace (rate_step 2 2) rate_limiter_new
          [(''a'', 4), (''a'', 4), (''a'', 6), (''a'', 5)])))) = 3"
  by (simp add: run_trace.simps rate_step_def check_rate_limit_def timestamps_of_def rate_limiter_new_def
      duration_since_def admitted_for_def)

end
