(* ===== verification/Circuit_Breaker.thy ===== *)
theory Circuit_Breaker
  imports Core_Types
begin

text \<open>
  \<open>safegate-proxy/src/circuit_breaker.rs\<close>: the per-agent breaker. The mutex-protected hash
  map is a map from agents to \<open>AgentCircuitState\<close>; \<open>check\<close> and \<open>record_failure\<close> take the
  instant that the code reads after it holds the lock. The abstract specification is the
  machine that the module's documentation describes, \<open>Closed\<close> with the recent violations
  or \<open>Open\<close> since an instant; the code refines it operation by operation.
\<close>

section \<open>Model\<close>

definition FAILURE_THRESHOLD :: nat where
  "FAILURE_THRESHOLD = 5"

definition FAILURE_WINDOW :: duration where
  "FAILURE_WINDOW = from_secs 10"

definition COOLDOWN_PERIOD :: duration where
  "COOLDOWN_PERIOD = from_secs 30"

record AgentCircuitState =
  failures :: "instant list"
  opened_at :: "instant option"

definition agent_circuit_state_new :: AgentCircuitState where
  "agent_circuit_state_new = \<lparr>failures = [], opened_at = None\<rparr>"

record CircuitBreaker =
  states :: "string \<rightharpoonup> AgentCircuitState"
  threshold :: nat
  window :: duration
  cooldown :: duration

definition with_params :: "nat \<Rightarrow> duration \<Rightarrow> duration \<Rightarrow> CircuitBreaker" where
  "with_params thr win cool =
     \<lparr>states = Map.empty, threshold = thr, window = win, cooldown = cool\<rparr>"

definition circuit_breaker_new :: CircuitBreaker where
  "circuit_breaker_new = with_params FAILURE_THRESHOLD FAILURE_WINDOW COOLDOWN_PERIOD"

definition quarantine_message :: "string \<Rightarrow> duration \<Rightarrow> string" where
  "quarantine_message agent remaining =
     ''agent '' @ [CHR 0x27] @ agent @ [CHR 0x27]
     @ '' is quarantined for policy violations (cooldown remaining: ''
     @ show_nat (as_secs remaining) @ ''s)''"

definition check :: "CircuitBreaker \<Rightarrow> string \<Rightarrow> instant \<Rightarrow> CircuitBreaker \<times> (SafeGateError + unit)" where
  "check cb agent now =
     (case states cb agent of
        None \<Rightarrow> (cb, Inr ())
      | Some state \<Rightarrow>
          (case opened_at state of
             None \<Rightarrow> (cb, Inr ())
           | Some opened \<Rightarrow>
               if duration_since now opened < cooldown cb
               then (cb, Inl (CircuitOpen (quarantine_message agent
                       (saturating_sub (cooldown cb) (duration_since now opened)))))
               else (cb\<lparr>states := (states cb)(agent \<mapsto> state\<lparr>opened_at := None, failures := []\<rparr>)\<rparr>,
                     Inr ())))"

definition record_failure :: "CircuitBreaker \<Rightarrow> string \<Rightarrow> instant \<Rightarrow> CircuitBreaker" where
  "record_failure cb agent now =
     (let state = (case states cb agent of None \<Rightarrow> agent_circuit_state_new | Some st \<Rightarrow> st);
          put = (\<lambda>st. cb\<lparr>states := (states cb)(agent \<mapsto> st)\<rparr>);
          count = (\<lambda>st. let fs = filter (\<lambda>t. duration_since now t \<le> window cb) (failures st) @ [now];
                            st' = st\<lparr>failures := fs\<rparr>
                        in if threshold cb \<le> length fs then st'\<lparr>opened_at := Some now\<rparr> else st')
      in case opened_at state of
           Some opened \<Rightarrow>
             if duration_since now opened < cooldown cb then put state
             else put (count (state\<lparr>opened_at := None, failures := []\<rparr>))
         | None \<Rightarrow> put (count state))"

text \<open>The two operations as events of one component.\<close>

datatype breaker_event = Check string instant | Failure string instant

fun breaker_agent :: "breaker_event \<Rightarrow> string" where
  "breaker_agent (Check a t) = a"
| "breaker_agent (Failure a t) = a"

fun breaker_time :: "breaker_event \<Rightarrow> instant" where
  "breaker_time (Check a t) = t"
| "breaker_time (Failure a t) = t"

fun breaker_step :: "CircuitBreaker \<Rightarrow> breaker_event \<Rightarrow> CircuitBreaker \<times> (SafeGateError + unit)" where
  "breaker_step cb (Check a t) = check cb a t"
| "breaker_step cb (Failure a t) = (record_failure cb a t, Inr ())"

section \<open>Abstract specification\<close>

datatype circuit = Closed "instant list" | Open instant

fun spec_check :: "duration \<Rightarrow> instant \<Rightarrow> circuit \<Rightarrow> circuit \<times> bool" where
  "spec_check cool now (Closed fs) = (Closed fs, True)"
| "spec_check cool now (Open t) =
     (if duration_since now t < cool then (Open t, False) else (Closed [], True))"

definition spec_count :: "nat \<Rightarrow> duration \<Rightarrow> instant \<Rightarrow> instant list \<Rightarrow> circuit" where
  "spec_count thr win now fs =
     (let fs' = filter (\<lambda>t. duration_since now t \<le> win) fs @ [now]
      in if thr \<le> length fs' then Open now else Closed fs')"

fun spec_failure :: "nat \<Rightarrow> duration \<Rightarrow> duration \<Rightarrow> instant \<Rightarrow> circuit \<Rightarrow> circuit" where
  "spec_failure thr win cool now (Closed fs) = spec_count thr win now fs"
| "spec_failure thr win cool now (Open t) =
     (if duration_since now t < cool then Open t else spec_count thr win now [])"

definition circuit_of :: "CircuitBreaker \<Rightarrow> string \<Rightarrow> circuit" where
  "circuit_of cb agent =
     (case states cb agent of
        None \<Rightarrow> Closed []
      | Some st \<Rightarrow> (case opened_at st of None \<Rightarrow> Closed (failures st) | Some t \<Rightarrow> Open t))"

section \<open>The code refines the specification\<close>

lemma circuit_of_with_params [simp]: "circuit_of (with_params thr win cool) a = Closed []"
  by (simp add: circuit_of_def with_params_def)

lemma params_with_params [simp]:
  "threshold (with_params thr win cool) = thr"
  "window (with_params thr win cool) = win"
  "cooldown (with_params thr win cool) = cool"
  by (simp_all add: with_params_def)

lemma params_check [simp]:
  "threshold (fst (check cb a t)) = threshold cb"
  "window (fst (check cb a t)) = window cb"
  "cooldown (fst (check cb a t)) = cooldown cb"
  by (auto simp: check_def split: option.splits)

lemma params_record_failure [simp]:
  "threshold (record_failure cb a t) = threshold cb"
  "window (record_failure cb a t) = window cb"
  "cooldown (record_failure cb a t) = cooldown cb"
  by (auto simp: record_failure_def Let_def split: option.splits)

lemma circuit_of_check:
  "circuit_of (fst (check cb a now)) a' =
     (if a' = a then fst (spec_check (cooldown cb) now (circuit_of cb a)) else circuit_of cb a')"
  by (auto simp: check_def circuit_of_def split: option.splits)

lemma check_ok_iff:
  "is_ok (snd (check cb a now)) \<longleftrightarrow> snd (spec_check (cooldown cb) now (circuit_of cb a))"
  by (auto simp: check_def circuit_of_def split: option.splits)

lemma circuit_of_record_failure:
  "circuit_of (record_failure cb a now) a' =
     (if a' = a then spec_failure (threshold cb) (window cb) (cooldown cb) now (circuit_of cb a)
      else circuit_of cb a')"
  by (auto simp: record_failure_def circuit_of_def spec_count_def agent_circuit_state_new_def Let_def
      split: option.splits)

lemmas breaker_simps [gate_simps] = circuit_of_check check_ok_iff circuit_of_record_failure

section \<open>Isolation between agents\<close>

text \<open>What the component keeps for one agent, with the parameters that every agent shares.\<close>

definition breaker_view :: "CircuitBreaker \<Rightarrow> string \<Rightarrow> AgentCircuitState option \<times> nat \<times> duration \<times> duration" where
  "breaker_view cb a = (states cb a, threshold cb, window cb, cooldown cb)"

interpretation breaker: keyed_component breaker_step breaker_agent breaker_view
proof (unfold_locales, goal_cases)
  case (1 e k s)
  then show ?case
    by (cases e) (auto simp: breaker_view_def check_def record_failure_def Let_def split: option.splits)
next
  case (2 s e s')
  then show ?case
    by (cases e) (auto simp: breaker_view_def check_def record_failure_def Let_def split: option.splits)
next
  case (3 s e s')
  then show ?case
    by (cases e) (auto simp: breaker_view_def check_def split: option.splits)
qed

section \<open>Invariant\<close>

text \<open>
  A closed circuit holds fewer violations than the threshold, an open one holds at least
  the threshold and was opened by its latest violation.
\<close>

definition agent_inv :: "nat \<Rightarrow> AgentCircuitState \<Rightarrow> bool" where
  "agent_inv thr st \<longleftrightarrow>
     (case opened_at st of
        None \<Rightarrow> length (failures st) < thr
      | Some t \<Rightarrow> thr \<le> length (failures st) \<and> failures st \<noteq> [] \<and> last (failures st) = t)"

definition breaker_inv :: "CircuitBreaker \<Rightarrow> bool" where
  "breaker_inv cb \<longleftrightarrow> (\<forall>a st. states cb a = Some st \<longrightarrow> agent_inv (threshold cb) st)"

lemma breaker_inv_new [gate_inv]: "breaker_inv (with_params thr win cool)"
  by (simp add: breaker_inv_def with_params_def)

lemma breaker_inv_update:
  "breaker_inv cb \<Longrightarrow> agent_inv (threshold cb) st \<Longrightarrow>
   breaker_inv (cb\<lparr>states := (states cb)(a \<mapsto> st)\<rparr>)"
  by (simp add: breaker_inv_def)

lemma agent_inv_closed [simp]: "opened_at st = None \<Longrightarrow> agent_inv thr st \<longleftrightarrow> length (failures st) < thr"
  by (simp add: agent_inv_def)

lemma agent_inv_open [simp]:
  "opened_at st = Some t \<Longrightarrow>
   agent_inv thr st \<longleftrightarrow> thr \<le> length (failures st) \<and> failures st \<noteq> [] \<and> last (failures st) = t"
  by (simp add: agent_inv_def)

lemma check_inv [gate_inv]:
  assumes "0 < threshold cb" and "breaker_inv cb"
  shows "breaker_inv (fst (check cb a t))"
  using assms by (auto simp: check_def breaker_inv_update split: option.splits)

lemma record_failure_inv [gate_inv]:
  assumes "breaker_inv cb"
  shows "breaker_inv (record_failure cb a t)"
proof -
  have "agent_inv (threshold cb) st" if "states cb a = Some st" for st
    using assms that by (simp add: breaker_inv_def)
  with assms show ?thesis
    by (auto simp: record_failure_def agent_circuit_state_new_def Let_def
        intro!: breaker_inv_update split: option.splits)
qed

lemma breaker_step_threshold [simp]: "threshold (fst (breaker_step cb e)) = threshold cb"
  by (cases e) auto

lemma breaker_step_inv [gate_inv]:
  "0 < threshold cb \<Longrightarrow> breaker_inv cb \<Longrightarrow> breaker_inv (fst (breaker_step cb e))"
  by (cases e) (auto intro: gate_inv)

section \<open>Quarantine\<close>

text \<open>While the circuit is open, no event of any agent closes it before the cooldown is over.\<close>

lemma open_stays_open:
  assumes "circuit_of cb a = Open t" and "duration_since (breaker_time e) t < cooldown cb"
  shows "circuit_of (fst (breaker_step cb e)) a = Open t"
  using assms by (cases e) (auto simp: breaker_simps)

lemma breaker_step_cooldown [simp]: "cooldown (fst (breaker_step cb e)) = cooldown cb"
  by (cases e) auto

lemma breaker_run_cooldown [simp]: "cooldown (fst (run_trace breaker_step cb es)) = cooldown cb"
  by (induction es arbitrary: cb) auto

lemma open_stays_open_run:
  assumes "circuit_of cb a = Open t" and "\<And>e. e \<in> set es \<Longrightarrow> duration_since (breaker_time e) t < cooldown cb"
  shows "circuit_of (fst (run_trace breaker_step cb es)) a = Open t"
  using assms by (induction es arbitrary: cb) (auto simp: open_stays_open)

section \<open>When the breaker trips\<close>

text \<open>
  The instants of the violations of one agent in a sequence of events. \<open>dense\<close> says that the
  last of them closes a window with at least the threshold of violations.
\<close>

fun failure_of :: "string \<Rightarrow> breaker_event \<Rightarrow> bool" where
  "failure_of a (Check b t) \<longleftrightarrow> False"
| "failure_of a (Failure b t) \<longleftrightarrow> b = a"

definition violation_times :: "string \<Rightarrow> breaker_event list \<Rightarrow> instant list" where
  "violation_times a es = map breaker_time (filter (failure_of a) es)"

definition dense :: "nat \<Rightarrow> duration \<Rightarrow> instant list \<Rightarrow> bool" where
  "dense thr win ts \<longleftrightarrow> ts \<noteq> [] \<and> thr \<le> length (filter (\<lambda>t. duration_since (last ts) t \<le> win) ts)"

lemma violation_times_simps [simp]:
  "violation_times a [] = []"
  "violation_times a (es @ [Check b t]) = violation_times a es"
  "violation_times a (es @ [Failure b t]) = violation_times a es @ (if b = a then [t] else [])"
  by (simp_all add: violation_times_def)

lemma breaker_run_snoc [simp]:
  "fst (run_trace breaker_step cb (es @ [e])) = fst (breaker_step (fst (run_trace breaker_step cb es)) e)"
  by (induction es arbitrary: cb) (auto split: prod.splits)

lemma breaker_step_window [simp]: "window (fst (breaker_step cb e)) = window cb"
  by (cases e) auto

lemma breaker_run_params [simp]:
  "threshold (fst (run_trace breaker_step cb es)) = threshold cb"
  "window (fst (run_trace breaker_step cb es)) = window cb"
  by (induction es arbitrary: cb) auto

text \<open>As long as no window was dense, the circuit holds the violations that a window can still count.\<close>

definition remembers :: "duration \<Rightarrow> instant list \<Rightarrow> instant list \<Rightarrow> bool" where
  "remembers win ts fs \<longleftrightarrow> (\<forall>now. (\<forall>t \<in> set ts. t \<le> now) \<longrightarrow>
     filter (\<lambda>t. duration_since now t \<le> win) fs = filter (\<lambda>t. duration_since now t \<le> win) ts)"

lemma remembers_snoc:
  assumes "remembers win ts fs" and "sorted (ts @ [t])"
  shows "remembers win (ts @ [t]) (filter (\<lambda>x. duration_since t x \<le> win) fs @ [t])"
  unfolding remembers_def
proof (intro allI impI)
  fix now assume now: "\<forall>x \<in> set (ts @ [t]). x \<le> now"
  have "filter (\<lambda>x. duration_since now x \<le> win) (filter (\<lambda>x. duration_since t x \<le> win) fs)
      = filter (\<lambda>x. duration_since now x \<le> win) fs"
    using now by (intro filter_filter_stronger) (auto intro: order_trans [OF duration_since_mono])
  with assms(1) now show "filter (\<lambda>x. duration_since now x \<le> win) (filter (\<lambda>x. duration_since t x \<le> win) fs @ [t])
      = filter (\<lambda>x. duration_since now x \<le> win) (ts @ [t])" by (simp add: remembers_def)
qed

lemma sparse_run_closed:
  assumes "circuit_of cb a = Closed []" and "0 < threshold cb" and "sorted (violation_times a es)"
    and "\<And>us vs. violation_times a es = us @ vs \<Longrightarrow> \<not> dense (threshold cb) (window cb) us"
  shows "\<exists>fs. circuit_of (fst (run_trace breaker_step cb es)) a = Closed fs \<and> remembers (window cb) (violation_times a es) fs"
  using assms(3,4)
proof (induction es rule: rev_induct)
  case Nil
  with assms(1) show ?case by (simp add: remembers_def)
next
  case (snoc e es)
  have "sorted (violation_times a es)" using snoc.prems(1) by (cases e) (auto simp: sorted_append split: if_splits)
  moreover have "\<not> dense (threshold cb) (window cb) us" if "violation_times a es = us @ vs" for us vs
    using snoc.prems(2) [of us] that by (cases e) auto
  ultimately obtain fs where fs: "circuit_of (fst (run_trace breaker_step cb es)) a = Closed fs"
    "remembers (window cb) (violation_times a es) fs"
    using snoc.IH by blast
  show ?case
  proof (cases "failure_of a e")
    case False
    with fs show ?thesis by (cases e) (auto simp: breaker_simps)
  next
    case True
    then obtain t where e: "e = Failure a t" by (cases e) auto
    let ?fs = "filter (\<lambda>x. duration_since t x \<le> window cb) fs @ [t]"
    have srt: "sorted (violation_times a es @ [t])" using snoc.prems(1) e by simp
    have "\<not> dense (threshold cb) (window cb) (violation_times a es @ [t])"
      using snoc.prems(2) [of "violation_times a es @ [t]" "[]"] e by simp
    with fs(2) srt have "length ?fs < threshold cb" by (simp add: dense_def remembers_def sorted_append)
    with fs e remembers_snoc [OF fs(2) srt] show ?thesis by (simp add: circuit_of_record_failure spec_count_def)
  qed
qed

section \<open>Properties\<close>

text \<open>The specification run on the events of a trace, for one agent.\<close>

fun spec_step :: "nat \<Rightarrow> duration \<Rightarrow> duration \<Rightarrow> string \<Rightarrow> circuit \<Rightarrow> breaker_event \<Rightarrow> circuit \<times> bool" where
  "spec_step thr win cool a c (Check b t) = (if b = a then spec_check cool t c else (c, True))"
| "spec_step thr win cool a c (Failure b t) = (if b = a then spec_failure thr win cool t c else c, True)"

lemma breaker_step_refines:
  "circuit_of (fst (breaker_step cb e)) a
     = fst (spec_step (threshold cb) (window cb) (cooldown cb) a (circuit_of cb a) e)"
  "breaker_agent e = a \<Longrightarrow> is_ok (snd (breaker_step cb e))
     = snd (spec_step (threshold cb) (window cb) (cooldown cb) a (circuit_of cb a) e)"
  by (cases e; auto simp: breaker_simps)+

lemma breaker_run_refines:
  "circuit_of (fst (run_trace breaker_step cb es)) a
     = fst (run_trace (spec_step (threshold cb) (window cb) (cooldown cb) a) (circuit_of cb a) es)
   \<and> map is_ok (results_for breaker_agent a es (snd (run_trace breaker_step cb es)))
     = results_for breaker_agent a es
         (snd (run_trace (spec_step (threshold cb) (window cb) (cooldown cb) a) (circuit_of cb a) es))"
proof (induction es arbitrary: cb)
  case Nil
  then show ?case by (simp add: results_for_def)
next
  case (Cons e es)
  from Cons.IH [of "fst (breaker_step cb e)"] show ?case
    by (auto simp: results_for_def breaker_step_refines)
qed

text \<open>The checks of an agent that were answered positively.\<close>

fun check_of :: "string \<Rightarrow> breaker_event \<Rightarrow> bool" where
  "check_of a (Check b t) \<longleftrightarrow> b = a"
| "check_of a (Failure b t) \<longleftrightarrow> False"

definition checks_passed :: "string \<Rightarrow> breaker_event list \<Rightarrow> bool list \<Rightarrow> nat" where
  "checks_passed a es oks = length (filter (\<lambda>(e, ok). check_of a e \<and> ok) (zip es oks))"

lemma checks_passed_simps [simp]:
  "checks_passed a [] oks = 0"
  "checks_passed a (e # es) (ok # oks) = of_bool (check_of a e \<and> ok) + checks_passed a es oks"
  "length es = length oks \<Longrightarrow>
     checks_passed a (es @ [e]) (oks @ [ok]) = checks_passed a es oks + of_bool (check_of a e \<and> ok)"
  by (simp_all add: checks_passed_def)

lemma check_of_agent: "check_of a e \<Longrightarrow> breaker_agent e = a"
  by (cases e) auto

lemma checks_passed_spec:
  "checks_passed a es (map is_ok (snd (run_trace breaker_step cb es)))
     = checks_passed a es
         (snd (run_trace (spec_step (threshold cb) (window cb) (cooldown cb) a) (circuit_of cb a) es))"
proof (induction es arbitrary: cb)
  case (Cons e es)
  from Cons.IH [of "fst (breaker_step cb e)"] show ?case
    by (auto simp: breaker_step_refines dest: check_of_agent)
qed simp

text \<open>
  C15. Refinement: run any sequence of checks and violations of any agents through the code.
  For each agent the stored state is, through \<open>circuit_of\<close>, the Closed/Open machine of the
  documentation run on the same sequence, and the agent's calls succeed exactly when the
  machine admits them.
\<close>

theorem circuit_breaker_refines_spec:
  "circuit_of (fst (run_trace breaker_step (with_params thr win cool) es)) a
     = fst (run_trace (spec_step thr win cool a) (Closed []) es)
   \<and> map is_ok (results_for breaker_agent a es
         (snd (run_trace breaker_step (with_params thr win cool) es)))
     = results_for breaker_agent a es (snd (run_trace (spec_step thr win cool a) (Closed []) es))"
  using breaker_run_refines [of "with_params thr win cool" es a] by simp

text \<open>
  C19. The breaker trips exactly on a dense window. Take a breaker in which the circuit of an agent
  is closed without recorded violations, as it is at first and again after a cooldown, and any
  sequence of checks and violations of any agents, in which the violations of this agent are
  in the order of the clock and none of them is the threshold-th within the window that ends at
  it. Then one more violation opens the circuit if and only if it is at least the threshold-th
  violation of the agent, in this sequence, within the window that ends at it.
\<close>

theorem circuit_breaker_trips_iff_dense:
  assumes "circuit_of cb a = Closed []" and "0 < threshold cb" and "sorted (violation_times a es @ [t])"
    and "\<forall>n \<le> length (violation_times a es). \<not> dense (threshold cb) (window cb) (take n (violation_times a es))"
  shows "circuit_of (record_failure (fst (run_trace breaker_step cb es)) a t) a = Open t
           \<longleftrightarrow> threshold cb \<le> length (filter (\<lambda>x. duration_since t x \<le> window cb) (violation_times a es @ [t]))"
proof -
  have "\<not> dense (threshold cb) (window cb) us" if "violation_times a es = us @ vs" for us vs
    using assms(4) that by (metis append_eq_conv_conj le_add1 length_append)
  moreover have "sorted (violation_times a es)" using assms(3) by (simp add: sorted_append)
  ultimately obtain fs where "circuit_of (fst (run_trace breaker_step cb es)) a = Closed fs"
    and "remembers (window cb) (violation_times a es) fs"
    using sparse_run_closed [OF assms(1,2)] by blast
  with assms(3) show ?thesis
    by (simp add: circuit_of_record_failure spec_count_def remembers_def sorted_append)
qed

theorem circuit_breaker_trips_iff_dense_witness:
  "circuit_of (record_failure (fst (run_trace breaker_step (with_params 3 5 7)
      [Failure ''a'' 1, Check ''a'' 2, Failure ''b'' 3, Failure ''a'' 4])) ''a'' 6) ''a'' = Open 6"
proof -
  let ?es = "[Failure ''a'' 1, Check ''a'' 2, Failure ''b'' 3, Failure ''a'' 4]"
  have v: "violation_times ''a'' ?es = [1, 4]" by (simp add: violation_times_def)
  have "\<forall>n \<le> length [1, 4 :: nat]. \<not> dense 3 5 (take n [1, 4])"
    by (simp add: dense_def le_Suc_eq duration_since_def)
  then show ?thesis
    using circuit_breaker_trips_iff_dense [of "with_params 3 5 7" "''a''" ?es 6, unfolded v]
    by (simp add: duration_since_def del: fst_run_trace_Cons)
qed

text \<open>
  Quarantine: once the circuit of an agent opened at \<open>t\<close>, then whatever events of
  whatever agents follow within the cooldown, every check of that agent within the cooldown
  is rejected with a \<open>CircuitOpen\<close> error, and the first check at or after
  \<open>t + cooldown\<close> is admitted and forgets the recorded violations.
\<close>

theorem circuit_breaker_quarantine:
  assumes "circuit_of cb a = Open t"
    and "\<And>e. e \<in> set es \<Longrightarrow> duration_since (breaker_time e) t < cooldown cb"
  shows "(duration_since now t < cooldown cb \<longrightarrow>
            (\<exists>msg. snd (check (fst (run_trace breaker_step cb es)) a now) = Inl (CircuitOpen msg)))
       \<and> (cooldown cb \<le> duration_since now t \<longrightarrow>
            snd (check (fst (run_trace breaker_step cb es)) a now) = Inr ()
            \<and> circuit_of (fst (check (fst (run_trace breaker_step cb es)) a now)) a = Closed [])"
proof -
  let ?cb = "fst (run_trace breaker_step cb es)"
  have op: "circuit_of ?cb a = Open t" using assms by (rule open_stays_open_run)
  have "\<exists>msg. snd (check ?cb a now) = Inl (CircuitOpen msg)" if "duration_since now t < cooldown cb"
    using op that by (auto simp: check_def circuit_of_def split: option.splits)
  moreover have "snd (check ?cb a now) = Inr ()" if "\<not> duration_since now t < cooldown cb"
    using op that by (auto simp: check_def circuit_of_def split: option.splits)
  ultimately show ?thesis using op by (auto simp: circuit_of_check)
qed

theorem circuit_breaker_quarantine_witness:
  "\<exists>msg. snd (check (fst (run_trace breaker_step
       (record_failure (with_params 1 10 30) ''bad'' 5) [Failure ''bad'' 6, Check ''good'' 7])) ''bad'' 20)
     = Inl (CircuitOpen msg)"
proof -
  have op: "circuit_of (record_failure (with_params 1 10 30) ''bad'' 5) ''bad'' = Open 5"
    by (simp add: circuit_of_record_failure spec_count_def)
  have within: "duration_since (breaker_time e) 5 < cooldown (record_failure (with_params 1 10 30) ''bad'' 5)"
    if "e \<in> set [Failure ''bad'' 6, Check ''good'' 7]" for e
    using that by (auto simp: duration_since_def)
  show ?thesis
    using circuit_breaker_quarantine [where now = 20 and es = "[Failure ''bad'' 6, Check ''good'' 7]", OF op within, THEN conjunct1]
    by (auto simp: duration_since_def)
qed

text \<open>
  Agents are isolated: in any interleaving, the results an agent's calls receive are
  those it would receive if no other agent existed.
\<close>

theorem circuit_breaker_isolation:
  "results_for breaker_agent a es (snd (run_trace breaker_step cb es))
     = snd (run_trace breaker_step cb (filter (\<lambda>e. breaker_agent e = a) es))"
  by (rule breaker.isolation_results)

text \<open>
  Invariant of every reachable breaker with a positive threshold: a closed circuit
  stores fewer violations than the threshold, an open one at least the threshold with the
  opening instant last.
\<close>

theorem circuit_breaker_invariant:
  assumes "0 < thr"
  shows "breaker_inv (fst (run_trace breaker_step (with_params thr win cool) es))"
proof -
  have "0 < threshold (fst (run_trace breaker_step (with_params thr win cool) es))
      \<and> breaker_inv (fst (run_trace breaker_step (with_params thr win cool) es))"
    using assms
    by (intro run_trace_invariant [where I = "\<lambda>cb. 0 < threshold cb \<and> breaker_inv cb"])
      (auto intro: gate_inv)
  then show ?thesis by simp
qed

theorem circuit_breaker_invariant_witness:
  "breaker_inv (fst (run_trace breaker_step (with_params 2 10 30)
     [Failure ''a'' 1, Failure ''a'' 2, Check ''a'' 3]))"
  by (rule circuit_breaker_invariant) simp

end
