(* ===== verification/Regex_Crate.thy ===== *)
theory Regex_Crate
  imports Gate_Prelude
begin

text \<open>
  The interface of the third-party \<open>regex\<close> crate that the redactor uses. The crate is a
  parameter: a \<open>regex_lib\<close> gives, for a pattern and a haystack, whether there is a match
  (\<open>RegexSet::matches\<close>) and the byte spans of the successive matches (\<open>find_iter\<close>).
  \<open>replace_all\<close> is the loop over these spans by which the crate documents it. The locale
  \<open>regex_crate\<close> states what the documentation promises of a pattern that matches no empty text, and
  \<open>regex_finds\<close> adds, for one pattern, that no occurrence of a given language escapes the
  scan. The second half is an executable backtracking engine over an abstract syntax of
  expressions that satisfies the interface; the witnesses evaluate it.
\<close>

section \<open>The interface\<close>

type_synonym span = "nat \<times> nat"

record regex_lib =
  is_match :: "string \<Rightarrow> string \<Rightarrow> bool"
  find_iter :: "string \<Rightarrow> string \<Rightarrow> span list"

definition slice :: "nat \<Rightarrow> nat \<Rightarrow> string \<Rightarrow> string" where
  "slice a b s = take (b - a) (drop a s)"

fun replace_matches :: "string \<Rightarrow> (string \<Rightarrow> string) \<Rightarrow> nat \<Rightarrow> span list \<Rightarrow> string" where
  "replace_matches hay rep last_match [] = drop last_match hay"
| "replace_matches hay rep last_match ((a, b) # ms) =
     slice last_match a hay @ rep (slice a b hay) @ replace_matches hay rep b ms"

definition replace_all :: "regex_lib \<Rightarrow> string \<Rightarrow> (string \<Rightarrow> string) \<Rightarrow> string \<Rightarrow> string" where
  "replace_all rx pattern rep hay = replace_matches hay rep 0 (find_iter rx pattern hay)"

fun spans_from :: "nat \<Rightarrow> nat \<Rightarrow> span list \<Rightarrow> bool" where
  "spans_from lo n [] = (lo \<le> n)"
| "spans_from lo n ((a, b) # ms) = (lo \<le> a \<and> a < b \<and> spans_from b n ms)"

lemma spans_from_le: "spans_from lo n ms \<Longrightarrow> lo \<le> n"
  by (induction ms arbitrary: lo) fastforce+

lemma spans_from_weaken: "spans_from lo n ms \<Longrightarrow> lo' \<le> lo \<Longrightarrow> spans_from lo' n ms"
  by (cases ms) auto

text \<open>
  The contract for a pattern that never matches the empty text, as each of the redactor's: the
  reported matches are successive, do not overlap and are not empty; there is a match exactly
  when one is reported.
\<close>

locale regex_crate =
  fixes rx :: regex_lib and pattern :: string
  assumes spans: "spans_from 0 (length hay) (find_iter rx pattern hay)"
    and is_match_iff: "is_match rx pattern hay \<longleftrightarrow> find_iter rx pattern hay \<noteq> []"
begin

lemma replace_all_no_match: "\<not> is_match rx pattern hay \<Longrightarrow> replace_all rx pattern rep hay = hay"
  by (simp add: replace_all_def is_match_iff)

end

text \<open>
  A pattern finds a language when every occurrence of a member overlaps a reported match:
  a leftmost scan that resumes at the end of the previous match skips none.
\<close>

locale regex_finds = regex_crate +
  fixes member :: "string \<Rightarrow> bool"
  assumes finds: "member (slice a b hay) \<Longrightarrow> a < b \<Longrightarrow> b \<le> length hay \<Longrightarrow>
      \<exists>(c, d) \<in> set (find_iter rx pattern hay). c < b \<and> a < d"

section \<open>Texts in which pieces are replaced by a placeholder\<close>

text \<open>
  \<open>redacts P t t'\<close>: \<open>t'\<close> is \<open>t\<close> with some disjoint pieces replaced by members of \<open>P\<close>.
  Every pass of the redactor is of this form.
\<close>

inductive redacts :: "string set \<Rightarrow> string \<Rightarrow> string \<Rightarrow> bool" for P where
  redacts_Nil: "redacts P [] []"
| redacts_keep: "redacts P t t' \<Longrightarrow> redacts P (c # t) (c # t')"
| redacts_piece: "redacts P t t' \<Longrightarrow> p \<in> P \<Longrightarrow> redacts P (m @ t) (p @ t')"

lemma redacts_keeps: "redacts P t t' \<Longrightarrow> redacts P (u @ t) (u @ t')"
  by (induction u) (auto intro: redacts.intros)

lemma redacts_refl [simp, intro]: "redacts P t t"
  using redacts_keeps [OF redacts_Nil, of P t] by simp

lemma redacts_append: "redacts P t t' \<Longrightarrow> redacts P u u' \<Longrightarrow> redacts P (t @ u) (t' @ u')"
  by (induction rule: redacts.induct) (auto intro: redacts.intros)

lemma slice_split: "a \<le> b \<Longrightarrow> b \<le> length s \<Longrightarrow> drop a s = slice a b s @ drop b s"
  by (simp add: slice_def) (metis append_take_drop_id drop_drop le_add_diff_inverse2)

lemma replace_matches_redacts:
  assumes "spans_from lo (length hay) ms" and "\<And>m. rep m \<in> P \<or> rep m = m"
  shows "redacts P (drop lo hay) (replace_matches hay rep lo ms)"
  using assms(1)
proof (induction ms arbitrary: lo)
  case Nil
  then show ?case by simp
next
  case (Cons ab ms)
  obtain a b where ab: "ab = (a, b)" by fastforce
  with Cons.prems have "lo \<le> a" "a < b" "spans_from b (length hay) ms" by auto
  moreover from this have "b \<le> length hay" by (simp add: spans_from_le)
  ultimately have "drop lo hay = slice lo a hay @ slice a b hay @ drop b hay"
    using slice_split [of lo a hay] slice_split [of a b hay] by simp
  moreover have "redacts P (slice a b hay @ drop b hay) (rep (slice a b hay) @ replace_matches hay rep b ms)"
    using assms(2) [of "slice a b hay"] Cons.IH [OF \<open>spans_from b (length hay) ms\<close>]
    by (auto intro: redacts_piece redacts_keeps)
  ultimately show ?case using ab by (simp add: redacts_keeps)
qed

lemma replace_all_redacts_aux:
  "spans_from 0 (length hay) (find_iter rx pattern hay) \<Longrightarrow> (\<And>m. rep m \<in> P \<or> rep m = m) \<Longrightarrow>
   redacts P hay (replace_all rx pattern rep hay)"
  using replace_matches_redacts [of 0 hay "find_iter rx pattern hay" rep P] by (simp add: replace_all_def)

section \<open>No member of a bracket-free language survives\<close>

definition bracketed :: "string \<Rightarrow> bool" where
  "bracketed p \<longleftrightarrow> p \<noteq> [] \<and> hd p = CHR ''['' \<and> last p = CHR '']''"

definition bracket_free :: "string \<Rightarrow> bool" where
  "bracket_free w \<longleftrightarrow> CHR ''['' \<notin> set w \<and> CHR '']'' \<notin> set w"

lemma occurrence_barrier:
  assumes eq: "u @ w @ v = x @ p @ y" and p: "bracketed p" and w: "bracket_free w"
  shows "(\<exists>v'. x = u @ w @ v') \<or> contains p w \<or> (\<exists>u'. y = u' @ w @ v)"
proof -
  let ?i = "length u" and ?j = "length u + length w" and ?z = "x @ p @ y"
  have z: "?z ! k \<in> set w" if "?i \<le> k" "k < ?j" for k
    using that eq [symmetric] by (auto simp: nth_append less_diff_conv2 add.commute)
  have w_eq: "w = take (length w) (drop ?i ?z)" using eq by (metis append_eq_conv_conj)
  have v_eq: "v = drop ?j ?z" using eq by (metis append.assoc append_eq_conv_conj length_append)
  have left: "?z ! length x = CHR ''[''" and right: "?z ! (length x + length p - 1) = CHR '']''"
    using p by (auto simp: bracketed_def nth_append hd_conv_nth last_conv_nth)
  consider "?j \<le> length x" | "length x + length p \<le> ?i" | "length x \<le> ?i" "?j \<le> length x + length p"
    | "?i < length x" "length x < ?j" | "?i < length x + length p" "length x + length p < ?j" "length x \<le> ?i"
    by linarith
  then show ?thesis
  proof cases
    case 1
    then have "x = u @ w @ drop ?j x"
      using eq by (metis (no_types, lifting) append.assoc append_eq_append_conv_if append_take_drop_id length_append)
    then show ?thesis by blast
  next
    case 2
    then have "drop ?i ?z = drop (?i - length x - length p) y" by simp
    moreover have "drop ?i ?z = w @ v" using eq by (metis append_eq_conv_conj)
    ultimately have "y = take (?i - length x - length p) y @ w @ v" by (metis append_take_drop_id)
    then show ?thesis by blast
  next
    case 3
    then have "w = take (length w) (drop (?i - length x) p)" using w_eq by simp
    then have "p = take (?i - length x) p @ w @ drop (length w) (drop (?i - length x) p)"
      by (metis append_take_drop_id)
    then show ?thesis by (auto simp: contains_iff)
  next
    case 4
    then show ?thesis using z [of "length x"] left w by (simp add: bracket_free_def)
  next
    case 5
    moreover have "p \<noteq> []" using p by (simp add: bracketed_def)
    ultimately have "?i \<le> length x + length p - 1" and "length x + length p - 1 < ?j"
      by (auto simp: Suc_le_eq)
    then show ?thesis using z [of "length x + length p - 1"] right w by (simp add: bracket_free_def)
  qed
qed

text \<open>Later passes bring no bracket-free text into being, apart from their placeholders.\<close>

lemma redacts_prefix:
  assumes "redacts P t t'" and "\<And>p. p \<in> P \<Longrightarrow> bracketed p" and "t' = w @ v" and "bracket_free w"
  shows "\<exists>v'. t = w @ v'"
  using assms(1,3,4)
proof (induction arbitrary: w rule: redacts.induct)
  case redacts_Nil
  then show ?case by simp
next
  case (redacts_keep t t' c)
  then show ?case by (cases w) (auto simp: bracket_free_def)
next
  case (redacts_piece t t' p m)
  from assms(2) [OF redacts_piece.hyps(2)] obtain q where "p = CHR ''['' # q"
    by (cases p) (auto simp: bracketed_def)
  with redacts_piece.prems have "w = []" by (cases w) (auto simp: bracket_free_def)
  then show ?case by simp
qed

lemma redacts_no_new:
  assumes "redacts P t t'" and P: "\<And>p. p \<in> P \<Longrightarrow> bracketed p"
    and w: "bracket_free w" and "\<And>p. p \<in> P \<Longrightarrow> \<not> contains p w"
    and "contains t' w"
  shows "contains t w"
  using assms(1,5)
proof (induction rule: redacts.induct)
  case redacts_Nil
  then show ?case by simp
next
  case (redacts_keep t t' c)
  from redacts_keep.prems consider v where "c # t' = w @ v" | "contains t' w"
    by (auto simp: starts_with_iff)
  then show ?case
  proof cases
    case 1
    with redacts_prefix [OF redacts.redacts_keep [OF redacts_keep.hyps] P, where w = w and v = v] w
    show ?thesis by (auto simp: starts_with_iff)
  next
    case 2
    with redacts_keep.IH show ?thesis by simp
  qed
next
  case (redacts_piece t t' p m)
  from redacts_piece.prems obtain u v where "u @ w @ v = [] @ p @ t'"
    by (auto simp: contains_iff)
  from occurrence_barrier [OF this P [OF redacts_piece.hyps(2)] w] assms(4) [OF redacts_piece.hyps(2)]
  have "w = [] \<or> contains t' w" by (auto simp: contains_iff)
  with redacts_piece.IH have "contains t w" by auto
  then show ?case unfolding contains_iff by (metis append.assoc)
qed

text \<open>A pass that replaces every match leaves only occurrences that overlap no match.\<close>

lemma drop_slice:
  assumes "drop a s = u @ w @ v"
  shows "slice (a + length u) (a + length u + length w) s = w"
proof -
  have "drop (a + length u) s = drop (length u) (drop a s)" by (simp add: add.commute)
  then have "drop (a + length u) s = w @ v" by (simp add: assms)
  then show ?thesis by (simp add: slice_def)
qed

lemma slice_slice:
  assumes "slice a b s = u @ w @ v"
  shows "slice (a + length u) (a + length u + length w) s = w"
proof -
  obtain r where "drop a s = slice a b s @ r" unfolding slice_def by (metis append_take_drop_id)
  with assms have "drop a s = u @ w @ (v @ r)" by simp
  then show ?thesis by (rule drop_slice)
qed

lemma replace_matches_gaps:
  assumes "spans_from lo (length hay) ms" and p: "bracketed p" and w: "bracket_free w" "w \<noteq> []"
    and "\<not> contains p w" and "contains (replace_matches hay (\<lambda>_. p) lo ms) w"
  shows "\<exists>a b. slice a b hay = w \<and> lo \<le> a \<and> a < b \<and> b \<le> length hay
           \<and> (\<forall>(c, d) \<in> set ms. \<not> (c < b \<and> a < d))"
  using assms(1,6)
proof (induction ms arbitrary: lo)
  case Nil
  then obtain u v where uv: "drop lo hay = u @ w @ v" and lo: "lo \<le> length hay" by (auto simp: contains_iff)
  let ?a = "lo + length u"
  from uv have "slice ?a (?a + length w) hay = w" by (rule drop_slice)
  moreover have "?a + length w \<le> length hay"
    using arg_cong [OF uv, of length] lo by simp
  moreover have "?a < ?a + length w" using w(2) by simp
  ultimately show ?case by (intro exI [of _ ?a] exI [of _ "?a + length w"]) simp
next
  case (Cons cd ms)
  obtain c d where cd: "cd = (c, d)" by fastforce
  with Cons.prems have sp: "lo \<le> c" "c < d" "spans_from d (length hay) ms" by auto
  then have d: "d \<le> length hay" by (simp add: spans_from_le)
  have later: "d \<le> c'" if "(c', d') \<in> set ms" for c' d'
    using sp(3) that by (induction ms arbitrary: d) fastforce+
  from Cons.prems(2) cd obtain u v
    where "u @ w @ v = slice lo c hay @ p @ replace_matches hay (\<lambda>_. p) d ms"
    by (auto simp: contains_iff)
  from occurrence_barrier [OF this p w(1)] assms(5)
  consider v' where "slice lo c hay = u @ w @ v'" | "contains (replace_matches hay (\<lambda>_. p) d ms) w"
    by (auto simp: contains_iff)
  then show ?case
  proof cases
    case 1
    let ?a = "lo + length u"
    have "c \<le> length hay" using sp d by simp
    then have "slice ?a (?a + length w) hay = w" using slice_slice [OF 1] by simp
    moreover have "?a + length w \<le> c"
      using arg_cong [OF 1, of length] \<open>c \<le> length hay\<close> sp(1) by (simp add: slice_def)
    moreover have "?a < ?a + length w" using w(2) by simp
    moreover have "\<not> (c' < ?a + length w \<and> ?a < d')" if "(c', d') \<in> set (cd # ms)" for c' d'
      using that cd later sp(2) \<open>?a + length w \<le> c\<close> by force
    ultimately show ?thesis using \<open>c \<le> length hay\<close>
      by (intro exI [of _ ?a] exI [of _ "?a + length w"]) auto
  next
    case 2
    from Cons.IH [OF sp(3) this] obtain a b where ab: "slice a b hay = w" "d \<le> a" "a < b" "b \<le> length hay"
      "\<forall>(c, d) \<in> set ms. \<not> (c < b \<and> a < d)" by blast
    then show ?thesis using cd sp by (intro exI [of _ a] exI [of _ b]) auto
  qed
qed

context regex_finds
begin

lemma replace_all_removes:
  assumes "bracketed p" and "\<And>w. member w \<Longrightarrow> bracket_free w \<and> w \<noteq> [] \<and> \<not> contains p w" and "member w"
  shows "\<not> contains (replace_all rx pattern (\<lambda>_. p) hay) w"
proof
  assume "contains (replace_all rx pattern (\<lambda>_. p) hay) w"
  then obtain a b where "slice a b hay = w" "a < b" "b \<le> length hay"
    and "\<forall>(c, d) \<in> set (find_iter rx pattern hay). \<not> (c < b \<and> a < d)"
    using replace_matches_gaps [OF spans assms(1), of w] assms(2) [OF assms(3)]
    unfolding replace_all_def by blast
  with finds [of a b hay] assms(3) show False by blast
qed

lemma no_match_no_member:
  assumes "\<not> is_match rx pattern hay" and "\<And>w. member w \<Longrightarrow> w \<noteq> []" and "member w"
  shows "\<not> contains hay w"
proof
  assume "contains hay w"
  then obtain u v where uv: "hay = u @ w @ v" by (auto simp: contains_iff)
  then have "slice (length u) (length u + length w) hay = w" by (simp add: slice_def)
  with finds [of "length u" "length u + length w" hay] assms uv show False
    by (simp add: is_match_iff)
qed

end

section \<open>A backtracking engine that meets the interface\<close>

text \<open>
  Expressions over bytes with classes, greedy repetition of a class, concatenation, greedy
  option and the word boundary. \<open>successes\<close> lists the lengths that an expression can
  consume, in the order in which leftmost-first search prefers them.
\<close>

datatype rx =
    Eps
  | Cls "char \<Rightarrow> bool"
  | StarCls "char \<Rightarrow> bool"
  | Cat rx rx
  | Opt rx
  | WordB

definition is_word :: "char \<Rightarrow> bool" where
  "is_word c \<longleftrightarrow> (let n = of_char c :: nat in
     48 \<le> n \<and> n \<le> 57 \<or> 65 \<le> n \<and> n \<le> 90 \<or> 97 \<le> n \<and> n \<le> 122 \<or> n = 95)"

definition word_at :: "char option \<Rightarrow> bool" where
  "word_at co = (case co of None \<Rightarrow> False | Some c \<Rightarrow> is_word c)"

definition head_option :: "'a list \<Rightarrow> 'a option" where
  "head_option s = (case s of [] \<Rightarrow> None | c # _ \<Rightarrow> Some c)"

fun successes :: "rx \<Rightarrow> char option \<Rightarrow> string \<Rightarrow> nat list" where
  "successes Eps prev s = [0]"
| "successes (Cls P) prev s = (case s of [] \<Rightarrow> [] | c # _ \<Rightarrow> if P c then [1] else [])"
| "successes (StarCls P) prev s = rev [0..<Suc (length (takeWhile P s))]"
| "successes (Cat r1 r2) prev s =
     concat (map (\<lambda>n. map (\<lambda>k. n + k)
       (successes r2 (if n = 0 then prev else head_option (drop (n - 1) s)) (drop n s)))
       (successes r1 prev s))"
| "successes (Opt r) prev s = successes r prev s @ [0]"
| "successes WordB prev s = (if word_at prev \<noteq> word_at (head_option s) then [0] else [])"

fun lang :: "rx \<Rightarrow> string set" where
  "lang Eps = {[]}"
| "lang (Cls P) = {[c] | c. P c}"
| "lang (StarCls P) = {w. \<forall>c \<in> set w. P c}"
| "lang (Cat r1 r2) = {u @ v | u v. u \<in> lang r1 \<and> v \<in> lang r2}"
| "lang (Opt r) = insert [] (lang r)"
| "lang WordB = {[]}"

fun wb_free :: "rx \<Rightarrow> bool" where
  "wb_free (Cat r1 r2) = (wb_free r1 \<and> wb_free r2)"
| "wb_free (Opt r) = wb_free r"
| "wb_free WordB = False"
| "wb_free _ = True"

fun scan :: "rx \<Rightarrow> nat \<Rightarrow> char option \<Rightarrow> string \<Rightarrow> nat \<Rightarrow> span list" where
  "scan r pos prev [] skip = []"
| "scan r pos prev (c # s) (Suc n) = scan r (Suc pos) (Some c) s n"
| "scan r pos prev (c # s) 0 =
     (case filter (\<lambda>n. 0 < n) (successes r prev (c # s)) of
        [] \<Rightarrow> scan r (Suc pos) (Some c) s 0
      | n # _ \<Rightarrow> (pos, pos + n) # scan r (Suc pos) (Some c) s (n - 1))"

definition engine :: "(string \<Rightarrow> rx) \<Rightarrow> regex_lib" where
  "engine ast = \<lparr>is_match = (\<lambda>p s. scan (ast p) 0 None s 0 \<noteq> []),
                 find_iter = (\<lambda>p s. scan (ast p) 0 None s 0)\<rparr>"

fun times :: "nat \<Rightarrow> rx \<Rightarrow> rx \<Rightarrow> rx" where
  "times 0 r k = k"
| "times (Suc n) r k = Cat r (times n r k)"

fun upto_times :: "nat \<Rightarrow> rx \<Rightarrow> rx" where
  "upto_times 0 r = Eps"
| "upto_times (Suc n) r = Opt (Cat r (upto_times n r))"

lemma successes_sound: "n \<in> set (successes r prev s) \<Longrightarrow> n \<le> length s \<and> take n s \<in> lang r"
proof (induction r arbitrary: n prev s)
  case (StarCls P)
  then have n: "n \<le> length (takeWhile P s)" by auto
  then have "take n s = take n (takeWhile P s)"
    by (metis takeWhile_eq_take take_take min.absorb1)
  then have "set (take n s) \<subseteq> set (takeWhile P s)" by (metis set_take_subset)
  moreover have "length (takeWhile P s) \<le> length s" by (rule length_takeWhile_le)
  ultimately show ?case using n by (auto dest: set_takeWhileD)
next
  case (Cat r1 r2)
  then obtain i k prev' where i: "i \<in> set (successes r1 prev s)"
    and k: "k \<in> set (successes r2 prev' (drop i s))" and n: "n = i + k" by auto
  have "take n s = take i s @ take k (drop i s)" by (simp add: n take_add)
  moreover have "n \<le> length s" using Cat.IH(1) [OF i] Cat.IH(2) [OF k] n by auto
  ultimately show ?case using Cat.IH(1) [OF i] Cat.IH(2) [OF k] unfolding lang.simps by blast
qed (auto split: list.splits if_splits)

text \<open>
  For evaluation: a text that lacks a character which every match must have is not scanned.
\<close>

fun possible :: "rx \<Rightarrow> string \<Rightarrow> bool" where
  "possible (Cls P) s = list_ex P s"
| "possible (Cat r1 r2) s = (if possible r1 s then possible r2 s else False)"
| "possible _ s = True"

lemma possible_lang: "w \<in> lang r \<Longrightarrow> set w \<subseteq> set s \<Longrightarrow> possible r s"
  by (induction r arbitrary: w) (fastforce simp: list_ex_iff)+

lemma scan_impossible: "\<not> possible r t \<Longrightarrow> set s \<subseteq> set t \<Longrightarrow> scan r pos prev s k = []"
proof (induction r pos prev s k rule: scan.induct)
  case (3 r pos prev c s)
  have "n \<notin> set (successes r prev (c # s))" for n
  proof
    assume "n \<in> set (successes r prev (c # s))"
    then have "take n (c # s) \<in> lang r" using successes_sound by blast
    moreover have "set (take n (c # s)) \<subseteq> set t" using "3.prems"(2) by (meson order_trans set_take_subset)
    ultimately show False using possible_lang "3.prems"(1) by blast
  qed
  then have "successes r prev (c # s) = []" by (metis list.set_intros(1) neq_Nil_conv)
  with 3 show ?case by simp
qed simp_all

lemma engine_code [code]:
  "engine ast =
     \<lparr>is_match = (\<lambda>p s. let r = ast p in if possible r s then scan r 0 None s 0 \<noteq> [] else False),
      find_iter = (\<lambda>p s. let r = ast p in if possible r s then scan r 0 None s 0 else [])\<rparr>"
  using scan_impossible by (auto simp: engine_def Let_def fun_eq_iff)

lemma set_concat_sums:
  "i \<in> set xs \<Longrightarrow> k \<in> set (f i) \<Longrightarrow> i + k \<in> set (concat (map (\<lambda>n. map (\<lambda>k. n + k) (f n)) xs))"
  by auto

lemma successes_complete: "wb_free r \<Longrightarrow> w \<in> lang r \<Longrightarrow> length w \<in> set (successes r prev (w @ v))"
proof (induction r arbitrary: w v prev)
  case (StarCls P)
  then have "length w \<le> length (takeWhile P (w @ v))" by (simp add: takeWhile_append)
  then show ?case by auto
next
  case (Cat r1 r2)
  then obtain x y where w: "w = x @ y" and x: "x \<in> lang r1" and y: "y \<in> lang r2" by auto
  let ?prev = "if length x = 0 then prev else head_option (drop (length x - 1) (x @ y @ v))"
  have "length x \<in> set (successes r1 prev (x @ y @ v))" using Cat.IH(1) [OF _ x] Cat.prems by simp
  moreover have "length y \<in> set (successes r2 ?prev (drop (length x) (x @ y @ v)))"
    using Cat.IH(2) [OF _ y] Cat.prems by simp
  ultimately show ?case
    using set_concat_sums [of "length x" _ "length y"
        "\<lambda>n. successes r2 (if n = 0 then prev else head_option (drop (n - 1) (x @ y @ v))) (drop n (x @ y @ v))"]
    by (simp add: w)
qed auto

lemma scan_spans: "skip \<le> length s \<Longrightarrow> spans_from (pos + skip) (pos + length s) (scan r pos prev s skip)"
proof (induction r pos prev s skip rule: scan.induct)
  case (3 r pos prev c s)
  show ?case
  proof (cases "filter (\<lambda>n. 0 < n) (successes r prev (c # s))")
    case Nil
    with 3(1) show ?thesis using spans_from_weaken [of "Suc pos"] by simp
  next
    case (Cons n ns)
    then have "n \<in> set (filter (\<lambda>n. 0 < n) (successes r prev (c # s)))" by simp
    then have n: "0 < n" "n \<le> Suc (length s)" using successes_sound [of n r prev "c # s"] by auto
    with 3(2) [OF Cons] Cons show ?thesis by (cases n) auto
  qed
qed auto

lemma scan_finds:
  assumes "wb_free r" and "w \<in> lang r" and "w \<noteq> []"
  shows "s = u @ w @ v \<Longrightarrow> skip \<le> length u \<Longrightarrow>
    \<exists>(c, d) \<in> set (scan r pos prev s skip). c < pos + length u + length w \<and> pos + length u < d"
  using assms
proof (induction r pos prev s skip arbitrary: u rule: scan.induct)
  case (1 r pos prev skip)
  then show ?case by simp
next
  case (2 r pos prev c s n)
  then obtain u' where u: "u = c # u'" by (cases u) auto
  with 2 show ?case by simp
next
  case (3 r pos prev c s)
  let ?ns = "filter (\<lambda>n. 0 < n) (successes r prev (c # s))"
  show ?case
  proof (cases u)
    case Nil
    with 3(3) have "length w \<in> set ?ns"
      using successes_complete [OF 3(5,6), of prev v] 3(7) by simp
    then obtain n ns where "?ns = n # ns" by (cases ?ns) auto
    moreover from this have "0 < n" by (metis filter_eq_ConsD)
    ultimately show ?thesis using Nil 3(7) by simp
  next
    case (Cons c' u')
    with 3(3) have s: "s = u' @ w @ v" by simp
    show ?thesis
    proof (cases ?ns)
      case Nil
      with 3(1) [OF Nil s _ 3(5-7)] Cons show ?thesis by simp
    next
      case ns: (Cons n ns)
      show ?thesis
      proof (cases "n - 1 \<le> length u'")
        case True
        with 3(2) [OF ns s True 3(5-7)] Cons ns show ?thesis by auto
      next
        case False
        with Cons ns show ?thesis by auto
      qed
    qed
  qed
qed

interpretation engine: regex_crate "engine ast" pattern for ast pattern
proof unfold_locales
  show "spans_from 0 (length hay) (find_iter (engine ast) pattern hay)" for hay
    using scan_spans [of 0 hay 0] by (simp add: engine_def)
  show "is_match (engine ast) pattern hay = (find_iter (engine ast) pattern hay \<noteq> [])" for hay
    by (simp add: engine_def)
qed

lemma engine_finds:
  assumes "wb_free (ast p)" and "\<And>w. member w \<Longrightarrow> w \<in> lang (ast p)"
  shows "regex_finds (engine ast) p member"
proof unfold_locales
  fix a b hay
  assume m: "member (slice a b hay)" and "a < b" "b \<le> length hay"
  then have "hay = take a hay @ slice a b hay @ drop b hay"
    using slice_split [of a b hay] append_take_drop_id [of a hay] by simp
  moreover have "slice a b hay \<noteq> []" and "length (slice a b hay) = b - a" and "length (take a hay) = a"
    using \<open>a < b\<close> \<open>b \<le> length hay\<close> by (auto simp: slice_def)
  ultimately show "\<exists>(c, d) \<in> set (find_iter (engine ast) p hay). c < b \<and> a < d"
    using scan_finds [OF assms(1) assms(2) [OF m], of hay "take a hay" "drop b hay" 0 0 None] \<open>a < b\<close>
    by (simp add: engine_def)
qed

end
