(* ===== verification/Json_Value.thy ===== *)
theory Json_Value
  imports Gate_Prelude "HOL-Library.List_Lexorder" "HOL-Library.Char_ord"
begin

text \<open>
  JSON as the crates see it. A \<open>json\<close> is a document: its objects are the fields in the
  order of the text, with duplicate names kept. \<open>value_of\<close> is the \<open>serde_json::Value\<close> that
  a document becomes: its objects are \<open>BTreeMap\<close>s, sorted by name, in which the last of
  several fields with one name wins. \<open>canonical\<close> documents are the images of values.
  Numbers are kept apart as the three cases of \<open>serde_json::Number\<close>: natural numbers (not
  bounded, so that the \<open>u128\<close> latency of an audit record is one), negative integers by
  their magnitude, and floating-point numbers by their text.
\<close>

datatype jnumber = PosInt nat | NegInt nat | Float string

datatype json =
    JNull
  | JBool bool
  | JNumber jnumber
  | JString string
  | JArray "json list"
  | JObject "(string \<times> json) list"

section \<open>Objects as ordered maps\<close>

fun obj_insert :: "string \<Rightarrow> json \<Rightarrow> (string \<times> json) list \<Rightarrow> (string \<times> json) list" where
  "obj_insert k v [] = [(k, v)]"
| "obj_insert k v ((k', v') # m) =
     (if k < k' then (k, v) # (k', v') # m
      else if k = k' then (k, v) # m
      else (k', v') # obj_insert k v m)"

definition obj_get :: "(string \<times> json) list \<Rightarrow> string \<Rightarrow> json option" where
  "obj_get m k = map_of m k"

fun obj_of :: "(string \<times> json) list \<Rightarrow> (string \<times> json) list \<Rightarrow> (string \<times> json) list" where
  "obj_of [] m = m"
| "obj_of ((k, v) # kvs) m = obj_of kvs (obj_insert k v m)"

fun value_of :: "json \<Rightarrow> json" where
  "value_of (JArray vs) = JArray (map value_of vs)"
| "value_of (JObject kvs) = JObject (obj_of (map (\<lambda>(k, v). (k, value_of v)) kvs) [])"
| "value_of v = v"

abbreviation sorted_keys :: "(string \<times> json) list \<Rightarrow> bool" where
  "sorted_keys m \<equiv> sorted_wrt (<) (map fst m)"

fun canonical :: "json \<Rightarrow> bool" where
  "canonical (JArray vs) = (\<forall>v \<in> set vs. canonical v)"
| "canonical (JObject kvs) = (sorted_keys kvs \<and> (\<forall>(k, v) \<in> set kvs. canonical v))"
| "canonical v = True"

lemma set_fst_obj_insert [simp]: "fst ` set (obj_insert k v m) = insert k (fst ` set m)"
  by (induction k v m rule: obj_insert.induct) auto

lemma set_obj_insert: "set (obj_insert k v m) \<subseteq> insert (k, v) (set m)"
  by (induction k v m rule: obj_insert.induct) auto

lemma sorted_obj_insert: "sorted_keys m \<Longrightarrow> sorted_keys (obj_insert k v m)"
  by (induction k v m rule: obj_insert.induct) (fastforce dest: set_obj_insert [THEN subsetD])+

lemma map_of_obj_insert: "sorted_keys m \<Longrightarrow> map_of (obj_insert k v m) = (map_of m)(k \<mapsto> v)"
  by (induction k v m rule: obj_insert.induct) (fastforce simp: fun_eq_iff map_of_eq_None_iff)+

lemma obj_insert_last:
  "(\<And>k'. k' \<in> fst ` set m \<Longrightarrow> k' < k) \<Longrightarrow> obj_insert k v m = m @ [(k, v)]"
proof (induction m)
  case Nil
  then show ?case by simp
next
  case (Cons kv m)
  obtain k' v' where "kv = (k', v')" by fastforce
  with Cons show ?case by (auto simp: less_not_sym)
qed

lemma sorted_obj_of: "sorted_keys m \<Longrightarrow> sorted_keys (obj_of kvs m)"
  by (induction kvs m rule: obj_of.induct) (auto simp: sorted_obj_insert)

lemma set_obj_of: "set (obj_of kvs m) \<subseteq> set kvs \<union> set m"
proof (induction kvs m rule: obj_of.induct)
  case (2 k v kvs m)
  then show ?case using set_obj_insert [of k v m] by auto
qed simp

lemma map_of_obj_of: "sorted_keys m \<Longrightarrow> map_of (obj_of kvs m) = map_of m ++ map_of (rev kvs)"
  by (induction kvs m rule: obj_of.induct)
    (auto simp: map_of_obj_insert sorted_obj_insert map_add_def fun_eq_iff split: option.splits)

lemma obj_of_sorted: "sorted_keys (m @ kvs) \<Longrightarrow> obj_of kvs m = m @ kvs"
proof (induction kvs m rule: obj_of.induct)
  case (2 k v kvs m)
  then have "obj_insert k v m = m @ [(k, v)]"
    by (intro obj_insert_last) (auto simp: sorted_wrt_append)
  with 2 show ?case by simp
qed simp

lemma canonical_value_of [simp]: "canonical (value_of v)"
proof (induction v rule: value_of.induct)
  case (2 kvs)
  then show ?case using set_obj_of [of "map (\<lambda>(k, v). (k, value_of v)) kvs" "[]"]
    by (fastforce simp: sorted_obj_of)
qed auto

lemma value_of_canonical [simp]: "canonical v \<Longrightarrow> value_of v = v"
proof (induction v rule: value_of.induct)
  case (1 vs)
  then show ?case by (simp add: map_idI)
next
  case (2 kvs)
  then have "map (\<lambda>(k, v). (k, value_of v)) kvs = kvs" by (intro map_idI) auto
  with 2 show ?case using obj_of_sorted [of "[]" kvs] by simp
qed auto

section \<open>String leaves and shape\<close>

fun leaves :: "json \<Rightarrow> string list" where
  "leaves (JString s) = [s]"
| "leaves (JArray vs) = concat (map leaves vs)"
| "leaves (JObject kvs) = concat (map (\<lambda>(k, v). leaves v) kvs)"
| "leaves v = []"

text \<open>The document with every string leaf blanked: names, nesting, order and other values.\<close>

fun shape :: "json \<Rightarrow> json" where
  "shape (JString s) = JString []"
| "shape (JArray vs) = JArray (map shape vs)"
| "shape (JObject kvs) = JObject (map (\<lambda>(k, v). (k, shape v)) kvs)"
| "shape v = v"


end
