(* ===== verification/Redactor.thy ===== *)
theory Redactor
  imports Complex_Main Regex_Crate Json_Value
begin

text \<open>
  \<open>safegate-core/src/redactor.rs\<close>: the engine that replaces e-mail addresses, keys, bearer
  tokens, card numbers and high-entropy tokens by placeholders. The \<open>regex\<close> crate is the
  parameter \<open>rx\<close>. The entropy is computed over the real numbers, where the code uses
  \<open>f64\<close>: a token whose exact entropy is within the rounding of the sum of the threshold may be
  judged differently by the program. \<open>entropy_at_least_iff\<close> turns the comparison of the model with
  the threshold into one between integers, by which it is evaluated.
\<close>

section \<open>Model\<close>

subsection \<open>Constants and the compiled patterns\<close>

definition REDACTED_SECRET :: string where
  "REDACTED_SECRET = ''[REDACTED_SECRET]''"

definition REDACTED_EMAIL :: string where
  "REDACTED_EMAIL = ''[REDACTED_EMAIL]''"

definition REDACTED_CARD :: string where
  "REDACTED_CARD = ''[REDACTED_CARD]''"

definition ENTROPY_THRESHOLD :: real where
  "ENTROPY_THRESHOLD = 9 / 2"

definition ENTROPY_MIN_LEN :: nat where
  "ENTROPY_MIN_LEN = 20"

text \<open>The patterns of \<open>PiiRedactor::new\<close>; \<open>backslash\<close> is the backslash.\<close>

definition backslash :: string where
  "backslash = [CHR 0x5C]"

definition api_key_pattern :: string where
  "api_key_pattern = ''sk-[A-Za-z0-9]{20,}''"

definition bearer_pattern :: string where
  "bearer_pattern = ''(?i)bearer'' @ backslash @ ''s+[A-Za-z0-9'' @ backslash @ ''-._~+/]+=*''"

definition email_pattern :: string where
  "email_pattern = ''(?i)[a-z0-9._%+'' @ backslash @ ''-]+@[a-z0-9.'' @ backslash @ ''-]+'' @ backslash @ ''.[a-z]{2,}''"

definition card_pattern :: string where
  "card_pattern = backslash @ ''b(?:'' @ backslash @ ''d[ '' @ backslash @ ''-]?){12,18}'' @ backslash @ ''d'' @ backslash @ ''b''"

record PiiRedactor =
  api_key_re :: string
  bearer_re :: string
  email_re :: string
  card_candidate_re :: string
  quick_set :: "string list"

definition pii_redactor_new :: PiiRedactor where
  "pii_redactor_new =
     \<lparr>api_key_re = api_key_pattern, bearer_re = bearer_pattern, email_re = email_pattern,
      card_candidate_re = card_pattern,
      quick_set = [api_key_pattern, bearer_pattern, email_pattern, card_pattern]\<rparr>"

subsection \<open>Luhn check\<close>

definition is_ascii_digit :: "char \<Rightarrow> bool" where
  "is_ascii_digit c \<longleftrightarrow> 48 \<le> (of_char c :: nat) \<and> (of_char c :: nat) \<le> 57"

definition digit_values :: "string \<Rightarrow> nat list" where
  "digit_values s = map (\<lambda>c. of_char c - 48) (filter is_ascii_digit s)"

definition luhn_digit :: "nat \<Rightarrow> nat \<Rightarrow> nat" where
  "luhn_digit i d =
     (if i mod 2 = 1 then (let doubled = d * 2 in if doubled > 9 then doubled - 9 else doubled) else d)"

definition luhn_sum :: "nat list \<Rightarrow> nat" where
  "luhn_sum ds = sum_list (map (\<lambda>(i, d). luhn_digit i d) (enumerate 0 (rev ds)))"

definition luhn_check :: "string \<Rightarrow> bool" where
  "luhn_check s =
     (let ds = digit_values s
      in if length ds < 13 \<or> length ds > 19 then False else luhn_sum ds mod 10 = 0)"

definition redact_cards :: "regex_lib \<Rightarrow> string \<Rightarrow> string \<Rightarrow> string" where
  "redact_cards rx card_re hay =
     replace_all rx card_re (\<lambda>matched. if luhn_check matched then REDACTED_CARD else matched) hay"

subsection \<open>Entropy\<close>

definition byte_freq :: "string \<Rightarrow> nat list" where
  "byte_freq s = foldl (\<lambda>freq b. freq[b := freq ! b + 1]) (replicate 256 0) (map of_char s)"

definition shannon_entropy :: "string \<Rightarrow> real" where
  "shannon_entropy s =
     (if s = [] then 0
      else (let len = real (length s)
            in sum_list (map (\<lambda>c. let p = real c / len in - p * log 2 p)
                 (filter (\<lambda>c. c > 0) (byte_freq s)))))"

definition high_entropy :: "string \<Rightarrow> bool" where
  "high_entropy tok \<longleftrightarrow> ENTROPY_MIN_LEN \<le> length tok \<and> ENTROPY_THRESHOLD \<le> shannon_entropy tok"

definition contains_high_entropy_token :: "string \<Rightarrow> bool" where
  "contains_high_entropy_token hay \<longleftrightarrow> list_ex high_entropy (split_whitespace hay)"

definition redact_token :: "string \<Rightarrow> string" where
  "redact_token tok =
     (if tok \<noteq> [] \<and> hd tok = CHR ''['' \<and> last tok = CHR '']'' then tok
      else if high_entropy tok then REDACTED_SECRET
      else tok)"

definition redact_high_entropy_tokens :: "string \<Rightarrow> string" where
  "redact_high_entropy_tokens hay = join '' '' (map redact_token (split_char (CHR '' '') hay))"

subsection \<open>Sanitising text and JSON\<close>

definition sanitize_str :: "regex_lib \<Rightarrow> PiiRedactor \<Rightarrow> string \<Rightarrow> string \<times> bool" where
  "sanitize_str rx self hay =
     (let quick_matches = map (\<lambda>pattern. is_match rx pattern hay) (quick_set self);
          entropy_hit = contains_high_entropy_token hay
      in if True \<notin> set quick_matches \<and> \<not> entropy_hit then (hay, False)
         else
           (let out = hay;
                out = (if quick_matches ! 1 then replace_all rx (bearer_re self) (\<lambda>_. REDACTED_SECRET) out else out);
                out = (if quick_matches ! 0 then replace_all rx (api_key_re self) (\<lambda>_. REDACTED_SECRET) out else out);
                out = (if quick_matches ! 2 then replace_all rx (email_re self) (\<lambda>_. REDACTED_EMAIL) out else out);
                out = (if quick_matches ! 3 then redact_cards rx (card_candidate_re self) out else out);
                out = (if entropy_hit then redact_high_entropy_tokens out else out)
            in (out, out \<noteq> hay)))"

fun sanitize_json :: "regex_lib \<Rightarrow> PiiRedactor \<Rightarrow> json \<Rightarrow> json \<times> bool" where
  "sanitize_json rx self (JString s) =
     (let (cleaned, changed) = sanitize_str rx self s
      in (if changed then JString cleaned else JString s, changed))"
| "sanitize_json rx self (JObject kvs) =
     (let rs = map (\<lambda>(k, v). (k, sanitize_json rx self v)) kvs
      in (JObject (map (\<lambda>(k, r). (k, fst r)) rs), list_ex (\<lambda>(k, r). snd r) rs))"
| "sanitize_json rx self (JArray vs) =
     (let rs = map (sanitize_json rx self) vs
      in (JArray (map fst rs), list_ex snd rs))"
| "sanitize_json rx self v = (v, False)"

section \<open>Entropy against an integer criterion\<close>

abbreviation freq_loop :: "nat list \<Rightarrow> nat list \<Rightarrow> nat list" where
  "freq_loop f bytes \<equiv> foldl (\<lambda>freq b. freq[b := Suc (freq ! b)]) f bytes"

lemma length_freq_loop [simp]: "length (freq_loop f bytes) = length f"
  by (induction bytes arbitrary: f) auto

lemma nth_freq_loop:
  "k < length f \<Longrightarrow> (\<And>b. b \<in> set bytes \<Longrightarrow> b < length f) \<Longrightarrow>
   freq_loop f bytes ! k = f ! k + count_list bytes k"
  by (induction bytes arbitrary: f) (auto simp: nth_list_update)

lemma byte_freq_count: "byte_freq s = map (count_list (map of_char s)) [0..<256]"
proof (rule nth_equalityI)
  show "length (byte_freq s) = length (map (count_list (map of_char s)) [0..<256])"
    by (simp add: byte_freq_def)
next
  fix k assume "k < length (byte_freq s)"
  then have "k < 256" by (simp add: byte_freq_def)
  then show "byte_freq s ! k = map (count_list (map of_char s)) [0..<256] ! k"
    using nth_freq_loop [where f = "replicate 256 0" and bytes = "map of_char s"]
    by (fastforce simp: byte_freq_def)
qed

lemma count_list_of_char: "count_list (map of_char s) (of_char c :: nat) = count_list s c"
  by (induction s) auto

lemma sum_list_byte_freq:
  fixes g :: "nat \<Rightarrow> real"
  shows "sum_list (map g (filter (\<lambda>c. c > 0) (byte_freq s))) = (\<Sum>c\<in>set s. g (count_list s c))"
proof -
  let ?bytes = "map of_char s :: nat list"
  have "sum_list (map g (filter (\<lambda>c. c > 0) (byte_freq s)))
      = sum_list (map (\<lambda>k. g (count_list ?bytes k)) (filter (\<lambda>k. count_list ?bytes k > 0) [0..<256]))"
    by (simp add: byte_freq_count filter_map comp_def)
  also have "\<dots> = (\<Sum>k\<in>set (filter (\<lambda>k. count_list ?bytes k > 0) [0..<256]). g (count_list ?bytes k))"
    by (simp add: sum_list_distinct_conv_sum_set)
  also have "set (filter (\<lambda>k. count_list ?bytes k > 0) [0..<256]) = of_char ` set s"
    by (auto simp: count_list_0_iff zero_less_iff_neq_zero)
  also have "(\<Sum>k\<in>of_char ` set s. g (count_list ?bytes k)) = (\<Sum>c\<in>set s. g (count_list s c))"
    by (subst sum.reindex) (auto simp: inj_on_def count_list_of_char)
  finally show ?thesis .
qed

definition entropy_weight :: "string \<Rightarrow> nat" where
  "entropy_weight s = (\<Prod>c\<in>set s. count_list s c ^ (2 * count_list s c))"

lemma entropy_weight_pos: "0 < entropy_weight s"
  unfolding entropy_weight_def by (rule prod_pos) (simp add: count_list_0_iff zero_less_iff_neq_zero)

lemma log2_entropy_weight:
  "log 2 (real (entropy_weight s)) = (\<Sum>c\<in>set s. 2 * real (count_list s c) * log 2 (real (count_list s c)))"
proof -
  have "log 2 (real (entropy_weight s)) = (\<Sum>c\<in>set s. log 2 (real (count_list s c) ^ (2 * count_list s c)))"
    unfolding entropy_weight_def of_nat_prod of_nat_power log_def
    by (subst ln_prod) (auto simp: count_list_0_iff sum_divide_distrib)
  also have "\<dots> = (\<Sum>c\<in>set s. 2 * real (count_list s c) * log 2 (real (count_list s c)))"
    by (intro sum.cong) (auto simp: log_nat_power count_list_0_iff zero_less_iff_neq_zero)
  finally show ?thesis .
qed

lemma scaled_entropy:
  assumes "s \<noteq> []"
  shows "2 * real (length s) * shannon_entropy s
           = 2 * real (length s) * log 2 (real (length s)) - log 2 (real (entropy_weight s))"
proof -
  let ?n = "real (length s)" and ?c = "\<lambda>c. real (count_list s c)"
  have n: "0 < ?n" using assms by simp
  have "shannon_entropy s = (\<Sum>c\<in>set s. - (?c c / ?n) * log 2 (?c c / ?n))"
    using assms sum_list_byte_freq [of "\<lambda>c. - (real c / ?n) * log 2 (real c / ?n)" s]
    by (simp add: shannon_entropy_def Let_def)
  then have "2 * ?n * shannon_entropy s = (\<Sum>c\<in>set s. 2 * ?n * (- (?c c / ?n) * log 2 (?c c / ?n)))"
    by (simp add: sum_distrib_left)
  also have "\<dots> = (\<Sum>c\<in>set s. 2 * log 2 ?n * ?c c - 2 * ?c c * log 2 (?c c))"
  proof (rule sum.cong)
    fix x assume "x \<in> set s"
    then have "0 < ?c x" by (simp add: count_list_0_iff zero_less_iff_neq_zero)
    with n show "2 * ?n * (- (?c x / ?n) * log 2 (?c x / ?n)) = 2 * log 2 ?n * ?c x - 2 * ?c x * log 2 (?c x)"
      by (simp add: log_divide field_simps)
  qed simp
  also have "\<dots> = 2 * log 2 ?n * (\<Sum>c\<in>set s. ?c c) - log 2 (real (entropy_weight s))"
    by (simp add: sum_subtractf log2_entropy_weight sum_distrib_left)
  also have "(\<Sum>c\<in>set s. ?c c) = ?n"
    using sum_count_set [of s "set s"] by (simp flip: of_nat_sum)
  finally show ?thesis by (simp add: mult.commute mult.left_commute)
qed

lemma entropy_at_least_iff:
  assumes "s \<noteq> []"
  shows "ENTROPY_THRESHOLD \<le> shannon_entropy s \<longleftrightarrow>
           2 ^ (9 * length s) * entropy_weight s \<le> length s ^ (2 * length s)"
proof -
  let ?n = "real (length s)" and ?w = "real (entropy_weight s)"
  have n: "0 < ?n" and w: "0 < ?w" using assms entropy_weight_pos [of s] by auto
  have "ENTROPY_THRESHOLD \<le> shannon_entropy s \<longleftrightarrow> 9 * ?n \<le> 2 * ?n * shannon_entropy s"
    using n by (simp add: ENTROPY_THRESHOLD_def field_simps)
  also have "\<dots> \<longleftrightarrow> 9 * ?n + log 2 ?w \<le> 2 * ?n * log 2 ?n"
    using scaled_entropy [OF assms] by auto
  also have "9 * ?n + log 2 ?w = log 2 (2 ^ (9 * length s) * ?w)"
    using w by (simp add: log_mult log_nat_power)
  also have "2 * ?n * log 2 ?n = log 2 (?n ^ (2 * length s))"
    using n by (simp add: log_nat_power)
  also have "log 2 (2 ^ (9 * length s) * ?w) \<le> log 2 (?n ^ (2 * length s))
      \<longleftrightarrow> 2 ^ (9 * length s) * ?w \<le> ?n ^ (2 * length s)"
    using n w by (intro log_le_cancel_iff) auto
  also have "\<dots> \<longleftrightarrow> real (2 ^ (9 * length s) * entropy_weight s) \<le> real (length s ^ (2 * length s))"
    by simp
  also have "\<dots> \<longleftrightarrow> 2 ^ (9 * length s) * entropy_weight s \<le> length s ^ (2 * length s)"
    by (rule of_nat_le_iff)
  finally show ?thesis .
qed

section \<open>Every pass replaces pieces by placeholders\<close>

definition placeholders :: "string set" where
  "placeholders = {REDACTED_SECRET, REDACTED_EMAIL, REDACTED_CARD}"

lemmas placeholder_defs = placeholders_def REDACTED_SECRET_def REDACTED_EMAIL_def REDACTED_CARD_def

lemma placeholders_bracketed: "p \<in> placeholders \<Longrightarrow> bracketed p"
  by (auto simp: placeholder_defs bracketed_def)

lemma placeholders_intro [simp]:
  "REDACTED_SECRET \<in> placeholders" "REDACTED_EMAIL \<in> placeholders" "REDACTED_CARD \<in> placeholders"
  by (simp_all add: placeholders_def)

lemma redact_token_cases: "redact_token t = t \<or> redact_token t \<in> placeholders"
  by (simp add: redact_token_def)

lemma join_redacts:
  "redacts placeholders (join '' '' ts) (join '' '' (map redact_token ts))"
proof (induction ts rule: induct_list012)
  case (2 t)
  then show ?case using redact_token_cases [of t] redacts_piece [OF redacts_Nil, of _ placeholders t] by auto
next
  case (3 t u ts)
  have "redacts placeholders t (redact_token t)"
    using redact_token_cases [of t] redacts_piece [OF redacts_Nil, of _ placeholders t] by auto
  moreover have "redacts placeholders ('' '' @ join '' '' (u # ts)) ('' '' @ join '' '' (map redact_token (u # ts)))"
    using 3(2) by (rule redacts_keeps)
  ultimately show ?case by (simp add: redacts_append)
qed (simp add: redacts_Nil)

lemma redact_high_entropy_redacts: "redacts placeholders hay (redact_high_entropy_tokens hay)"
  using join_redacts [of "split_char (CHR '' '') hay"] by (simp add: redact_high_entropy_tokens_def)

context regex_crate
begin

lemma replace_all_redacts:
  "(\<And>m. rep m \<in> placeholders \<or> rep m = m) \<Longrightarrow> redacts placeholders hay (replace_all rx pattern rep hay)"
  using spans by (rule replace_all_redacts_aux)

lemma redact_cards_redacts: "redacts placeholders hay (redact_cards rx pattern hay)"
  unfolding redact_cards_def by (rule replace_all_redacts) simp

end

section \<open>What the patterns of the redactor denote\<close>

definition is_alnum :: "char \<Rightarrow> bool" where
  "is_alnum c \<longleftrightarrow> (let n = of_char c :: nat in 48 \<le> n \<and> n \<le> 57 \<or> 65 \<le> n \<and> n \<le> 90 \<or> 97 \<le> n \<and> n \<le> 122)"

definition is_alpha :: "char \<Rightarrow> bool" where
  "is_alpha c \<longleftrightarrow> (let n = of_char c :: nat in 65 \<le> n \<and> n \<le> 90 \<or> 97 \<le> n \<and> n \<le> 122)"

definition is_space :: "char \<Rightarrow> bool" where
  "is_space c \<longleftrightarrow> (let n = of_char c :: nat in n = 32 \<or> 9 \<le> n \<and> n \<le> 13)"

definition same_letter :: "char \<Rightarrow> char \<Rightarrow> bool" where
  "same_letter l c \<longleftrightarrow> c = l \<or> of_char c + 32 = (of_char l :: nat)"

definition bearer_char :: "char \<Rightarrow> bool" where
  "bearer_char c \<longleftrightarrow> is_alnum c \<or> c \<in> set ''-._~+/''"

definition local_char :: "char \<Rightarrow> bool" where
  "local_char c \<longleftrightarrow> is_alnum c \<or> c \<in> set ''._%+-''"

definition domain_char :: "char \<Rightarrow> bool" where
  "domain_char c \<longleftrightarrow> is_alnum c \<or> c \<in> set ''.-''"

text \<open>The ASCII members of the languages of the key, bearer and e-mail patterns.\<close>

definition is_api_key :: "string \<Rightarrow> bool" where
  "is_api_key w \<longleftrightarrow> (\<exists>k. w = ''sk-'' @ k \<and> 20 \<le> length k \<and> list_all is_alnum k)"

definition is_bearer_token :: "string \<Rightarrow> bool" where
  "is_bearer_token w \<longleftrightarrow>
     (\<exists>b sp tok eq. w = b @ sp @ tok @ eq \<and> list_all2 same_letter ''bearer'' b
        \<and> sp \<noteq> [] \<and> list_all is_space sp \<and> tok \<noteq> [] \<and> list_all bearer_char tok
        \<and> list_all (\<lambda>c. c = CHR ''='') eq)"

definition is_email :: "string \<Rightarrow> bool" where
  "is_email w \<longleftrightarrow>
     (\<exists>l d tld. w = l @ ''@'' @ d @ ''.'' @ tld \<and> l \<noteq> [] \<and> list_all local_char l
        \<and> d \<noteq> [] \<and> list_all domain_char d \<and> 2 \<le> length tld \<and> list_all is_alpha tld)"

lemmas class_defs = is_alnum_def is_alpha_def is_space_def same_letter_def bearer_char_def
  local_char_def domain_char_def Let_def

lemma class_brackets [simp]:
  "\<not> is_alnum (CHR ''['')" "\<not> is_alnum (CHR '']'')"
  "\<not> is_alpha (CHR ''['')" "\<not> is_alpha (CHR '']'')"
  "\<not> is_space (CHR ''['')" "\<not> is_space (CHR '']'')"
  "\<not> bearer_char (CHR ''['')" "\<not> bearer_char (CHR '']'')"
  "\<not> local_char (CHR ''['')" "\<not> local_char (CHR '']'')"
  "\<not> domain_char (CHR ''['')" "\<not> domain_char (CHR '']'')"
  by (simp_all add: class_defs)

lemma bracket_free_append [simp]: "bracket_free (u @ v) \<longleftrightarrow> bracket_free u \<and> bracket_free v"
  by (auto simp: bracket_free_def)

lemma bracket_free_Cons [simp]:
  "bracket_free (c # v) \<longleftrightarrow> c \<noteq> CHR ''['' \<and> c \<noteq> CHR '']'' \<and> bracket_free v"
  by (auto simp: bracket_free_def)

lemma list_all_bracket_free:
  "list_all P w \<Longrightarrow> \<not> P (CHR ''['') \<Longrightarrow> \<not> P (CHR '']'') \<Longrightarrow> bracket_free w"
  by (auto simp: list_all_iff bracket_free_def)

lemmas class_free =
  list_all_bracket_free [OF _ class_brackets(1,2)] list_all_bracket_free [OF _ class_brackets(3,4)]
  list_all_bracket_free [OF _ class_brackets(5,6)] list_all_bracket_free [OF _ class_brackets(7,8)]
  list_all_bracket_free [OF _ class_brackets(9,10)] list_all_bracket_free [OF _ class_brackets(11,12)]

lemma bearer_word_free: "list_all2 same_letter ''bearer'' b \<Longrightarrow> bracket_free b"
  by (auto simp: list_all2_Cons1 bracket_free_def same_letter_def)

lemma is_api_key_facts: "is_api_key w \<Longrightarrow> bracket_free w \<and> w \<noteq> [] \<and> CHR ''-'' \<in> set w"
  by (auto simp: is_api_key_def intro: class_free)

lemma is_bearer_token_facts: "is_bearer_token w \<Longrightarrow> bracket_free w \<and> w \<noteq> [] \<and> (\<exists>c \<in> set w. is_space c)"
  unfolding is_bearer_token_def
  by (fastforce intro: list_all_bracket_free bearer_word_free simp: neq_Nil_conv)

lemma is_email_facts: "is_email w \<Longrightarrow> bracket_free w \<and> w \<noteq> [] \<and> CHR ''@'' \<in> set w"
  by (auto simp: is_email_def intro: class_free)

lemma contains_set: "contains s w \<Longrightarrow> set w \<subseteq> set s"
  by (auto simp: contains_iff)

lemma placeholder_chars:
  "p \<in> placeholders \<Longrightarrow> c \<in> set p \<Longrightarrow> c \<noteq> CHR ''-'' \<and> c \<noteq> CHR ''@'' \<and> \<not> is_space c"
  by (auto simp: placeholder_defs is_space_def)

definition sensitive :: "string \<Rightarrow> bool" where
  "sensitive w \<longleftrightarrow> is_api_key w \<or> is_bearer_token w \<or> is_email w"

lemma sensitive_facts:
  assumes "sensitive w"
  shows "bracket_free w \<and> w \<noteq> []" and "p \<in> placeholders \<Longrightarrow> \<not> contains p w"
  using assms is_api_key_facts [of w] is_bearer_token_facts [of w] is_email_facts [of w]
    placeholder_chars contains_set [of p w]
  unfolding sensitive_def by blast+

lemma sensitive_not_new:
  "sensitive w \<Longrightarrow> redacts placeholders t t' \<Longrightarrow> \<not> contains t w \<Longrightarrow> \<not> contains t' w"
  using redacts_no_new [of placeholders t t' w] placeholders_bracketed sensitive_facts by blast

section \<open>The five passes without the fast path\<close>

lemma sanitize_str_passes:
  "sanitize_str rx pii_redactor_new hay =
     (let out = (if is_match rx bearer_pattern hay
                 then replace_all rx bearer_pattern (\<lambda>_. REDACTED_SECRET) hay else hay);
          out = (if is_match rx api_key_pattern hay
                 then replace_all rx api_key_pattern (\<lambda>_. REDACTED_SECRET) out else out);
          out = (if is_match rx email_pattern hay
                 then replace_all rx email_pattern (\<lambda>_. REDACTED_EMAIL) out else out);
          out = (if is_match rx card_pattern hay then redact_cards rx card_pattern out else out);
          out = (if contains_high_entropy_token hay then redact_high_entropy_tokens out else out)
      in (out, out \<noteq> hay))"
  by (simp add: sanitize_str_def pii_redactor_new_def Let_def)

lemma sanitize_str_changed: "snd (sanitize_str rx self hay) \<longleftrightarrow> fst (sanitize_str rx self hay) \<noteq> hay"
  by (simp add: sanitize_str_def Let_def)

section \<open>No key, token or address survives\<close>

text \<open>
  What the redactor relies on from the \<open>regex\<close> crate: each of the three patterns finds the
  language that the documented syntax gives it, and the matches of the card pattern are not empty.
\<close>

locale pii_regexes =
  key: regex_finds rx api_key_pattern is_api_key +
  bearer: regex_finds rx bearer_pattern is_bearer_token +
  email: regex_finds rx email_pattern is_email +
  card: regex_crate rx card_pattern
  for rx
begin

abbreviation pass :: "bool \<Rightarrow> string \<Rightarrow> string \<Rightarrow> string \<Rightarrow> string" where
  "pass hit pattern p hay \<equiv> (if hit then replace_all rx pattern (\<lambda>_. p) hay else hay)"

lemma pass_redacts:
  assumes "p \<in> placeholders"
  shows "redacts placeholders hay (pass hit api_key_pattern p hay)"
    and "redacts placeholders hay (pass hit bearer_pattern p hay)"
    and "redacts placeholders hay (pass hit email_pattern p hay)"
  using assms by (simp_all add: key.replace_all_redacts bearer.replace_all_redacts email.replace_all_redacts)

lemma removes:
  assumes "regex_finds rx pattern member" and "\<And>w. member w \<Longrightarrow> sensitive w" and "p \<in> placeholders"
    and w: "member w" and "\<not> contains hay w \<Longrightarrow> \<not> contains t w"
  shows "\<not> contains (pass (is_match rx pattern hay) pattern p t) w"
proof (cases "is_match rx pattern hay")
  case True
  have "\<not> contains (replace_all rx pattern (\<lambda>_. p) t) w"
    using assms(2,3) sensitive_facts placeholders_bracketed
    by (intro regex_finds.replace_all_removes [OF assms(1) _ _ w]) blast+
  with True show ?thesis by simp
next
  case False
  then have "\<not> contains hay w"
    using regex_finds.no_match_no_member [OF assms(1) False _ w] assms(2) sensitive_facts by blast
  with False assms(5) show ?thesis by simp
qed

lemma no_survivor:
  assumes w: "sensitive w"
  shows "\<not> contains (fst (sanitize_str rx pii_redactor_new hay)) w"
proof -
  define out1 where "out1 = pass (is_match rx bearer_pattern hay) bearer_pattern REDACTED_SECRET hay"
  define out2 where "out2 = pass (is_match rx api_key_pattern hay) api_key_pattern REDACTED_SECRET out1"
  define out3 where "out3 = pass (is_match rx email_pattern hay) email_pattern REDACTED_EMAIL out2"
  define out4 where "out4 = (if is_match rx card_pattern hay then redact_cards rx card_pattern out3 else out3)"
  define out5 where "out5 = (if contains_high_entropy_token hay then redact_high_entropy_tokens out4 else out4)"
  have out: "fst (sanitize_str rx pii_redactor_new hay) = out5"
    by (simp only: sanitize_str_passes out1_def out2_def out3_def out4_def out5_def Let_def fst_conv)
  note step = sensitive_not_new [OF w]
  have s1: "\<not> contains hay w \<Longrightarrow> \<not> contains out1 w" unfolding out1_def by (rule step) (simp_all add: pass_redacts)
  have s2: "\<not> contains out1 w \<Longrightarrow> \<not> contains out2 w" unfolding out2_def by (rule step) (simp_all add: pass_redacts)
  have s3: "\<not> contains out2 w \<Longrightarrow> \<not> contains out3 w" unfolding out3_def by (rule step) (simp_all add: pass_redacts)
  have s4: "\<not> contains out3 w \<Longrightarrow> \<not> contains out5 w"
    using step [of out3 out4] step [of out4 out5]
    by (simp add: out4_def out5_def card.redact_cards_redacts redact_high_entropy_redacts)
  from w consider "is_bearer_token w" | "is_api_key w" | "is_email w" by (auto simp: sensitive_def)
  then show ?thesis
  proof cases
    case 1
    then have "\<not> contains out1 w" unfolding out1_def
      by (rule removes [OF bearer.regex_finds_axioms, rotated 2]) (auto simp: sensitive_def)
    with s2 s3 s4 out show ?thesis by simp
  next
    case 2
    then have "\<not> contains out2 w" unfolding out2_def
      by (rule removes [OF key.regex_finds_axioms, rotated 2]) (auto simp: sensitive_def s1)
    with s3 s4 out show ?thesis by simp
  next
    case 3
    then have "\<not> contains out3 w" unfolding out3_def
      by (rule removes [OF email.regex_finds_axioms, rotated 2]) (auto simp: sensitive_def s1 s2)
    with s4 out show ?thesis by simp
  qed
qed

end

section \<open>The reference engine on the four patterns\<close>

definition api_key_rx :: rx where
  "api_key_rx = Cat (Cls (\<lambda>c. c = CHR ''s'')) (Cat (Cls (\<lambda>c. c = CHR ''k'')) (Cat (Cls (\<lambda>c. c = CHR ''-''))
     (times 20 (Cls is_alnum) (StarCls is_alnum))))"

definition bearer_rx :: rx where
  "bearer_rx = foldr (\<lambda>l. Cat (Cls (same_letter l))) ''bearer''
     (Cat (Cls is_space) (Cat (StarCls is_space) (Cat (Cls bearer_char) (Cat (StarCls bearer_char)
       (StarCls (\<lambda>c. c = CHR ''=''))))))"

definition email_rx :: rx where
  "email_rx = Cat (Cls local_char) (Cat (StarCls local_char) (Cat (Cls (\<lambda>c. c = CHR ''@''))
     (Cat (Cls domain_char) (Cat (StarCls domain_char) (Cat (Cls (\<lambda>c. c = CHR ''.''))
       (times 2 (Cls is_alpha) (StarCls is_alpha)))))))"

definition card_rx :: rx where
  "card_rx = (let unit = Cat (Cls is_ascii_digit) (Opt (Cls (\<lambda>c. c = CHR '' '' \<or> c = CHR ''-'')))
     in Cat WordB (times 12 unit (Cat (upto_times 6 unit) (Cat (Cls is_ascii_digit) WordB))))"

definition pii_ast :: "string \<Rightarrow> rx" where
  "pii_ast p = (if p = api_key_pattern then api_key_rx else if p = bearer_pattern then bearer_rx
     else if p = email_pattern then email_rx else if p = card_pattern then card_rx else Eps)"

abbreviation reference_rx :: regex_lib where
  "reference_rx \<equiv> engine pii_ast"

lemma pattern_distinct [simp]:
  "bearer_pattern \<noteq> api_key_pattern" "email_pattern \<noteq> api_key_pattern" "email_pattern \<noteq> bearer_pattern"
  "card_pattern \<noteq> api_key_pattern" "card_pattern \<noteq> bearer_pattern" "card_pattern \<noteq> email_pattern"
  by (simp_all add: api_key_pattern_def bearer_pattern_def email_pattern_def card_pattern_def backslash_def)

lemma pii_ast_simps [simp]:
  "pii_ast api_key_pattern = api_key_rx" "pii_ast bearer_pattern = bearer_rx"
  "pii_ast email_pattern = email_rx" "pii_ast card_pattern = card_rx"
  by (simp_all add: pii_ast_def)

lemma lang_Cat: "u \<in> lang r1 \<Longrightarrow> v \<in> lang r2 \<Longrightarrow> u @ v \<in> lang (Cat r1 r2)"
  unfolding lang.simps by blast

lemma lang_Cls_Cat: "P c \<Longrightarrow> v \<in> lang r \<Longrightarrow> c # v \<in> lang (Cat (Cls P) r)"
  using lang_Cat [of "[c]" "Cls P" v r] by simp

lemma lang_Star_Cat: "list_all P u \<Longrightarrow> v \<in> lang r \<Longrightarrow> u @ v \<in> lang (Cat (StarCls P) r)"
  by (rule lang_Cat) (simp_all add: list_all_iff)

lemma lang_times:
  "k = u @ v \<Longrightarrow> length u = n \<Longrightarrow> list_all P u \<Longrightarrow> v \<in> lang r \<Longrightarrow> k \<in> lang (times n (Cls P) r)"
proof (induction n arbitrary: k u)
  case 0
  then show ?case by simp
next
  case (Suc n)
  then obtain c u' where u: "u = c # u'" by (cases u) auto
  with Suc have "u' @ v \<in> lang (times n (Cls P) r)" by simp
  then have "c # u' @ v \<in> lang (Cat (Cls P) (times n (Cls P) r))"
    using Suc.prems(3) u by (intro lang_Cls_Cat) simp_all
  with Suc.prems(1) u show ?case by simp
qed

lemma lang_at_least:
  assumes "n \<le> length k" and "list_all P k"
  shows "k \<in> lang (times n (Cls P) (StarCls P))"
  using assms by (intro lang_times [of k "take n k" "drop n k"])
    (auto simp: list_all_iff dest: in_set_takeD in_set_dropD)

lemma lang_plus_Cat:
  "u \<noteq> [] \<Longrightarrow> list_all P u \<Longrightarrow> v \<in> lang r \<Longrightarrow> u @ v \<in> lang (Cat (Cls P) (Cat (StarCls P) r))"
  by (cases u) (auto simp del: lang.simps intro!: lang_Cls_Cat lang_Star_Cat)

lemma wb_free_times [simp]: "wb_free (times n r k) \<longleftrightarrow> (n = 0 \<or> wb_free r) \<and> wb_free k"
  by (induction n) auto

lemma api_key_lang: "is_api_key w \<Longrightarrow> w \<in> lang api_key_rx"
  unfolding is_api_key_def api_key_rx_def
  by (auto simp del: lang.simps times.simps intro!: lang_Cls_Cat lang_at_least)

lemma bearer_lang: "is_bearer_token w \<Longrightarrow> w \<in> lang bearer_rx"
  unfolding is_bearer_token_def bearer_rx_def
  by (auto simp del: lang.simps simp: list_all2_Cons1 intro!: lang_Cls_Cat lang_plus_Cat)
    (auto simp: list_all_iff)

lemma email_lang: "is_email w \<Longrightarrow> w \<in> lang email_rx"
  unfolding is_email_def email_rx_def
  by (auto simp del: lang.simps times.simps intro!: lang_Cls_Cat lang_plus_Cat lang_at_least)

interpretation reference: pii_regexes reference_rx
proof -
  have "regex_finds reference_rx api_key_pattern is_api_key"
    by (rule engine_finds) (simp_all add: api_key_lang, simp add: api_key_rx_def)
  moreover have "regex_finds reference_rx bearer_pattern is_bearer_token"
    by (rule engine_finds) (simp_all add: bearer_lang, simp add: bearer_rx_def)
  moreover have "regex_finds reference_rx email_pattern is_email"
    by (rule engine_finds) (simp_all add: email_lang, simp add: email_rx_def)
  ultimately show "pii_regexes reference_rx" by (simp add: pii_regexes_def engine.regex_crate_axioms)
qed

text \<open>Characters are constructed from their bits: the classes as evaluated.\<close>

lemma is_ascii_digit_bits [code]:
  "is_ascii_digit (Char b0 b1 b2 b3 b4 b5 b6 b7) \<longleftrightarrow> \<not> b7 \<and> \<not> b6 \<and> b5 \<and> b4 \<and> \<not> (b3 \<and> (b2 \<or> b1))"
  by (cases b0; cases b1; cases b2; cases b3; cases b4; cases b5; cases b6; cases b7; simp add: is_ascii_digit_def)

lemma is_alpha_bits [code]:
  "is_alpha (Char b0 b1 b2 b3 b4 b5 b6 b7) \<longleftrightarrow>
     \<not> b7 \<and> b6 \<and> (b0 \<or> b1 \<or> b2 \<or> b3 \<or> b4) \<and> \<not> (b4 \<and> b3 \<and> (b2 \<or> b1 \<and> b0))"
  by (cases b0; cases b1; cases b2; cases b3; cases b4; cases b5; cases b6; cases b7; simp add: is_alpha_def)

lemma is_alnum_code [code]: "is_alnum c \<longleftrightarrow> is_alpha c \<or> is_ascii_digit c"
  by (auto simp: is_alnum_def is_alpha_def is_ascii_digit_def Let_def)

lemma is_space_bits [code]:
  "is_space (Char b0 b1 b2 b3 b4 b5 b6 b7) \<longleftrightarrow>
     \<not> b7 \<and> \<not> b6 \<and> \<not> b4 \<and> (b5 \<and> \<not> b3 \<and> \<not> b2 \<and> \<not> b1 \<and> \<not> b0
       \<or> \<not> b5 \<and> b3 \<and> (\<not> b2 \<and> (b1 \<or> b0) \<or> b2 \<and> \<not> b1))"
  by (cases b0; cases b1; cases b2; cases b3; cases b4; cases b5; cases b6; cases b7; simp add: is_space_def)

lemma high_entropy_code [code]:
  "high_entropy tok \<longleftrightarrow> ENTROPY_MIN_LEN \<le> length tok \<and>
     (2 :: int) ^ (9 * length tok) * prod_list (map (\<lambda>c. int (count_list tok c) ^ (2 * count_list tok c)) (remdups tok))
       \<le> int (length tok) ^ (2 * length tok)"
proof (cases "tok = []")
  case True
  then show ?thesis by (simp add: high_entropy_def ENTROPY_MIN_LEN_def)
next
  case False
  have "int (entropy_weight tok)
      = prod_list (map (\<lambda>c. int (count_list tok c) ^ (2 * count_list tok c)) (remdups tok))"
    by (simp add: entropy_weight_def prod.distinct_set_conv_list [symmetric] flip: of_nat_power)
  moreover have "2 ^ (9 * length tok) * entropy_weight tok \<le> length tok ^ (2 * length tok) \<longleftrightarrow>
      int (2 ^ (9 * length tok) * entropy_weight tok) \<le> int (length tok ^ (2 * length tok))"
    by (rule zle_int [symmetric])
  ultimately show ?thesis using entropy_at_least_iff [OF False] by (simp add: high_entropy_def)
qed

section \<open>Sanitising JSON\<close>

lemma sanitize_json_leaves:
  "leaves (fst (sanitize_json rx self v)) = map (\<lambda>s. fst (sanitize_str rx self s)) (leaves v)"
proof (induction rx self v rule: sanitize_json.induct)
  case (1 rx self s)
  then show ?case using sanitize_str_changed [of rx self s] by (auto split: prod.splits)
next
  case (2 rx self kvs)
  then have "map (\<lambda>kv. leaves (fst (sanitize_json rx self (snd kv)))) kvs
      = map (\<lambda>kv. map (\<lambda>s. fst (sanitize_str rx self s)) (leaves (snd kv))) kvs"
    by (intro map_cong) fastforce+
  then show ?case by (simp add: map_concat comp_def case_prod_unfold cong: map_cong)
next
  case (3 rx self vs)
  then have "map (\<lambda>v. leaves (fst (sanitize_json rx self v))) vs
      = map (\<lambda>v. map (\<lambda>s. fst (sanitize_str rx self s)) (leaves v)) vs"
    by (intro map_cong) auto
  then show ?case by (simp add: map_concat comp_def cong: map_cong)
qed auto

lemma sanitize_json_shape: "shape (fst (sanitize_json rx self v)) = shape v"
  by (induction rx self v rule: sanitize_json.induct) (auto split: prod.splits)

lemma sanitize_json_flag: "snd (sanitize_json rx self v) \<longleftrightarrow> fst (sanitize_json rx self v) \<noteq> v"
proof (induction rx self v rule: sanitize_json.induct)
  case (1 rx self s)
  then show ?case using sanitize_str_changed [of rx self s] by (auto split: prod.splits)
next
  case (2 rx self kvs)
  then show ?case by (induction kvs) auto
next
  case (3 rx self vs)
  then show ?case by (induction vs) auto
qed auto

lemma sanitize_json_canonical: "canonical v \<Longrightarrow> canonical (fst (sanitize_json rx self v))"
proof (induction rx self v rule: sanitize_json.induct)
  case (2 rx self kvs)
  have "map fst (map (\<lambda>(k, v). (k, fst (sanitize_json rx self v))) kvs) = map fst kvs" by (induction kvs) auto
  with 2 show ?case by (auto simp: comp_def case_prod_unfold)
qed (auto split: prod.splits)

section \<open>Luhn check\<close>

lemma luhn_sum_split:
  "luhn_sum (xs @ d # ys) =
     sum_list (map (\<lambda>(i, d). luhn_digit i d) (enumerate 0 (rev ys)))
     + luhn_digit (length ys) d
     + sum_list (map (\<lambda>(i, d). luhn_digit i d) (enumerate (Suc (length ys)) (rev xs)))"
  by (simp add: luhn_sum_def enumerate_append_eq)

lemma luhn_digit_bound: "d \<le> 9 \<Longrightarrow> luhn_digit i d \<le> 9"
  by (auto simp: luhn_digit_def Let_def)

lemma luhn_digit_inj: "d \<le> 9 \<Longrightarrow> d' \<le> 9 \<Longrightarrow> luhn_digit i d = luhn_digit i d' \<Longrightarrow> d = d'"
  by (simp add: luhn_digit_def Let_def split: if_splits) presburger+

lemma mod_10_cancel: "(a + x) mod 10 = (a + y) mod 10 \<Longrightarrow> x \<le> 9 \<Longrightarrow> y \<le> 9 \<Longrightarrow> x = y" for a x y :: nat
proof -
  assume eq: "(a + x) mod 10 = (a + y) mod 10" and "x \<le> 9" and "y \<le> 9"
  from eq have "(int a + int x) mod 10 = (int a + int y) mod 10" by (metis of_nat_add of_nat_numeral zmod_int)
  then have "(int a + int x - int a) mod 10 = (int a + int y - int a) mod 10" by (rule mod_diff_cong) simp
  with \<open>x \<le> 9\<close> \<open>y \<le> 9\<close> show "x = y" by simp
qed

lemma luhn_sum_change:
  assumes "d \<le> 9" and "d' \<le> 9" and "d \<noteq> d'"
  shows "luhn_sum (xs @ d # ys) mod 10 \<noteq> luhn_sum (xs @ d' # ys) mod 10"
proof
  let ?l = "luhn_digit (length ys)"
  assume eq: "luhn_sum (xs @ d # ys) mod 10 = luhn_sum (xs @ d' # ys) mod 10"
  obtain a where "luhn_sum (xs @ e # ys) = a + ?l e" for e
    by (simp add: luhn_sum_split)
  with eq have "(a + ?l d) mod 10 = (a + ?l d') mod 10" by simp
  moreover have "?l d \<le> 9" and "?l d' \<le> 9" using assms luhn_digit_bound by simp_all
  ultimately have "?l d = ?l d'" by (rule mod_10_cancel)
  with assms luhn_digit_inj show False by blast
qed

lemma digit_values_update:
  assumes "i < length s" and "is_ascii_digit (s ! i)" and "is_ascii_digit c"
  shows "\<exists>xs ys. digit_values s = xs @ (of_char (s ! i) - 48) # ys
           \<and> digit_values (s[i := c]) = xs @ (of_char c - 48) # ys"
proof -
  have "s = take i s @ s ! i # drop (Suc i) s" using assms(1) by (rule id_take_nth_drop)
  then have "digit_values s = digit_values (take i s) @ (of_char (s ! i) - 48) # digit_values (drop (Suc i) s)"
    using assms(2) by (metis (mono_tags, lifting) digit_values_def filter.simps(2) filter_append list.simps(9) map_append)
  moreover have "digit_values (s[i := c])
      = digit_values (take i s) @ (of_char c - 48) # digit_values (drop (Suc i) s)"
    using assms(1,3) by (simp add: upd_conv_take_nth_drop digit_values_def)
  ultimately show ?thesis by blast
qed

section \<open>Cards and tokens\<close>

lemma slice_append:
  assumes "a \<le> b" and "b \<le> c"
  shows "slice a b s @ slice b c s = slice a c s"
proof -
  have "c - a = (b - a) + (c - b)" using assms by simp
  then show ?thesis using assms(1) unfolding slice_def by (simp only: take_add) simp
qed

lemma spans_from_filter: "spans_from lo n ms \<Longrightarrow> spans_from lo n (filter Q ms)"
proof (induction ms arbitrary: lo)
  case (Cons ab ms)
  obtain a b where ab: "ab = (a, b)" by fastforce
  with Cons have "spans_from b n (filter Q ms)" and "lo \<le> a" "a < b" by auto
  with ab show ?case using spans_from_weaken [of b n "filter Q ms" lo] by simp
qed simp

text \<open>Leaving a match as it is has the effect of not reporting it.\<close>

lemma replace_matches_filter:
  "spans_from lo (length hay) ms \<Longrightarrow>
   replace_matches hay (\<lambda>m. if P m then p else m) lo ms
     = replace_matches hay (\<lambda>_. p) lo (filter (\<lambda>(a, b). P (slice a b hay)) ms)"
proof (induction ms arbitrary: lo)
  case Nil
  then show ?case by simp
next
  case (Cons ab ms)
  obtain a b where ab: "ab = (a, b)" by fastforce
  with Cons.prems have sp: "lo \<le> a" "a < b" "spans_from b (length hay) ms" by auto
  then have b: "b \<le> length hay" by (simp add: spans_from_le)
  show ?case
  proof (cases "P (slice a b hay)")
    case True
    with Cons.IH [OF sp(3)] ab show ?thesis by simp
  next
    case False
    have "slice lo a hay @ slice a b hay @ replace_matches hay (\<lambda>_. p) b ms'
        = replace_matches hay (\<lambda>_. p) lo ms'" if "spans_from b (length hay) ms'" for ms'
    proof (cases ms')
      case Nil
      then show ?thesis using sp b slice_split [of lo a hay] slice_split [of a b hay] by simp
    next
      case (Cons cd ms'')
      obtain c d where cd: "cd = (c, d)" by fastforce
      with Cons that have "b \<le> c" by simp
      then have "slice lo c hay = slice lo a hay @ slice a b hay @ slice b c hay"
        using sp by (simp add: slice_append)
      with Cons cd show ?thesis by simp
    qed
    moreover have "spans_from b (length hay) (filter Q ms)" for Q
      using sp(3) by (rule spans_from_filter)
    ultimately show ?thesis using Cons.IH [OF sp(3)] ab False by simp
  qed
qed

lemma redact_token_no_space: "CHR '' '' \<notin> set t \<Longrightarrow> CHR '' '' \<notin> set (redact_token t)"
  by (simp add: redact_token_def REDACTED_SECRET_def)

lemma split_redacted:
  "split_char (CHR '' '') (redact_high_entropy_tokens hay) = map redact_token (split_char (CHR '' '') hay)"
  unfolding redact_high_entropy_tokens_def
  by (rule split_char_join) (auto dest: redact_token_no_space [OF split_char_no_sep])

text \<open>The pass changes a text exactly when it replaces one of its pieces.\<close>

lemma redact_token_changes:
  "redact_token t \<noteq> t \<longleftrightarrow> high_entropy t \<and> \<not> (hd t = CHR ''['' \<and> last t = CHR '']'')"
proof -
  have "\<not> high_entropy REDACTED_SECRET" and "\<not> high_entropy []"
    by (simp_all add: high_entropy_def ENTROPY_MIN_LEN_def REDACTED_SECRET_def)
  then show ?thesis by (auto simp: redact_token_def)
qed

lemma redact_tokens_changes:
  "redact_high_entropy_tokens hay \<noteq> hay \<longleftrightarrow>
     (\<exists>t \<in> set (split_char (CHR '' '') hay). high_entropy t \<and> \<not> (hd t = CHR ''['' \<and> last t = CHR '']''))"
proof -
  have "redact_high_entropy_tokens hay = hay \<longleftrightarrow> map redact_token (split_char (CHR '' '') hay) = split_char (CHR '' '') hay"
    using split_redacted [of hay] by (auto simp: redact_high_entropy_tokens_def)
  also have "\<dots> \<longleftrightarrow> (\<forall>t \<in> set (split_char (CHR '' '') hay). redact_token t = t)"
    using map_eq_conv [of redact_token "split_char (CHR '' '') hay" "\<lambda>t. t"] by simp
  finally show ?thesis using redact_token_changes by blast
qed

end
