(* ===== verification/Redactor_Properties.thy ===== *)
theory Redactor_Properties
  imports Redactor
begin

text \<open>
  The properties of the redactor (\<open>safegate-core/src/redactor.rs\<close>), over the model and the
  lemmas of the theory \<open>Redactor\<close>; the witnesses evaluate the reference regex engine.
\<close>

section \<open>Properties\<close>

text \<open>
  C16. No survivor: whatever the text, what \<open>sanitize_str\<close> returns contains no API key
  (\<open>sk-\<close> and at least twenty letters or digits), no bearer token and no e-mail address,
  for any regex library that finds these three languages, although the later passes run on
  the output of the earlier ones and the decision to run a pass is taken on the original.
\<close>

theorem sanitize_str_no_survivor:
  assumes "pii_regexes rx" and "is_api_key w \<or> is_bearer_token w \<or> is_email w"
  shows "\<not> contains (fst (sanitize_str rx pii_redactor_new hay)) w"
  using pii_regexes.no_survivor [OF assms(1)] assms(2) by (simp add: sensitive_def)

theorem sanitize_str_no_survivor_witness:
  "\<not> contains (fst (sanitize_str reference_rx pii_redactor_new ''mail bob@corp.io now'')) ''bob@corp.io''"
proof (rule sanitize_str_no_survivor)
  show "pii_regexes reference_rx" by (rule reference.pii_regexes_axioms)
  have "is_email ''bob@corp.io''"
    unfolding is_email_def
    by (intro exI [of _ "''bob''"] exI [of _ "''corp''"] exI [of _ "''io''"]) (simp add: class_defs)
  then show "is_api_key ''bob@corp.io'' \<or> is_bearer_token ''bob@corp.io'' \<or> is_email ''bob@corp.io''" by simp
qed

text \<open>
  C17. Sanitising JSON: names, nesting, order and every value that is not a string stay as
  they are, each string leaf becomes the sanitised string, and the result flag is true
  exactly when the value changed.
\<close>

theorem sanitize_json_correct:
  "shape (fst (sanitize_json rx self v)) = shape v
   \<and> leaves (fst (sanitize_json rx self v)) = map (\<lambda>s. fst (sanitize_str rx self s)) (leaves v)
   \<and> (snd (sanitize_json rx self v) \<longleftrightarrow> fst (sanitize_json rx self v) \<noteq> v)"
  by (simp add: sanitize_json_shape sanitize_json_leaves sanitize_json_flag)

text \<open>
  Clean text is left alone: when no pattern matches and no white-space delimited token
  is long and of high entropy, the text is returned as it is with the flag false.
\<close>

theorem sanitize_str_clean:
  assumes "\<not> is_match rx api_key_pattern hay" and "\<not> is_match rx bearer_pattern hay"
    and "\<not> is_match rx email_pattern hay" and "\<not> is_match rx card_pattern hay"
    and "\<And>tok. tok \<in> set (split_whitespace hay) \<Longrightarrow>
      length tok < ENTROPY_MIN_LEN \<or> shannon_entropy tok < ENTROPY_THRESHOLD"
  shows "sanitize_str rx pii_redactor_new hay = (hay, False)"
proof -
  have "\<not> contains_high_entropy_token hay"
    using assms(5) by (force simp: contains_high_entropy_token_def list_ex_iff high_entropy_def)
  with assms(1-4) show ?thesis by (simp add: sanitize_str_def pii_redactor_new_def Let_def)
qed

theorem sanitize_str_clean_witness:
  "sanitize_str reference_rx pii_redactor_new ''safe text'' = (''safe text'', False)"
proof (rule sanitize_str_clean)
  show "\<not> is_match reference_rx api_key_pattern ''safe text''" by code_simp
  show "\<not> is_match reference_rx bearer_pattern ''safe text''" by code_simp
  show "\<not> is_match reference_rx email_pattern ''safe text''" by code_simp
  show "\<not> is_match reference_rx card_pattern ''safe text''" by code_simp
  have "split_whitespace ''safe text'' = [''safe'', ''text'']" by code_simp
  then show "length tok < ENTROPY_MIN_LEN \<or> shannon_entropy tok < ENTROPY_THRESHOLD"
    if "tok \<in> set (split_whitespace ''safe text'')" for tok
    using that by (auto simp: ENTROPY_MIN_LEN_def)
qed

text \<open>
  C29. The Luhn check detects every single-digit error: replacing one digit of a text that
  passes by a different digit gives a text that fails.
\<close>

theorem luhn_detects_single_digit_error:
  assumes "luhn_check s" and "i < length s" and "is_ascii_digit (s ! i)" and "is_ascii_digit c" and "c \<noteq> s ! i"
  shows "\<not> luhn_check (s[i := c])"
proof -
  obtain xs ys where ds: "digit_values s = xs @ (of_char (s ! i) - 48) # ys"
    and ds': "digit_values (s[i := c]) = xs @ (of_char c - 48) # ys"
    using digit_values_update [OF assms(2-4)] by blast
  have "(of_char c :: nat) \<noteq> of_char (s ! i)" using assms(5) by simp
  then have "luhn_sum (xs @ (of_char (s ! i) - 48) # ys) mod 10 \<noteq> luhn_sum (xs @ (of_char c - 48) # ys) mod 10"
    using assms(3,4) eq_diff_iff [of 48 "of_char (s ! i)" "of_char c"]
    by (intro luhn_sum_change) (auto simp: is_ascii_digit_def)
  with assms(1) show ?thesis by (auto simp: luhn_check_def Let_def ds ds' split: if_splits)
qed

theorem luhn_detects_single_digit_error_witness:
  "\<not> luhn_check (''4111111111111111''[3 := CHR ''7''])"
proof (rule luhn_detects_single_digit_error)
  show "luhn_check ''4111111111111111''" by code_simp
qed (simp_all add: is_ascii_digit_def)

text \<open>
  \<open>redact_cards\<close> replaces the candidates that pass the Luhn check and leaves every other byte of
  the text, failing candidates included, in place.
\<close>

lemma redact_cards_matches:
  assumes "regex_crate rx card_re"
  shows "redact_cards rx card_re hay =
    replace_matches hay (\<lambda>_. REDACTED_CARD) 0
      (filter (\<lambda>(a, b). luhn_check (slice a b hay)) (find_iter rx card_re hay))"
  unfolding redact_cards_def replace_all_def
  by (rule replace_matches_filter) (rule regex_crate.spans [OF assms])

text \<open>
  The entropy pass leaves a long high-entropy token only where it was bracketed already:
  every space-delimited token of the output that is long and of high entropy is a token of
  the input that starts with an opening and ends with a closing bracket.
\<close>

theorem entropy_pass_survivors:
  assumes "tok \<in> set (split_char (CHR '' '') (redact_high_entropy_tokens hay))" and "high_entropy tok"
  shows "tok \<in> set (split_char (CHR '' '') hay) \<and> hd tok = CHR ''['' \<and> last tok = CHR '']''"
proof -
  from assms(1) obtain t where t: "t \<in> set (split_char (CHR '' '') hay)" "tok = redact_token t"
    by (auto simp: split_redacted)
  have "\<not> high_entropy REDACTED_SECRET"
    by (simp add: high_entropy_def ENTROPY_MIN_LEN_def REDACTED_SECRET_def)
  with t assms(2) show ?thesis by (auto simp: redact_token_def split: if_splits)
qed

theorem entropy_pass_survivors_witness:
  "''[aB3kP9mXqL2rTvWn7cYh4oJg8sZu1fEd]''
     \<in> set (split_char (CHR '' '') ''key [aB3kP9mXqL2rTvWn7cYh4oJg8sZu1fEd]'')"
proof -
  have "''[aB3kP9mXqL2rTvWn7cYh4oJg8sZu1fEd]''
      \<in> set (split_char (CHR '' '') (redact_high_entropy_tokens ''key [aB3kP9mXqL2rTvWn7cYh4oJg8sZu1fEd]''))"
    by code_simp
  moreover have "high_entropy ''[aB3kP9mXqL2rTvWn7cYh4oJg8sZu1fEd]''" by code_simp
  ultimately show ?thesis using entropy_pass_survivors by blast
qed

text \<open>
  C38. Detection and replacement of high-entropy tokens disagree on what a token is: detection
  splits at any white space, replacement at spaces only and leaves bracketed pieces. A text in
  which no pattern matches is changed exactly when one of its white-space delimited tokens and
  also one of its space-delimited pieces, not in brackets, is long and of high entropy; else
  it is returned as it is, with the flag false. So a secret that is detected stays when the
  line break before it joins it to text that lowers the entropy.
\<close>

theorem high_entropy_redacted_iff:
  assumes "\<not> is_match rx api_key_pattern hay" and "\<not> is_match rx bearer_pattern hay"
    and "\<not> is_match rx email_pattern hay" and "\<not> is_match rx card_pattern hay"
  shows "if list_ex high_entropy (split_whitespace hay)
      \<and> (\<exists>t \<in> set (split_char (CHR '' '') hay). high_entropy t \<and> \<not> (hd t = CHR ''['' \<and> last t = CHR '']''))
    then sanitize_str rx pii_redactor_new hay = (redact_high_entropy_tokens hay, True)
    else sanitize_str rx pii_redactor_new hay = (hay, False)"
proof -
  have "sanitize_str rx pii_redactor_new hay
      = (let out = if contains_high_entropy_token hay then redact_high_entropy_tokens hay else hay in (out, out \<noteq> hay))"
    using assms by (simp add: sanitize_str_passes)
  then show ?thesis using redact_tokens_changes [of hay] by (auto simp: contains_high_entropy_token_def Let_def)
qed

theorem high_entropy_redacted_iff_witness:
  "let hay = ''aaaaa'' @ [CHR 0x0A] @ ''aB3kP9mXqL2rTvWn7cYh4oJ''
   in high_entropy ''aB3kP9mXqL2rTvWn7cYh4oJ'' \<and> ''aB3kP9mXqL2rTvWn7cYh4oJ'' \<in> set (split_whitespace hay)
    \<and> sanitize_str reference_rx pii_redactor_new hay = (hay, False)"
proof -
  let ?hay = "''aaaaa'' @ [CHR 0x0A] @ ''aB3kP9mXqL2rTvWn7cYh4oJ''"
  have "\<not> is_match reference_rx api_key_pattern ?hay" by code_simp
  moreover have "\<not> is_match reference_rx bearer_pattern ?hay" by code_simp
  moreover have "\<not> is_match reference_rx email_pattern ?hay" by code_simp
  moreover have "\<not> is_match reference_rx card_pattern ?hay" by code_simp
  moreover have "split_char (CHR '' '') ?hay = [?hay]" by code_simp
  moreover have "\<not> high_entropy ?hay" by code_simp
  ultimately have "sanitize_str reference_rx pii_redactor_new ?hay = (?hay, False)"
    using high_entropy_redacted_iff [of reference_rx ?hay] by simp
  moreover have "high_entropy ''aB3kP9mXqL2rTvWn7cYh4oJ''" by code_simp
  moreover have "''aB3kP9mXqL2rTvWn7cYh4oJ'' \<in> set (split_whitespace ?hay)" by code_simp
  ultimately show ?thesis by (simp add: Let_def)
qed

text \<open>
  Sanitising is not idempotent: the card number that follows an address without a word
  boundary is no card candidate at first, is left in the output of the first run and is
  found by a second run.
\<close>

theorem sanitize_str_not_idempotent:
  "fst (sanitize_str reference_rx pii_redactor_new ''a@b.co4111111111111111'')
     = ''[REDACTED_EMAIL]4111111111111111''
   \<and> fst (sanitize_str reference_rx pii_redactor_new ''[REDACTED_EMAIL]4111111111111111'')
     = ''[REDACTED_EMAIL][REDACTED_CARD]''"
  by code_simp

end
