(* ===== verification/Identity.thy ===== *)
theory Identity
  imports Core_Types
begin

text \<open>
  \<open>safegate-proxy/src/identity.rs\<close>: the agent context read from the HTTP headers. A
  \<open>HeaderMap\<close> is the list of its name/value pairs, names in lower case as the \<open>http\<close> crate
  keeps them, values as bytes; \<open>get\<close> is the first value of a name. \<open>HeaderValue::to_str\<close> is a
  parameter, with the crate's promise (\<open>header_values\<close>) that it yields the bytes themselves
  or nothing.
\<close>

section \<open>Headers\<close>

type_synonym headers = "(string \<times> string) list"

definition header_get :: "headers \<Rightarrow> string \<Rightarrow> string option" where
  "header_get hs name = map_of hs name"

definition header_remove :: "headers \<Rightarrow> string \<Rightarrow> headers" where
  "header_remove hs name = filter (\<lambda>(n, v). n \<noteq> name) hs"

text \<open>\<open>HeaderMap::insert\<close> drops every value the name had.\<close>

definition header_insert :: "headers \<Rightarrow> string \<Rightarrow> string \<Rightarrow> headers" where
  "header_insert hs name v = header_remove hs name @ [(name, v)]"

lemma header_get_remove [simp]:
  "header_get (header_remove hs name) n = (if n = name then None else header_get hs n)"
  by (induction hs) (auto simp: header_get_def header_remove_def)

lemma header_get_insert [simp]:
  "header_get (header_insert hs name v) n = (if n = name then Some v else header_get hs n)"
  using header_get_remove [of hs name n]
  by (auto simp: header_insert_def header_get_def map_add_def split: option.splits)

lemma header_insert_unique: "filter (\<lambda>(n, w). n = name) (header_insert hs name v) = [(name, v)]"
  by (auto simp: header_insert_def header_remove_def filter_empty_conv)

section \<open>Extraction\<close>

definition DEVELOPMENT_BEARER_TOKEN :: string where
  "DEVELOPMENT_BEARER_TOKEN = ''safegate-dev-token''"

definition ANONYMOUS_AGENT_ID :: string where
  "ANONYMOUS_AGENT_ID = ''anonymous_agent''"

definition DEFAULT_TENANT_ID :: string where
  "DEFAULT_TENANT_ID = ''default_tenant''"

definition header_value :: "(string \<Rightarrow> string option) \<Rightarrow> headers \<Rightarrow> string \<Rightarrow> string option" where
  "header_value to_str hs name =
     (case Option.bind (header_get hs name) to_str of
        None \<Rightarrow> None
      | Some value \<Rightarrow> if value \<noteq> [] then Some value else None)"

definition unwrap_or :: "'a option \<Rightarrow> 'a \<Rightarrow> 'a" where
  "unwrap_or x d = (case x of None \<Rightarrow> d | Some v \<Rightarrow> v)"

definition extract_agent_context :: "(string \<Rightarrow> string option) \<Rightarrow> headers \<Rightarrow> AgentContext" where
  "extract_agent_context to_str hs =
     \<lparr>agent_id = unwrap_or (header_value to_str hs ''x-agent-id'') ANONYMOUS_AGENT_ID,
      tenant_id = unwrap_or (header_value to_str hs ''x-tenant-id'') DEFAULT_TENANT_ID,
      roles = [],
      authenticated =
        (case Option.bind (Option.bind (header_get hs ''authorization'') to_str) (strip_prefix ''Bearer '') of
           None \<Rightarrow> False
         | Some token \<Rightarrow> token = DEVELOPMENT_BEARER_TOKEN)\<rparr>"

section \<open>The promise of the header values\<close>

locale header_values =
  fixes to_str :: "string \<Rightarrow> string option"
  assumes to_str_id: "to_str v = Some s \<Longrightarrow> s = v"
begin

lemma authenticated_header:
  "authenticated (extract_agent_context to_str hs) \<longleftrightarrow>
     (\<exists>v. header_get hs ''authorization'' = Some v \<and> to_str v = Some v
        \<and> v = ''Bearer '' @ DEVELOPMENT_BEARER_TOKEN)"
  by (auto simp: extract_agent_context_def strip_prefix_Some_iff strip_prefix_None_iff bind_eq_Some_conv split: option.splits
      dest: to_str_id)

lemma header_value_Some: "header_value to_str hs name = Some s \<Longrightarrow> header_get hs name = Some s \<and> s \<noteq> []"
  by (auto simp: header_value_def bind_eq_Some_conv split: option.splits if_splits dest: to_str_id)

end

text \<open>The documented behaviour: visible ASCII (space to tilde) and the tab.\<close>

definition visible_ascii :: "string \<Rightarrow> string option" where
  "visible_ascii v =
     (if list_all (\<lambda>c. let b = of_char c :: nat in 32 \<le> b \<and> b < 127 \<or> b = 9) v then Some v else None)"

interpretation visible_ascii: header_values visible_ascii
  by unfold_locales (simp add: visible_ascii_def split: if_splits)

section \<open>Properties\<close>

text \<open>
  C28. A request counts as authenticated exactly when its first \<open>Authorization\<close> header is the
  byte string \<open>Bearer safegate-dev-token\<close>: the scheme is case sensitive, nothing may follow
  the token, and later headers of the name do not matter.
\<close>

theorem authentication_exact:
  assumes "header_values to_str"
  shows "authenticated (extract_agent_context to_str hs) \<longleftrightarrow>
    header_get hs ''authorization'' = Some ''Bearer safegate-dev-token''
    \<and> to_str ''Bearer safegate-dev-token'' \<noteq> None"
proof -
  have "''Bearer '' @ DEVELOPMENT_BEARER_TOKEN = ''Bearer safegate-dev-token''"
    by (simp add: DEVELOPMENT_BEARER_TOKEN_def)
  with header_values.authenticated_header [OF assms, of hs] header_values.to_str_id [OF assms] show ?thesis by auto
qed

theorem authentication_exact_witness:
  "authenticated (extract_agent_context visible_ascii
     [(''x-agent-id'', ''a''), (''authorization'', ''Bearer safegate-dev-token'')])
   \<and> \<not> authenticated (extract_agent_context visible_ascii
     [(''authorization'', ''bearer safegate-dev-token''), (''authorization'', ''Bearer safegate-dev-token'')])"
proof -
  have "visible_ascii ''Bearer safegate-dev-token'' \<noteq> None" by code_simp
  then show ?thesis
    using authentication_exact [OF visible_ascii.header_values_axioms] by (simp add: header_get_def)
qed

text \<open>
  The identity that keys the rate limiter, the circuit breaker and the policy registry is
  never empty: a header value is taken verbatim or replaced by the documented default.
\<close>

theorem identity_total:
  assumes "header_values to_str"
  shows "let ctx = extract_agent_context to_str hs
    in agent_id ctx \<noteq> [] \<and> tenant_id ctx \<noteq> []
     \<and> (header_get hs ''x-agent-id'' = Some (agent_id ctx) \<or> agent_id ctx = ''anonymous_agent'')
     \<and> (header_get hs ''x-tenant-id'' = Some (tenant_id ctx) \<or> tenant_id ctx = ''default_tenant'')"
  using header_values.header_value_Some [OF assms, of hs "''x-agent-id''"]
    header_values.header_value_Some [OF assms, of hs "''x-tenant-id''"]
  by (auto simp: extract_agent_context_def unwrap_or_def Let_def ANONYMOUS_AGENT_ID_def DEFAULT_TENANT_ID_def
      split: option.splits)

theorem identity_total_witness:
  "agent_id (extract_agent_context visible_ascii [(''x-agent-id'', [])]) \<noteq> []
   \<and> agent_id (extract_agent_context visible_ascii [(''x-agent-id'', [])]) = ''anonymous_agent''"
  using identity_total [OF visible_ascii.header_values_axioms, of "[(''x-agent-id'', [])]"]
  by (auto simp: header_get_def Let_def)

end
