(* ===== verification/Config.thy ===== *)
theory Config
  imports Core_Types
begin

text \<open>
  \<open>safegate-proxy/src/config.rs\<close>: the configuration and its reading from the environment.
  The environment maps names to values, undefined where \<open>std::env::var\<close> fails; the parser of
  socket addresses is a parameter.
\<close>

record 'addr ProxyConfig =
  listen_addr :: 'addr
  target_mcp_url :: string
  policy_dir :: string
  tenant_policy_dir :: string

datatype SocketAddr = SocketAddrV4 "nat list" nat | SocketAddrV6 "nat list" nat

definition default_config :: "SocketAddr ProxyConfig" where
  "default_config =
     \<lparr>listen_addr = SocketAddrV4 [0, 0, 0, 0] 8080,
      target_mcp_url = ''http://127.0.0.1:3000'',
      policy_dir = ''./policies'',
      tenant_policy_dir = ''./policies/tenants''\<rparr>"

definition from_env :: "(string \<Rightarrow> SocketAddr option) \<Rightarrow> (string \<rightharpoonup> string) \<Rightarrow> SocketAddr ProxyConfig" where
  "from_env parse_addr env =
     (let config = default_config;
          config = (case Option.bind (env ''SAFEGATE_LISTEN_ADDR'') parse_addr of
              Some addr \<Rightarrow> config\<lparr>listen_addr := addr\<rparr> | None \<Rightarrow> config);
          config = (case (case env ''SAFEGATE_TARGET_MCP_URL'' of
                Some v \<Rightarrow> Some v | None \<Rightarrow> env ''SAFEGATE_UPSTREAM_URI'') of
              Some val \<Rightarrow> if \<not> trim_is_empty val then config\<lparr>target_mcp_url := val\<rparr> else config
            | None \<Rightarrow> config);
          config = (case env ''SAFEGATE_POLICY_DIR'' of
              Some val \<Rightarrow> if \<not> trim_is_empty val then config\<lparr>policy_dir := val\<rparr> else config
            | None \<Rightarrow> config);
          config = (case env ''SAFEGATE_TENANT_POLICY_DIR'' of
              Some val \<Rightarrow> if \<not> trim_is_empty val then config\<lparr>tenant_policy_dir := val\<rparr> else config
            | None \<Rightarrow> config)
      in config)"

lemma default_not_blank:
  "\<not> trim_is_empty (target_mcp_url default_config)" "\<not> trim_is_empty (policy_dir default_config)"
  "\<not> trim_is_empty (tenant_policy_dir default_config)"
  by code_simp+

text \<open>
  C33. Whatever the environment holds, the configuration is usable: the upstream URL and both
  directories are never blank, each is the variable's value or its default, and a listen
  address that does not parse leaves the default one.
\<close>

theorem from_env_total:
  "let config = from_env parse_addr env
   in \<not> trim_is_empty (target_mcp_url config) \<and> \<not> trim_is_empty (policy_dir config)
    \<and> \<not> trim_is_empty (tenant_policy_dir config)
    \<and> (target_mcp_url config = target_mcp_url default_config
       \<or> env ''SAFEGATE_TARGET_MCP_URL'' = Some (target_mcp_url config)
       \<or> env ''SAFEGATE_TARGET_MCP_URL'' = None \<and> env ''SAFEGATE_UPSTREAM_URI'' = Some (target_mcp_url config))
    \<and> (policy_dir config = policy_dir default_config \<or> env ''SAFEGATE_POLICY_DIR'' = Some (policy_dir config))
    \<and> (tenant_policy_dir config = tenant_policy_dir default_config
       \<or> env ''SAFEGATE_TENANT_POLICY_DIR'' = Some (tenant_policy_dir config))
    \<and> listen_addr config = (case Option.bind (env ''SAFEGATE_LISTEN_ADDR'') parse_addr of
         None \<Rightarrow> SocketAddrV4 [0, 0, 0, 0] 8080 | Some addr \<Rightarrow> addr)"
proof -
  have "listen_addr default_config = SocketAddrV4 [0, 0, 0, 0] 8080" by (simp add: default_config_def)
  with default_not_blank show ?thesis
    by (cases "env ''SAFEGATE_TARGET_MCP_URL''"; cases "env ''SAFEGATE_UPSTREAM_URI''";
        cases "env ''SAFEGATE_POLICY_DIR''"; cases "env ''SAFEGATE_TENANT_POLICY_DIR''";
        cases "Option.bind (env ''SAFEGATE_LISTEN_ADDR'') parse_addr")
      (simp_all add: from_env_def Let_def)
qed

text \<open>
  A blank \<open>SAFEGATE_TARGET_MCP_URL\<close> hides \<open>SAFEGATE_UPSTREAM_URI\<close>: the alternative is read
  only when the first variable is unset, so the default URL is used.
\<close>

theorem blank_target_hides_upstream:
  assumes "env ''SAFEGATE_TARGET_MCP_URL'' = Some v" and "trim_is_empty v"
  shows "target_mcp_url (from_env parse_addr env) = ''http://127.0.0.1:3000''"
  using assms by (simp add: from_env_def Let_def default_config_def split: option.splits)

theorem blank_target_hides_upstream_witness:
  "target_mcp_url (from_env (\<lambda>s. None)
     [''SAFEGATE_TARGET_MCP_URL'' \<mapsto> [], ''SAFEGATE_UPSTREAM_URI'' \<mapsto> ''http://mcp:3000'']) = ''http://127.0.0.1:3000''"
proof (rule blank_target_hides_upstream)
  show "trim_is_empty []" by code_simp
qed simp

end
