(* ===== verification/Metrics.thy ===== *)
theory Metrics
  imports Gate_Prelude
begin

text \<open>
  \<open>safegate-proxy/src/metrics.rs\<close>: the process-wide Prometheus metrics. Each \<open>Lazy\<close> static
  registers its metric when it is first used (\<open>force\<close>); registering a name twice would be an
  error of the Prometheus registry (\<open>None\<close>), which the \<open>Lazy\<close> rules out. A counter family is a
  function of its label values and a histogram is its observations in order; the text
  encoder and the UTF-8 check of its output are parameters.
\<close>

record Metrics =
  registered :: "string list"
  http_requests_total :: "string \<times> string \<Rightarrow> nat"
  policy_decisions_total :: "string \<Rightarrow> nat"
  proxy_latency_seconds :: "duration list"
  wasm_execution_latency_seconds :: "duration list"

definition metrics_initial :: Metrics where
  "metrics_initial =
     \<lparr>registered = [], http_requests_total = \<lambda>_. 0, policy_decisions_total = \<lambda>_. 0,
      proxy_latency_seconds = [], wasm_execution_latency_seconds = []\<rparr>"

text \<open>Upper bounds of the histogram buckets, in milliseconds.\<close>

definition LATENCY_BUCKETS :: "nat list" where
  "LATENCY_BUCKETS = [1, 5, 10, 25, 50, 100, 250, 500, 1000, 2500, 5000, 10000]"

definition registry_register :: "string \<Rightarrow> string list \<Rightarrow> string list option" where
  "registry_register name reg = (if name \<in> set reg then None else Some (reg @ [name]))"

text \<open>Dereferencing a \<open>Lazy\<close>: the initialiser runs the first time only.\<close>

definition force :: "string \<Rightarrow> Metrics \<Rightarrow> Metrics" where
  "force name m =
     (if name \<in> set (registered m) then m
      else (case registry_register name (registered m) of
          Some reg \<Rightarrow> m\<lparr>registered := reg\<rparr>
        | None \<Rightarrow> m))"

definition inc_http_requests :: "string \<Rightarrow> string \<Rightarrow> Metrics \<Rightarrow> Metrics" where
  "inc_http_requests status tenant m =
     (let m = force ''http_requests_total'' m
      in m\<lparr>http_requests_total :=
             (http_requests_total m)((status, tenant) := http_requests_total m (status, tenant) + 1)\<rparr>)"

definition inc_policy_decisions :: "string \<Rightarrow> Metrics \<Rightarrow> Metrics" where
  "inc_policy_decisions decision m =
     (let m = force ''policy_decisions_total'' m
      in m\<lparr>policy_decisions_total := (policy_decisions_total m)(decision := policy_decisions_total m decision + 1)\<rparr>)"

definition observe_proxy_latency :: "duration \<Rightarrow> Metrics \<Rightarrow> Metrics" where
  "observe_proxy_latency d m =
     (let m = force ''proxy_latency_seconds'' m
      in m\<lparr>proxy_latency_seconds := proxy_latency_seconds m @ [d]\<rparr>)"

definition observe_wasm_latency :: "duration \<Rightarrow> Metrics \<Rightarrow> Metrics" where
  "observe_wasm_latency d m =
     (let m = force ''wasm_execution_latency_seconds'' m
      in m\<lparr>wasm_execution_latency_seconds := wasm_execution_latency_seconds m @ [d]\<rparr>)"

record prometheus_lib =
  encode_text :: "Metrics \<Rightarrow> string + string"
  utf8_error :: "string \<Rightarrow> string option"

definition gather_metrics_text :: "prometheus_lib \<Rightarrow> Metrics \<Rightarrow> Metrics \<times> (string + string)" where
  "gather_metrics_text pl m =
     (let m = force ''wasm_execution_latency_seconds'' (force ''proxy_latency_seconds''
                (force ''policy_decisions_total'' (force ''http_requests_total'' m)))
      in (m, (case encode_text pl m of
                Inl e \<Rightarrow> Inl (''prometheus encode error: '' @ e)
              | Inr buffer \<Rightarrow>
                  (case utf8_error pl buffer of
                     Some e \<Rightarrow> Inl (''prometheus utf8 error: '' @ e)
                   | None \<Rightarrow> Inr buffer))))"

lemma force_simps [simp]:
  "http_requests_total (force name m) = http_requests_total m"
  "policy_decisions_total (force name m) = policy_decisions_total m"
  "proxy_latency_seconds (force name m) = proxy_latency_seconds m"
  "wasm_execution_latency_seconds (force name m) = wasm_execution_latency_seconds m"
  by (auto simp: force_def split: option.splits)

lemma registered_force:
  "registered (force name m) = (if name \<in> set (registered m) then registered m else registered m @ [name])"
  by (simp add: force_def registry_register_def)

lemma inc_simps [simp]:
  "http_requests_total (inc_http_requests s t m) = bump (s, t) (http_requests_total m)"
  "http_requests_total (inc_policy_decisions d m) = http_requests_total m"
  "http_requests_total (observe_proxy_latency l m) = http_requests_total m"
  "http_requests_total (observe_wasm_latency l m) = http_requests_total m"
  "policy_decisions_total (inc_policy_decisions d m) = bump d (policy_decisions_total m)"
  "policy_decisions_total (inc_http_requests s t m) = policy_decisions_total m"
  "policy_decisions_total (observe_proxy_latency l m) = policy_decisions_total m"
  "policy_decisions_total (observe_wasm_latency l m) = policy_decisions_total m"
  "proxy_latency_seconds (inc_http_requests s t m) = proxy_latency_seconds m"
  "proxy_latency_seconds (inc_policy_decisions d m) = proxy_latency_seconds m"
  "proxy_latency_seconds (observe_proxy_latency l m) = proxy_latency_seconds m @ [l]"
  "proxy_latency_seconds (observe_wasm_latency l m) = proxy_latency_seconds m"
  by (simp_all add: inc_http_requests_def inc_policy_decisions_def observe_proxy_latency_def
      observe_wasm_latency_def bump_def Let_def)

lemma bump_apply [simp]: "bump k f k' = f k' + of_bool (k' = k)"
  by (simp add: bump_def)

lemma gather_simps [simp]:
  "http_requests_total (fst (gather_metrics_text pl m)) = http_requests_total m"
  "policy_decisions_total (fst (gather_metrics_text pl m)) = policy_decisions_total m"
  "proxy_latency_seconds (fst (gather_metrics_text pl m)) = proxy_latency_seconds m"
  by (simp_all add: gather_metrics_text_def Let_def)

text \<open>The responses counted for a tenant, over all status codes.\<close>

definition tenant_requests :: "Metrics \<Rightarrow> string \<Rightarrow> nat" where
  "tenant_requests m t = total_count (\<lambda>status. http_requests_total m (status, t))"

definition metrics_finite :: "Metrics \<Rightarrow> bool" where
  "metrics_finite m \<longleftrightarrow> finite {k. http_requests_total m k \<noteq> 0}"

lemma metrics_finite_tenant:
  assumes "metrics_finite m"
  shows "finite {status. http_requests_total m (status, t) \<noteq> 0}"
proof -
  have "(\<lambda>status. (status, t)) ` {status. http_requests_total m (status, t) \<noteq> 0} \<subseteq> {k. http_requests_total m k \<noteq> 0}"
    by auto
  with assms have "finite ((\<lambda>status. (status, t)) ` {status. http_requests_total m (status, t) \<noteq> 0})"
    unfolding metrics_finite_def by (rule rev_finite_subset)
  then show ?thesis by (rule finite_imageD) (simp add: inj_on_def)
qed

lemma tenant_requests_bump:
  assumes "metrics_finite m" and "http_requests_total m' = bump (status, t) (http_requests_total m)"
  shows "tenant_requests m' t' = tenant_requests m t' + of_bool (t' = t)" and "metrics_finite m'"
proof -
  have "(\<lambda>s. http_requests_total m' (s, t')) =
      (if t' = t then bump status (\<lambda>s. http_requests_total m (s, t')) else (\<lambda>s. http_requests_total m (s, t')))"
    using assms(2) by (auto simp: bump_def fun_eq_iff)
  then show "tenant_requests m' t' = tenant_requests m t' + of_bool (t' = t)"
    using total_bump [OF metrics_finite_tenant [OF assms(1)]] by (simp add: tenant_requests_def)
  show "metrics_finite m'" using assms finite_bump by (auto simp: metrics_finite_def)
qed

end
