(* ===== verification/Json_Text.thy ===== *)
theory Json_Text
  imports Json_Value
begin

text \<open>
  The interface of the third-party \<open>serde_json\<close> crate, as the parameter \<open>serde_lib\<close>.

  \<^item> \<open>json_scan\<close> reads text into a document, the tree that the deserialiser walks. Derived
    deserialisers skip the values of unknown fields without looking at them; the limits of
    \<open>serde_json::Value\<close> are checked only where a \<open>Value\<close> is built (\<open>read_value\<close>): every number
    fits (\<open>number_value\<close>, which also turns a number into its \<open>u64\<close>, \<open>i64\<close> or \<open>f64\<close>) and
    the nesting stays within the recursion limit.
  \<^item> \<open>json_print\<close> is the compact printer and \<open>error_text\<close> the \<open>Display\<close> of an error.

  The locale \<open>serde_json\<close> states what the crate documents: printed documents are read back
  as they are, integers of 64 bits are kept, and a converted number is printed as a number.
  Nothing is assumed of floating-point numbers being read back as they were printed, since the crate
  promises that only with its feature \<open>float_roundtrip\<close>, which is off here: the values whose
  numbers are their own conversion are the predicate \<open>exact_numbers\<close>, and round trips of
  values are stated for those. The second half is an executable codec for compact JSON that
  satisfies the interface, with the crate's escaping of strings; the witnesses evaluate it.
\<close>

section \<open>The interface\<close>

datatype de_error =
    Syntax string
  | MissingField string
  | DuplicateField string
  | InvalidType
  | InvalidLength nat
  | TrailingElements
  | UnknownVariant string
  | NumberOutOfRange
  | RecursionLimitExceeded

record serde_lib =
  json_scan :: "string \<Rightarrow> string + json"
  json_print :: "json \<Rightarrow> string"
  number_value :: "jnumber \<Rightarrow> jnumber option"
  error_text :: "string \<Rightarrow> de_error \<Rightarrow> string"

fun json_depth :: "json \<Rightarrow> nat" where
  "json_depth (JArray vs) = Suc (fold max (map json_depth vs) 0)"
| "json_depth (JObject kvs) = Suc (fold max (map (\<lambda>(k, v). json_depth v) kvs) 0)"
| "json_depth v = 0"

definition RECURSION_LIMIT :: nat where
  "RECURSION_LIMIT = 127"

subsection \<open>Numbers\<close>

text \<open>Text of a floating-point number, as printed: it has a fraction or an exponent.\<close>

definition is_digit :: "char \<Rightarrow> bool" where
  "is_digit c \<longleftrightarrow> 48 \<le> (of_char c :: nat) \<and> (of_char c :: nat) \<le> 57"

definition num_char :: "char \<Rightarrow> bool" where
  "num_char c \<longleftrightarrow> is_digit c \<or> c \<in> set ''-+.eE''"

definition float_text :: "string \<Rightarrow> bool" where
  "float_text t \<longleftrightarrow> t \<noteq> [] \<and> list_all num_char t \<and> (is_digit (hd t) \<or> hd t = CHR ''-'')
     \<and> list_ex (\<lambda>c. c \<in> set ''.eE'') t"

fun number_ok :: "jnumber \<Rightarrow> bool" where
  "number_ok (PosInt n) = True"
| "number_ok (NegInt n) = (0 < n)"
| "number_ok (Float t) = float_text t"

text \<open>All numbers of a document satisfy \<open>P\<close>; all its numbers replaced by \<open>f\<close>.\<close>

fun all_numbers :: "(jnumber \<Rightarrow> bool) \<Rightarrow> json \<Rightarrow> bool" where
  "all_numbers P (JNumber n) = P n"
| "all_numbers P (JArray vs) = (\<forall>v \<in> set vs. all_numbers P v)"
| "all_numbers P (JObject kvs) = (\<forall>(k, v) \<in> set kvs. all_numbers P v)"
| "all_numbers P v = True"

fun map_numbers :: "(jnumber \<Rightarrow> jnumber) \<Rightarrow> json \<Rightarrow> json" where
  "map_numbers f (JNumber n) = JNumber (f n)"
| "map_numbers f (JArray vs) = JArray (map (map_numbers f) vs)"
| "map_numbers f (JObject kvs) = JObject (map (\<lambda>(k, v). (k, map_numbers f v)) kvs)"
| "map_numbers f v = v"

abbreviation numbers_ok :: "json \<Rightarrow> bool" where
  "numbers_ok \<equiv> all_numbers number_ok"

subsection \<open>Building a value\<close>

definition convert_number :: "serde_lib \<Rightarrow> jnumber \<Rightarrow> jnumber" where
  "convert_number sj n = (case number_value sj n of None \<Rightarrow> n | Some n' \<Rightarrow> n')"

definition read_value :: "serde_lib \<Rightarrow> nat \<Rightarrow> json \<Rightarrow> de_error + json" where
  "read_value sj budget v =
     (if \<not> all_numbers (\<lambda>n. number_value sj n \<noteq> None) v then Inl NumberOutOfRange
      else if budget < json_depth v then Inl RecursionLimitExceeded
      else Inr (value_of (map_numbers (convert_number sj) v)))"

text \<open>\<open>serde_json::from_slice::<Value>\<close> and \<open>from_str::<Value>\<close>.\<close>

definition value_from_str :: "serde_lib \<Rightarrow> string \<Rightarrow> de_error + json" where
  "value_from_str sj s =
     (case json_scan sj s of Inl e \<Rightarrow> Inl (Syntax e) | Inr d \<Rightarrow> read_value sj RECURSION_LIMIT d)"

text \<open>
  The values of the crate: sorted objects, and numbers that are printed as numbers. A value has
  exact numbers when each of them is read as itself, as 64-bit integers always are.
\<close>

definition is_value :: "json \<Rightarrow> bool" where
  "is_value v \<longleftrightarrow> canonical v \<and> numbers_ok v"

definition exact_numbers :: "serde_lib \<Rightarrow> json \<Rightarrow> bool" where
  "exact_numbers sj = all_numbers (\<lambda>n. number_value sj n = Some n)"

fun integer_64 :: "jnumber \<Rightarrow> bool" where
  "integer_64 (PosInt n) = (n < 2 ^ 64)"
| "integer_64 (NegInt n) = (0 < n \<and> n \<le> 2 ^ 63)"
| "integer_64 (Float t) = False"

lemma fold_max_le: "fold max xs a \<le> d \<longleftrightarrow> a \<le> d \<and> (\<forall>x \<in> set xs. x \<le> d)" for d :: nat
  by (induction xs arbitrary: a) auto

lemma json_depth_le:
  "json_depth (JArray vs) \<le> d \<longleftrightarrow> (\<exists>d'. d = Suc d' \<and> (\<forall>v \<in> set vs. json_depth v \<le> d'))"
  "json_depth (JObject kvs) \<le> d \<longleftrightarrow> (\<exists>d'. d = Suc d' \<and> (\<forall>(k, v) \<in> set kvs. json_depth v \<le> d'))"
  by (cases d; force simp: fold_max_le)+

lemma json_depth_member:
  "v \<in> set vs \<Longrightarrow> json_depth v < json_depth (JArray vs)"
  "(k, v) \<in> set kvs \<Longrightarrow> json_depth v < json_depth (JObject kvs)"
  using json_depth_le(1) [of vs "json_depth (JArray vs)"] json_depth_le(2) [of kvs "json_depth (JObject kvs)"]
  by auto

lemma all_numbers_map: "all_numbers P (map_numbers f v) \<longleftrightarrow> all_numbers (\<lambda>n. P (f n)) v"
proof (induction f v rule: map_numbers.induct)
  case (3 f kvs)
  then have "all_numbers P (map_numbers f (snd x)) = all_numbers (\<lambda>n. P (f n)) (snd x)" if "x \<in> set kvs" for x
    using that by (cases x) auto
  then show ?case by (simp add: case_prod_unfold)
qed auto

lemma all_numbers_mono: "all_numbers P v \<Longrightarrow> (\<And>n. P n \<Longrightarrow> Q n) \<Longrightarrow> all_numbers Q v"
  by (induction v) fastforce+

lemma map_numbers_id: "all_numbers (\<lambda>n. f n = n) v \<Longrightarrow> map_numbers f v = v"
  by (induction v) (auto intro!: map_idI)

lemma depth_map_numbers [simp]: "json_depth (map_numbers f v) = json_depth v"
proof (induction f v rule: map_numbers.induct)
  case (2 f vs)
  then show ?case by (simp add: o_def cong: map_cong)
next
  case (3 f kvs)
  then have "json_depth (map_numbers f (snd x)) = json_depth (snd x)" if "x \<in> set kvs" for x
    using that by (cases x) auto
  then show ?case by (simp add: o_def case_prod_unfold cong: map_cong)
qed auto

lemma leaves_map_numbers [simp]: "leaves (map_numbers f v) = leaves v"
proof (induction f v rule: map_numbers.induct)
  case (2 f vs)
  then show ?case by (simp add: o_def cong: map_cong)
next
  case (3 f kvs)
  then have "leaves (map_numbers f (snd x)) = leaves (snd x)" if "x \<in> set kvs" for x
    using that by (cases x) auto
  then show ?case by (simp add: o_def case_prod_unfold cong: map_cong)
qed auto

lemma obj_of_values:
  "(k, v) \<in> set (obj_of (map (\<lambda>(k, v). (k, f v)) kvs) []) \<Longrightarrow> \<exists>w. (k, w) \<in> set kvs \<and> v = f w"
  using set_obj_of [of "map (\<lambda>(k, v). (k, f v)) kvs" "[]"] by force

lemma all_numbers_value_of: "all_numbers P v \<Longrightarrow> all_numbers P (value_of v)"
proof (induction v rule: value_of.induct)
  case (2 kvs)
  then show ?case by (fastforce dest!: obj_of_values)
qed auto

lemma depth_value_of: "json_depth v \<le> d \<Longrightarrow> json_depth (value_of v) \<le> d"
proof (induction v arbitrary: d rule: value_of.induct)
  case (1 vs)
  then show ?case by (fastforce simp: json_depth_le simp del: json_depth.simps)
next
  case (2 kvs)
  then show ?case by (fastforce simp: json_depth_le simp del: json_depth.simps dest!: obj_of_values)
qed auto

lemma leaves_value_of: "set (leaves (value_of v)) \<subseteq> set (leaves v)"
proof (induction v rule: value_of.induct)
  case (2 kvs)
  then show ?case by (fastforce dest!: obj_of_values)
qed auto

lemma read_value_leaves: "read_value sj b d = Inr v \<Longrightarrow> set (leaves v) \<subseteq> set (leaves d)"
  using leaves_value_of [of "map_numbers (convert_number sj) d"]
  by (auto simp: read_value_def split: if_splits)

section \<open>The contract\<close>

locale serde_json =
  fixes sj :: serde_lib
  assumes scan_print: "numbers_ok v \<Longrightarrow> json_scan sj (json_print sj v) = Inr v"
    and number_value_u64: "n < 2 ^ 64 \<Longrightarrow> number_value sj (PosInt n) = Some (PosInt n)"
    and number_value_i64: "0 < n \<Longrightarrow> n \<le> 2 ^ 63 \<Longrightarrow> number_value sj (NegInt n) = Some (NegInt n)"
    and number_value_ok: "number_value sj x = Some y \<Longrightarrow> number_ok y"
begin

lemma exact_integers: "all_numbers integer_64 v \<Longrightarrow> exact_numbers sj v"
proof -
  have "number_value sj n = Some n" if "integer_64 n" for n
    using that by (cases n) (simp_all add: number_value_u64 number_value_i64)
  then show "all_numbers integer_64 v \<Longrightarrow> exact_numbers sj v"
    unfolding exact_numbers_def by (blast intro: all_numbers_mono)
qed

lemma read_value_is_value:
  assumes "read_value sj b d = Inr v"
  shows "is_value v" and "json_depth v \<le> b"
proof -
  let ?d = "map_numbers (convert_number sj) d"
  from assms have v: "v = value_of ?d" and "json_depth ?d \<le> b"
    and "all_numbers (\<lambda>n. number_value sj n \<noteq> None) d" by (auto simp: read_value_def split: if_splits)
  then have "numbers_ok ?d"
    by (auto simp: all_numbers_map convert_number_def intro: number_value_ok elim!: all_numbers_mono)
  with v show "is_value v" by (simp add: is_value_def all_numbers_value_of)
  from \<open>json_depth ?d \<le> b\<close> v show "json_depth v \<le> b" by (simp add: depth_value_of)
qed

lemma read_value_id:
  assumes "is_value v" and "exact_numbers sj v" and "json_depth v \<le> b"
  shows "read_value sj b v = Inr v"
proof -
  from assms(2) have n: "all_numbers (\<lambda>n. number_value sj n = Some n) v" by (simp add: exact_numbers_def)
  then have "map_numbers (convert_number sj) v = v"
    by (auto intro!: map_numbers_id simp: convert_number_def elim: all_numbers_mono)
  moreover from n have "all_numbers (\<lambda>n. number_value sj n \<noteq> None) v" by (auto elim: all_numbers_mono)
  ultimately show ?thesis using assms by (simp add: read_value_def is_value_def)
qed

lemma value_round_trip:
  "is_value v \<Longrightarrow> exact_numbers sj v \<Longrightarrow> json_depth v \<le> RECURSION_LIMIT
     \<Longrightarrow> value_from_str sj (json_print sj v) = Inr v"
  by (simp add: value_from_str_def is_value_def scan_print read_value_id)

lemma value_from_str_is_value: "value_from_str sj s = Inr v \<Longrightarrow> is_value v"
  by (auto simp: value_from_str_def split: sum.splits intro: read_value_is_value)

lemma print_inj:
  "numbers_ok v \<Longrightarrow> numbers_ok v' \<Longrightarrow> json_print sj v = json_print sj v' \<Longrightarrow> v = v'"
  by (metis scan_print sum.inject(2))

end

section \<open>A codec for compact JSON\<close>

definition hex_digit :: "nat \<Rightarrow> char" where
  "hex_digit n = char_of (if n < 10 then 48 + n else 87 + n)"

definition escape_char :: "char \<Rightarrow> string" where
  "escape_char c =
     (if c = CHR 0x22 then [CHR 0x5C, CHR 0x22]
      else if c = CHR 0x5C then [CHR 0x5C, CHR 0x5C]
      else if c = CHR 0x08 then [CHR 0x5C, CHR ''b'']
      else if c = CHR 0x0C then [CHR 0x5C, CHR ''f'']
      else if c = CHR 0x0A then [CHR 0x5C, CHR ''n'']
      else if c = CHR 0x0D then [CHR 0x5C, CHR ''r'']
      else if c = CHR 0x09 then [CHR 0x5C, CHR ''t'']
      else if of_char c < (32 :: nat)
        then [CHR 0x5C] @ ''u00'' @ [hex_digit (of_char c div 16), hex_digit (of_char c mod 16)]
      else [c])"

definition print_string :: "string \<Rightarrow> string" where
  "print_string s = [CHR 0x22] @ concat (map escape_char s) @ [CHR 0x22]"

fun print_number :: "jnumber \<Rightarrow> string" where
  "print_number (PosInt n) = show_nat n"
| "print_number (NegInt n) = CHR ''-'' # show_nat n"
| "print_number (Float t) = t"

fun print_json :: "json \<Rightarrow> string" where
  "print_json JNull = ''null''"
| "print_json (JBool b) = (if b then ''true'' else ''false'')"
| "print_json (JNumber n) = print_number n"
| "print_json (JString s) = print_string s"
| "print_json (JArray vs) = ''['' @ join '','' (map print_json vs) @ '']''"
| "print_json (JObject kvs) =
     ''{'' @ join '','' (map (\<lambda>(k, v). print_string k @ '':'' @ print_json v) kvs) @ ''}''"

definition hex_value :: "char \<Rightarrow> nat option" where
  "hex_value c = (let n = of_char c in
     if 48 \<le> n \<and> n \<le> 57 then Some (n - 48) else if 97 \<le> n \<and> n \<le> 102 then Some (n - 87) else None)"

text \<open>The characters of a string up to its closing quote.\<close>

fun parse_string :: "string \<Rightarrow> (string \<times> string) option" where
  "parse_string [] = None"
| "parse_string (c # s) =
     (if c = CHR 0x22 then Some ([], s)
      else if c = CHR 0x5C then
        (case s of
           [] \<Rightarrow> None
         | e # s1 \<Rightarrow>
             if e = CHR ''u'' then
               (case s1 of
                  z1 # z2 # h1 # h2 # s2 \<Rightarrow>
                    (case (z1 = CHR ''0'' \<and> z2 = CHR ''0'', hex_value h1, hex_value h2) of
                       (True, Some a, Some b) \<Rightarrow>
                         map_option (\<lambda>(t, r). (char_of (16 * a + b) # t, r)) (parse_string s2)
                     | _ \<Rightarrow> None)
                | _ \<Rightarrow> None)
             else
               (case (if e = CHR ''b'' then Some (CHR 0x08) else if e = CHR ''f'' then Some (CHR 0x0C)
                      else if e = CHR ''n'' then Some (CHR 0x0A) else if e = CHR ''r'' then Some (CHR 0x0D)
                      else if e = CHR ''t'' then Some (CHR 0x09) else if e = CHR 0x22 then Some e
                      else if e = CHR 0x5C then Some e else if e = CHR ''/'' then Some e else None) of
                  Some d \<Rightarrow> map_option (\<lambda>(t, r). (d # t, r)) (parse_string s1)
                | None \<Rightarrow> None))
      else map_option (\<lambda>(t, r). (c # t, r)) (parse_string s))"

definition read_nat :: "string \<Rightarrow> nat" where
  "read_nat s = foldl (\<lambda>n c. 10 * n + (of_char c - 48)) 0 s"

definition parse_number :: "string \<Rightarrow> (json \<times> string) option" where
  "parse_number s =
     (let t = takeWhile num_char s; r = dropWhile num_char s
      in if list_all is_digit t \<and> t \<noteq> [] then Some (JNumber (PosInt (read_nat t)), r)
         else if t \<noteq> [] \<and> hd t = CHR ''-'' \<and> tl t \<noteq> [] \<and> list_all is_digit (tl t)
           then Some (JNumber (NegInt (read_nat (tl t))), r)
         else if float_text t then Some (JNumber (Float t), r)
         else None)"

definition expect :: "char \<Rightarrow> string \<Rightarrow> string option" where
  "expect c s = (case s of [] \<Rightarrow> None | d # r \<Rightarrow> if d = c then Some r else None)"

fun parse_value :: "nat \<Rightarrow> string \<Rightarrow> (json \<times> string) option"
  and parse_elems :: "nat \<Rightarrow> string \<Rightarrow> (json list \<times> string) option"
  and parse_members :: "nat \<Rightarrow> string \<Rightarrow> ((string \<times> json) list \<times> string) option" where
  "parse_value 0 s = None"
| "parse_value (Suc fuel) s =
     (case s of
        [] \<Rightarrow> None
      | c # r \<Rightarrow>
          if c = CHR 0x22 then map_option (\<lambda>(t, r'). (JString t, r')) (parse_string r)
          else if c = CHR ''['' then
            (case expect (CHR '']'') r of
               Some r' \<Rightarrow> Some (JArray [], r')
             | None \<Rightarrow> map_option (\<lambda>(vs, r'). (JArray vs, r')) (parse_elems fuel r))
          else if c = CHR ''{'' then
            (case expect (CHR ''}'') r of
               Some r' \<Rightarrow> Some (JObject [], r')
             | None \<Rightarrow> map_option (\<lambda>(kvs, r'). (JObject kvs, r')) (parse_members fuel r))
          else if c = CHR ''n'' then map_option (\<lambda>r'. (JNull, r')) (strip_prefix ''null'' s)
          else if c = CHR ''t'' then map_option (\<lambda>r'. (JBool True, r')) (strip_prefix ''true'' s)
          else if c = CHR ''f'' then map_option (\<lambda>r'. (JBool False, r')) (strip_prefix ''false'' s)
          else parse_number s)"
| "parse_elems 0 s = None"
| "parse_elems (Suc fuel) s =
     (case parse_value fuel s of
        None \<Rightarrow> None
      | Some (v, r) \<Rightarrow>
          (case expect (CHR '']'') r of
             Some r' \<Rightarrow> Some ([v], r')
           | None \<Rightarrow>
               (case expect (CHR '','') r of
                  None \<Rightarrow> None
                | Some r' \<Rightarrow> map_option (\<lambda>(vs, r''). (v # vs, r'')) (parse_elems fuel r'))))"
| "parse_members 0 s = None"
| "parse_members (Suc fuel) s =
     (case Option.bind (expect (CHR 0x22) s) parse_string of
        None \<Rightarrow> None
      | Some (k, r0) \<Rightarrow>
          (case Option.bind (expect (CHR '':'') r0) (parse_value fuel) of
             None \<Rightarrow> None
           | Some (v, r) \<Rightarrow>
               (case expect (CHR ''}'') r of
                  Some r' \<Rightarrow> Some ([(k, v)], r')
                | None \<Rightarrow>
                    (case expect (CHR '','') r of
                       None \<Rightarrow> None
                     | Some r' \<Rightarrow> map_option (\<lambda>(kvs, r''). ((k, v) # kvs, r'')) (parse_members fuel r')))))"

definition scan_json :: "string \<Rightarrow> string + json" where
  "scan_json s =
     (case parse_value (Suc (length s)) s of
        Some (v, []) \<Rightarrow> Inr v
      | _ \<Rightarrow> Inl ''expected value'')"

text \<open>The codec keeps 64-bit integers and decimal fractions, and refuses exponents.\<close>

fun keep_number :: "jnumber \<Rightarrow> jnumber option" where
  "keep_number (PosInt n) = (if int n < 18446744073709551616 then Some (PosInt n) else None)"
| "keep_number (NegInt n) = (if 0 < n \<and> int n \<le> 9223372036854775808 then Some (NegInt n) else None)"
| "keep_number (Float t) = (if float_text t \<and> list_all (\<lambda>c. c \<notin> set ''eE'') t then Some (Float t) else None)"

fun show_error :: "de_error \<Rightarrow> string" where
  "show_error (Syntax e) = e"
| "show_error (MissingField f) = ''missing field '' @ f"
| "show_error (DuplicateField f) = ''duplicate field '' @ f"
| "show_error InvalidType = ''invalid type''"
| "show_error (InvalidLength n) = ''invalid length '' @ show_nat n"
| "show_error TrailingElements = ''trailing characters''"
| "show_error (UnknownVariant v) = ''unknown variant '' @ v"
| "show_error NumberOutOfRange = ''number out of range''"
| "show_error RecursionLimitExceeded = ''recursion limit exceeded''"

definition reference_json :: serde_lib where
  "reference_json =
     \<lparr>json_scan = scan_json, json_print = print_json, number_value = keep_number, error_text = \<lambda>s. show_error\<rparr>"

subsection \<open>Reading back strings and numbers\<close>

lemma hex_value_digit: "n < 16 \<Longrightarrow> hex_value (hex_digit n) = Some n"
  by (auto simp: hex_value_def hex_digit_def Let_def)

lemma parse_string_print: "parse_string (concat (map escape_char s) @ CHR 0x22 # r) = Some (s, r)"
proof (induction s)
  case Nil
  then show ?case by simp
next
  case (Cons c s)
  have "(of_char c :: nat) div 16 < 16" and "(of_char c :: nat) mod 16 < 16"
    using nat_of_char_less_256 [of c] by linarith+
  moreover have "char_of (16 * (of_char c div 16) + of_char c mod (16 :: nat)) = c" by simp
  ultimately show ?case using Cons
    by (simp add: escape_char_def hex_value_digit)
qed

lemma is_digit_char_of: "n < 10 \<Longrightarrow> is_digit (char_of (48 + n))" for n :: nat
  by (simp add: is_digit_def)

lemma is_digit_show_nat: "list_all is_digit (show_nat n)"
proof (induction n rule: show_nat.induct)
  case (1 n)
  then show ?case by (subst show_nat.simps) (simp add: is_digit_char_of)
qed

lemma read_nat_append: "read_nat (s @ [c]) = 10 * read_nat s + (of_char c - 48)"
  by (simp add: read_nat_def)

lemma read_nat_show_nat [simp]: "read_nat (show_nat n) = n"
proof (induction n rule: show_nat.induct)
  case (1 n)
  show ?case
  proof (cases "n < 10")
    case True
    then show ?thesis by (subst show_nat.simps) (simp add: read_nat_def)
  next
    case False
    with 1 show ?thesis by (subst show_nat.simps) (simp add: read_nat_append)
  qed
qed

definition stops :: "string \<Rightarrow> bool" where
  "stops r \<longleftrightarrow> r = [] \<or> \<not> num_char (hd r)"

lemma takeWhile_num: "list_all num_char t \<Longrightarrow> stops r \<Longrightarrow> takeWhile num_char (t @ r) = t"
  by (cases r) (auto simp: takeWhile_append stops_def list_all_iff)

lemma dropWhile_num: "list_all num_char t \<Longrightarrow> stops r \<Longrightarrow> dropWhile num_char (t @ r) = r"
  by (cases r) (auto simp: dropWhile_append stops_def list_all_iff)

lemma digits_are_num: "list_all is_digit t \<Longrightarrow> list_all num_char t"
  by (auto simp: list_all_iff num_char_def)

lemma float_not_digits:
  assumes "float_text t"
  shows "\<not> list_all is_digit t" and "\<not> list_all is_digit (tl t)"
proof -
  from assms obtain c where c: "c \<in> set t" "c \<in> set ''.eE''" by (auto simp: float_text_def list_ex_iff)
  then have "\<not> is_digit c" by (auto simp: is_digit_def)
  moreover have "c \<noteq> hd t" using assms c by (auto simp: float_text_def is_digit_def)
  ultimately show "\<not> list_all is_digit t" and "\<not> list_all is_digit (tl t)"
    using c by (cases t; auto simp: list_all_iff)+
qed

lemma parse_number_print:
  assumes "number_ok n" and "stops r"
  shows "parse_number (print_number n @ r) = Some (JNumber n, r)"
proof (cases n)
  case (PosInt k)
  then show ?thesis
    using takeWhile_num [OF digits_are_num [OF is_digit_show_nat] assms(2)]
      dropWhile_num [OF digits_are_num [OF is_digit_show_nat] assms(2)] is_digit_show_nat
    by (simp add: parse_number_def)
next
  case (NegInt k)
  have "list_all num_char (CHR ''-'' # show_nat k)"
    using digits_are_num [OF is_digit_show_nat] by (simp add: num_char_def)
  from takeWhile_num [OF this assms(2)] dropWhile_num [OF this assms(2)] NegInt is_digit_show_nat show ?thesis
    by (simp add: parse_number_def is_digit_def)
next
  case (Float t)
  with assms have t: "float_text t" "list_all num_char t" "t \<noteq> []" by (auto simp: float_text_def)
  with takeWhile_num [OF t(2) assms(2)] dropWhile_num [OF t(2) assms(2)] float_not_digits [OF t(1)] Float
  show ?thesis by (simp add: parse_number_def)
qed

subsection \<open>Reading back values\<close>

text \<open>The fuel that a value needs, which its printed text always provides.\<close>

fun need :: "json \<Rightarrow> nat" where
  "need (JArray vs) = Suc (sum_list (map (\<lambda>v. Suc (need v)) vs))"
| "need (JObject kvs) = Suc (sum_list (map (\<lambda>(k, v). Suc (need v)) kvs))"
| "need v = 1"

lemma number_head:
  assumes "number_ok n"
  obtains c t where "print_number n = c # t" and "is_digit c \<or> c = CHR ''-''"
proof (cases n)
  case (PosInt k)
  then show ?thesis using that is_digit_show_nat [of k] by (cases "show_nat k") auto
next
  case (Float t)
  with assms show ?thesis using that by (cases t) (auto simp: float_text_def)
qed (use that in auto)

lemma expect_simps [simp]:
  "expect c [] = None" "expect c (d # r) = (if d = c then Some r else None)"
  by (simp_all add: expect_def)

lemma stops_seps [simp]: "stops (CHR '','' # r)" "stops (CHR '']'' # r)" "stops (CHR ''}'' # r)" "stops []"
  by (simp_all add: stops_def num_char_def is_digit_def)

lemma print_no_close: "numbers_ok v \<Longrightarrow> expect (CHR '']'') (print_json v @ r) = None"
proof (cases v)
  case (JNumber n)
  assume "numbers_ok v"
  with JNumber obtain c t where "print_number n = c # t" "is_digit c \<or> c = CHR ''-''" by (auto elim: number_head)
  with JNumber show ?thesis by (auto simp: is_digit_def)
qed (auto simp: print_string_def)

lemma parse_elems_print:
  assumes "\<And>v f r. v \<in> set vs \<Longrightarrow> need v \<le> f \<Longrightarrow> stops r \<Longrightarrow> parse_value f (print_json v @ r) = Some (v, r)"
    and "vs \<noteq> []" and "sum_list (map (\<lambda>v. Suc (need v)) vs) \<le> f"
  shows "parse_elems f (join '','' (map print_json vs) @ CHR '']'' # r) = Some (vs, r)"
  using assms
proof (induction vs arbitrary: f)
  case (Cons v vs)
  then obtain g where f: "f = Suc g" by (cases f) auto
  with Cons.prems have v: "need v \<le> g" and vs: "sum_list (map (\<lambda>v. Suc (need v)) vs) \<le> g" by auto
  show ?case
  proof (cases "vs = []")
    case True
    then show ?thesis using f Cons.prems(1) [of v g "CHR '']'' # r"] v by simp
  next
    case False
    then have "parse_elems g (join '','' (map print_json vs) @ CHR '']'' # r) = Some (vs, r)"
      using Cons.IH Cons.prems(1) vs by simp
    with False show ?thesis
      using f Cons.prems(1) [of v g "CHR '','' # join '','' (map print_json vs) @ CHR '']'' # r"] v
      by (simp add: join_Cons)
  qed
qed simp

lemma parse_members_print:
  assumes "\<And>k v f r. (k, v) \<in> set kvs \<Longrightarrow> need v \<le> f \<Longrightarrow> stops r \<Longrightarrow> parse_value f (print_json v @ r) = Some (v, r)"
    and "kvs \<noteq> []" and "sum_list (map (\<lambda>(k, v). Suc (need v)) kvs) \<le> f"
  shows "parse_members f (join '','' (map (\<lambda>(k, v). print_string k @ '':'' @ print_json v) kvs) @ CHR ''}'' # r)
           = Some (kvs, r)"
  using assms
proof (induction kvs arbitrary: f)
  case (Cons kv kvs)
  obtain k v where kv: "kv = (k, v)" by fastforce
  from Cons kv obtain g where f: "f = Suc g" by (cases f) auto
  with Cons.prems kv have v: "need v \<le> g" and kvs: "sum_list (map (\<lambda>(k, v). Suc (need v)) kvs) \<le> g" by auto
  let ?rest = "join '','' (map (\<lambda>(k, v). print_string k @ '':'' @ print_json v) kvs) @ CHR ''}'' # r"
  show ?case
  proof (cases "kvs = []")
    case True
    then show ?thesis using f kv Cons.prems(1) [of k v g "CHR ''}'' # r"] v
      by (simp add: print_string_def parse_string_print)
  next
    case False
    have "parse_members g ?rest = Some (kvs, r)"
    proof (rule Cons.IH)
      show "parse_value f (print_json v @ r) = Some (v, r)"
        if "(k, v) \<in> set kvs" "need v \<le> f" "stops r" for k v f r
        using Cons.prems(1) [of k v f r] that by simp
    qed (use False kvs in auto)
    with False show ?thesis
      using f kv Cons.prems(1) [of k v g "CHR '','' # ?rest"] v
      by (simp add: join_Cons print_string_def parse_string_print)
  qed
qed simp

lemma parse_value_print:
  "numbers_ok v \<Longrightarrow> need v \<le> f \<Longrightarrow> stops r \<Longrightarrow> parse_value f (print_json v @ r) = Some (v, r)"
proof (induction v arbitrary: f r)
  case (JNumber n)
  from JNumber obtain c t where c: "print_number n = c # t" "is_digit c \<or> c = CHR ''-''" by (auto elim: number_head)
  from JNumber obtain g where "f = Suc g" by (cases f) auto
  moreover from c(2) have "c \<notin> {CHR 0x22, CHR ''['', CHR ''{'', CHR ''n'', CHR ''t'', CHR ''f''}"
    by (auto simp: is_digit_def)
  ultimately show ?case using c(1) parse_number_print [of n r] JNumber.prems by simp
next
  case (JString s)
  then obtain g where "f = Suc g" by (cases f) auto
  then show ?case by (simp add: print_string_def parse_string_print)
next
  case (JArray vs)
  from JArray.prems obtain g where f: "f = Suc g" by (cases f) auto
  show ?case
  proof (cases vs)
    case Nil
    then show ?thesis by (simp add: f)
  next
    case (Cons v vs')
    have "parse_elems g (join '','' (map print_json vs) @ CHR '']'' # r) = Some (vs, r)"
      using JArray f Cons by (intro parse_elems_print) auto
    moreover have "expect (CHR '']'') (join '','' (map print_json vs) @ CHR '']'' # r) = None"
      using print_no_close [of v] JArray.prems Cons by (cases "vs' = []") (auto simp: join_Cons)
    ultimately show ?thesis by (simp add: f)
  qed
next
  case (JObject kvs)
  from JObject.prems obtain g where f: "f = Suc g" by (cases f) auto
  show ?case
  proof (cases kvs)
    case Nil
    then show ?thesis by (simp add: f)
  next
    case (Cons kv kvs')
    let ?s = "join '','' (map (\<lambda>(k, v). print_string k @ '':'' @ print_json v) kvs) @ CHR ''}'' # r"
    have "parse_members g ?s = Some (kvs, r)"
      using JObject f Cons by (intro parse_members_print) fastforce+
    moreover have "expect (CHR ''}'') ?s = None"
      using Cons by (cases kv; cases "kvs' = []") (auto simp: join_Cons print_string_def)
    ultimately show ?thesis by (simp add: f)
  qed
next
  case JNull
  then obtain g where "f = Suc g" by (cases f) auto
  then show ?case by (simp add: strip_prefix_def)
next
  case (JBool b)
  then obtain g where "f = Suc g" by (cases f) auto
  then show ?case by (simp add: strip_prefix_def)
qed

lemma need_le_length: "numbers_ok v \<Longrightarrow> need v \<le> length (print_json v)"
proof (induction v)
  case (JNumber n)
  then show ?case by (auto elim!: number_head simp: Suc_le_eq)
next
  case (JArray vs)
  have "sum_list (map (\<lambda>v. Suc (need v)) vs) \<le> Suc (length (join '','' (map print_json vs)))"
    using JArray by (induction vs rule: induct_list012) fastforce+
  then show ?case by simp
next
  case (JObject kvs)
  have "sum_list (map (\<lambda>(k, v). Suc (need v)) kvs)
      \<le> Suc (length (join '','' (map (\<lambda>(k, v). print_string k @ '':'' @ print_json v) kvs)))"
    using JObject by (induction kvs rule: induct_list012) fastforce+
  then show ?case by simp
qed (auto simp: print_string_def)

lemma scan_print_json: "numbers_ok v \<Longrightarrow> scan_json (print_json v) = Inr v"
  using parse_value_print [of v "Suc (length (print_json v))" "[]"] need_le_length [of v]
  by (simp add: scan_json_def)

lemma keep_number_cases: "keep_number n = Some n' \<Longrightarrow> n' = n \<and> number_ok n"
  by (cases n) (auto split: if_splits)

interpretation reference_json: serde_json reference_json
  by unfold_locales (auto simp: reference_json_def scan_print_json dest: keep_number_cases)

end
