(* ===== verification/Protocol.thy ===== *)
theory Protocol
  imports Json_Text
begin

text \<open>
  \<open>safegate-core/src/protocol.rs\<close>: the JSON-RPC and MCP payloads with the deserialisers and
  serialisers that \<open>serde\<close> derives from their attributes. A derived deserialiser walks the
  fields of an object in the order of the text, refuses a known field that occurs twice,
  skips unknown ones, and fills in missing ones from their defaults; it also takes an array
  of the field values in declaration order. \<open>decode_struct\<close> is that routine for a list of
  field descriptions, and the payload types are its instances.
\<close>

section \<open>Derived structure deserialisers\<close>

text \<open>
  A field: its name, how its value is read, and what a missing field stands for (\<open>None\<close>:
  the field is required). An absent optional value is represented by \<^const>\<open>JNull\<close>, which
  \<open>Option<Value>\<close> reads as \<open>None\<close> as well.
\<close>

type_synonym reader = "json \<Rightarrow> de_error + json"
type_synonym field = "string \<times> reader \<times> json option"

definition read_string :: reader where
  "read_string v = (case v of JString s \<Rightarrow> Inr v | _ \<Rightarrow> Inl InvalidType)"

definition read_i32 :: reader where
  "read_i32 v =
     (case v of
        JNumber (PosInt n) \<Rightarrow> if n < 2 ^ 31 then Inr v else Inl InvalidType
      | JNumber (NegInt n) \<Rightarrow> if 0 < n \<and> n \<le> 2 ^ 31 then Inr v else Inl InvalidType
      | _ \<Rightarrow> Inl InvalidType)"

definition read_option :: "reader \<Rightarrow> reader" where
  "read_option rd v = (case v of JNull \<Rightarrow> Inr JNull | _ \<Rightarrow> rd v)"

definition field_reader :: "field list \<Rightarrow> string \<Rightarrow> reader option" where
  "field_reader fs k = map_option fst (map_of fs k)"

fun visit_map :: "field list \<Rightarrow> (string \<rightharpoonup> json) \<Rightarrow> (string \<times> json) list \<Rightarrow> de_error + (string \<rightharpoonup> json)" where
  "visit_map fs slots [] = Inr slots"
| "visit_map fs slots ((k, v) # kvs) =
     (case field_reader fs k of
        None \<Rightarrow> visit_map fs slots kvs
      | Some rd \<Rightarrow>
          if slots k \<noteq> None then Inl (DuplicateField k)
          else (case rd v of Inl e \<Rightarrow> Inl e | Inr x \<Rightarrow> visit_map fs (slots(k \<mapsto> x)) kvs))"

fun fill_fields :: "field list \<Rightarrow> (string \<rightharpoonup> json) \<Rightarrow> de_error + json list" where
  "fill_fields [] slots = Inr []"
| "fill_fields ((k, rd, dflt) # fs) slots =
     (case (case slots k of Some v \<Rightarrow> Some v | None \<Rightarrow> dflt) of
        None \<Rightarrow> Inl (MissingField k)
      | Some v \<Rightarrow> map_sum (\<lambda>e. e) (\<lambda>vs. v # vs) (fill_fields fs slots))"

fun visit_seq :: "nat \<Rightarrow> field list \<Rightarrow> json list \<Rightarrow> de_error + json list" where
  "visit_seq i [] [] = Inr []"
| "visit_seq i [] (v # vs) = Inl TrailingElements"
| "visit_seq i ((k, rd, dflt) # fs) [] =
     (case dflt of
        None \<Rightarrow> Inl (InvalidLength i)
      | Some d \<Rightarrow> map_sum (\<lambda>e. e) (\<lambda>xs. d # xs) (visit_seq (Suc i) fs []))"
| "visit_seq i ((k, rd, dflt) # fs) (v # vs) =
     (case rd v of
        Inl e \<Rightarrow> Inl e
      | Inr x \<Rightarrow> map_sum (\<lambda>e. e) (\<lambda>xs. x # xs) (visit_seq (Suc i) fs vs))"

definition decode_struct :: "field list \<Rightarrow> json \<Rightarrow> de_error + json list" where
  "decode_struct fs v =
     (case v of
        JObject kvs \<Rightarrow>
          (case visit_map fs Map.empty kvs of Inl e \<Rightarrow> Inl e | Inr slots \<Rightarrow> fill_fields fs slots)
      | JArray vs \<Rightarrow> visit_seq 0 fs vs
      | _ \<Rightarrow> Inl InvalidType)"

section \<open>Payload types\<close>

definition jsonrpc_version :: string where
  "jsonrpc_version = ''2.0''"

record JsonRpcRequest =
  req_jsonrpc :: string
  req_id :: json
  req_method :: string
  req_params :: "json option"

record JsonRpcErrorPayload =
  err_code :: int
  err_message :: string
  err_data :: "json option"

record JsonRpcResponse =
  resp_jsonrpc :: string
  resp_id :: json
  resp_result :: "json option"
  resp_error :: "JsonRpcErrorPayload option"

record McpToolCallParams =
  tool_name_param :: string
  arguments :: "json option"

record McpInitializeParams =
  protocol_version :: string
  capabilities :: json
  client_info :: json

subsection \<open>Reading\<close>

text \<open>
  \<open>rv\<close> reads a nested \<open>serde_json::Value\<close>: \<open>read_value\<close> with what the enclosing structure has
  left of the recursion limit when the source is text, and the value itself for \<open>from_value\<close>.
\<close>

fun as_option :: "json \<Rightarrow> json option" where
  "as_option JNull = None"
| "as_option v = Some v"

fun as_string :: "json \<Rightarrow> string" where
  "as_string (JString s) = s"
| "as_string v = []"

fun as_int :: "json \<Rightarrow> int" where
  "as_int (JNumber (PosInt n)) = int n"
| "as_int (JNumber (NegInt n)) = - int n"
| "as_int v = 0"

definition request_fields :: "reader \<Rightarrow> field list" where
  "request_fields rv =
     [(''jsonrpc'', read_string, Some (JString jsonrpc_version)),
      (''id'', rv, None),
      (''method'', read_string, None),
      (''params'', read_option rv, Some JNull)]"

definition decode_request :: "reader \<Rightarrow> json \<Rightarrow> de_error + JsonRpcRequest" where
  "decode_request rv v =
     map_sum (\<lambda>e. e)
       (\<lambda>xs. \<lparr>req_jsonrpc = as_string (xs ! 0), req_id = xs ! 1, req_method = as_string (xs ! 2),
              req_params = as_option (xs ! 3)\<rparr>)
       (decode_struct (request_fields rv) v)"

definition tool_call_fields :: "reader \<Rightarrow> field list" where
  "tool_call_fields rv = [(''name'', read_string, None), (''arguments'', read_option rv, Some JNull)]"

definition decode_tool_call_params :: "reader \<Rightarrow> json \<Rightarrow> de_error + McpToolCallParams" where
  "decode_tool_call_params rv v =
     map_sum (\<lambda>e. e) (\<lambda>xs. \<lparr>tool_name_param = as_string (xs ! 0), arguments = as_option (xs ! 1)\<rparr>)
       (decode_struct (tool_call_fields rv) v)"

definition initialize_fields :: "reader \<Rightarrow> field list" where
  "initialize_fields rv =
     [(''protocolVersion'', read_string, None), (''capabilities'', rv, None), (''clientInfo'', rv, None)]"

definition decode_initialize_params :: "reader \<Rightarrow> json \<Rightarrow> de_error + McpInitializeParams" where
  "decode_initialize_params rv v =
     map_sum (\<lambda>e. e)
       (\<lambda>xs. \<lparr>protocol_version = as_string (xs ! 0), capabilities = xs ! 1, client_info = xs ! 2\<rparr>)
       (decode_struct (initialize_fields rv) v)"

definition error_payload_fields :: "reader \<Rightarrow> field list" where
  "error_payload_fields rv =
     [(''code'', read_i32, None), (''message'', read_string, None), (''data'', read_option rv, Some JNull)]"

definition decode_error_payload :: "reader \<Rightarrow> json \<Rightarrow> de_error + JsonRpcErrorPayload" where
  "decode_error_payload rv v =
     map_sum (\<lambda>e. e)
       (\<lambda>xs. \<lparr>err_code = as_int (xs ! 0), err_message = as_string (xs ! 1), err_data = as_option (xs ! 2)\<rparr>)
       (decode_struct (error_payload_fields rv) v)"

text \<open>
  The nested error payload is read when its field is visited; the slot keeps the document,
  from which the payload is built at the end.
\<close>

definition read_error_payload :: "reader \<Rightarrow> reader" where
  "read_error_payload rv v = map_sum (\<lambda>e. e) (\<lambda>_. v) (decode_error_payload rv v)"

definition response_fields :: "reader \<Rightarrow> reader \<Rightarrow> field list" where
  "response_fields rv rv_inner =
     [(''jsonrpc'', read_string, Some (JString jsonrpc_version)),
      (''id'', rv, None),
      (''result'', read_option rv, Some JNull),
      (''error'', read_option (read_error_payload rv_inner), Some JNull)]"

definition decode_response :: "reader \<Rightarrow> reader \<Rightarrow> json \<Rightarrow> de_error + JsonRpcResponse" where
  "decode_response rv rv_inner v =
     map_sum (\<lambda>e. e)
       (\<lambda>xs. \<lparr>resp_jsonrpc = as_string (xs ! 0), resp_id = xs ! 1, resp_result = as_option (xs ! 2),
              resp_error = (case as_option (xs ! 3) of
                  None \<Rightarrow> None
                | Some p \<Rightarrow> (case decode_error_payload rv_inner p of Inl e \<Rightarrow> None | Inr q \<Rightarrow> Some q))\<rparr>)
       (decode_struct (response_fields rv rv_inner) v)"

text \<open>\<open>serde_json::from_slice::<JsonRpcRequest>\<close> and \<open>serde_json::from_value::<McpToolCallParams>\<close>.\<close>

definition request_from_slice :: "serde_lib \<Rightarrow> string \<Rightarrow> de_error + JsonRpcRequest" where
  "request_from_slice sj s =
     (case json_scan sj s of
        Inl e \<Rightarrow> Inl (Syntax e)
      | Inr d \<Rightarrow> decode_request (read_value sj (RECURSION_LIMIT - 1)) d)"

definition tool_call_params_from_value :: "json \<Rightarrow> de_error + McpToolCallParams" where
  "tool_call_params_from_value v = decode_tool_call_params Inr v"

subsection \<open>Writing\<close>

text \<open>Serialisation writes the fields in declaration order; \<open>skip_if_none\<close> is \<open>skip_serializing_if\<close>.\<close>

definition skip_if_none :: "string \<Rightarrow> json option \<Rightarrow> (string \<times> json) list" where
  "skip_if_none k x = (case x of None \<Rightarrow> [] | Some v \<Rightarrow> [(k, v)])"

definition encode_int :: "int \<Rightarrow> json" where
  "encode_int i = JNumber (if 0 \<le> i then PosInt (nat i) else NegInt (nat (- i)))"

definition encode_request :: "JsonRpcRequest \<Rightarrow> json" where
  "encode_request r =
     JObject ([(''jsonrpc'', JString (req_jsonrpc r)), (''id'', req_id r), (''method'', JString (req_method r))]
       @ skip_if_none ''params'' (req_params r))"

definition encode_error_payload :: "JsonRpcErrorPayload \<Rightarrow> json" where
  "encode_error_payload p =
     JObject ([(''code'', encode_int (err_code p)), (''message'', JString (err_message p))]
       @ skip_if_none ''data'' (err_data p))"

definition encode_response :: "JsonRpcResponse \<Rightarrow> json" where
  "encode_response r =
     JObject ([(''jsonrpc'', JString (resp_jsonrpc r)), (''id'', resp_id r)]
       @ skip_if_none ''result'' (resp_result r)
       @ skip_if_none ''error'' (map_option encode_error_payload (resp_error r)))"

definition encode_tool_call_params :: "McpToolCallParams \<Rightarrow> json" where
  "encode_tool_call_params p =
     JObject ([(''name'', JString (tool_name_param p))] @ skip_if_none ''arguments'' (arguments p))"

definition encode_initialize_params :: "McpInitializeParams \<Rightarrow> json" where
  "encode_initialize_params p =
     JObject [(''protocolVersion'', JString (protocol_version p)), (''capabilities'', capabilities p),
              (''clientInfo'', client_info p)]"

section \<open>What the derived deserialisers accept\<close>

definition occurrences :: "string \<Rightarrow> (string \<times> json) list \<Rightarrow> json list" where
  "occurrences k kvs = map snd (filter (\<lambda>kv. fst kv = k) kvs)"

lemma occurrences_Nil [simp]: "occurrences k [] = []"
  by (simp add: occurrences_def)

lemma occurrences_Cons [simp]:
  "occurrences k ((k', v) # kvs) = (if k' = k then [v] else []) @ occurrences k kvs"
  by (simp add: occurrences_def)

text \<open>What one known field ends up as: read from its only occurrence, or untouched.\<close>

lemma visit_map_field:
  assumes "visit_map fs slots kvs = Inr slots'" and "field_reader fs k = Some rd"
  shows "occurrences k kvs = [] \<and> slots' k = slots k
    \<or> slots k = None \<and> (\<exists>v x. occurrences k kvs = [v] \<and> rd v = Inr x \<and> slots' k = Some x)"
  using assms
proof (induction fs slots kvs rule: visit_map.induct)
  case (2 fs slots k' v kvs)
  show ?case
  proof (cases "field_reader fs k'")
    case None
    with 2 show ?thesis by (cases "k' = k") auto
  next
    case (Some rd')
    with "2.prems" obtain x where x: "slots k' = None" "rd' v = Inr x" "visit_map fs (slots(k' \<mapsto> x)) kvs = Inr slots'"
      by (auto split: if_splits sum.splits)
    have "\<not> slots k' \<noteq> None" using x(1) by simp
    from "2.IH"(2) [OF Some this x(2,3) "2.prems"(2)]
    show ?thesis using x Some "2.prems"(2) by (cases "k' = k") auto
  qed
qed simp

lemma decode_struct_object:
  assumes "decode_struct fs (JObject kvs) = Inr xs"
  obtains slots where "fill_fields fs slots = Inr xs"
    and "\<And>k rd. field_reader fs k = Some rd \<Longrightarrow> occurrences k kvs = [] \<and> slots k = None
          \<or> (\<exists>v x. occurrences k kvs = [v] \<and> rd v = Inr x \<and> slots k = Some x)"
proof -
  from assms obtain slots where slots: "visit_map fs Map.empty kvs = Inr slots" "fill_fields fs slots = Inr xs"
    by (auto simp: decode_struct_def split: sum.splits)
  show ?thesis
    by (rule that [OF slots(2)]) (use visit_map_field [OF slots(1)] in fastforce)
qed

lemma read_string_Inr_iff [simp]: "read_string v = Inr x \<longleftrightarrow> (\<exists>s. v = JString s \<and> x = JString s)"
  by (auto simp: read_string_def split: json.splits)

lemma decode_request_object:
  assumes "decode_request rv (JObject kvs) = Inr r"
  shows "length (occurrences ''jsonrpc'' kvs) \<le> 1"
    and "\<exists>i. occurrences ''id'' kvs = [i] \<and> rv i = Inr (req_id r)"
    and "occurrences ''method'' kvs = [JString (req_method r)]"
    and "occurrences ''params'' kvs = [] \<and> req_params r = None
      \<or> (\<exists>p x. occurrences ''params'' kvs = [p] \<and> read_option rv p = Inr x \<and> req_params r = as_option x)"
proof -
  from assms obtain xs where xs: "decode_struct (request_fields rv) (JObject kvs) = Inr xs"
    and r: "r = \<lparr>req_jsonrpc = as_string (xs ! 0), req_id = xs ! 1, req_method = as_string (xs ! 2),
              req_params = as_option (xs ! 3)\<rparr>"
    by (auto simp: decode_request_def)
  from xs obtain slots where fill: "fill_fields (request_fields rv) slots = Inr xs"
    and field: "\<And>k rd. field_reader (request_fields rv) k = Some rd \<Longrightarrow> occurrences k kvs = [] \<and> slots k = None
          \<or> (\<exists>v x. occurrences k kvs = [v] \<and> rd v = Inr x \<and> slots k = Some x)"
    by (rule decode_struct_object) blast
  note f = field [of "''jsonrpc''" read_string] field [of "''id''" rv] field [of "''method''" read_string]
    field [of "''params''" "read_option rv"]
  show "length (occurrences ''jsonrpc'' kvs) \<le> 1"
    using f(1) by (auto simp: field_reader_def request_fields_def)
  show "\<exists>i. occurrences ''id'' kvs = [i] \<and> rv i = Inr (req_id r)"
    using f(2) fill r by (auto simp: field_reader_def request_fields_def split: option.splits)
  show "occurrences ''method'' kvs = [JString (req_method r)]"
    using f(3) fill r by (auto simp: field_reader_def request_fields_def split: option.splits)
  show "occurrences ''params'' kvs = [] \<and> req_params r = None
      \<or> (\<exists>p x. occurrences ''params'' kvs = [p] \<and> read_option rv p = Inr x \<and> req_params r = as_option x)"
    using f(4) fill r by (auto simp: field_reader_def request_fields_def split: option.splits)
qed

lemma decode_tool_call_object:
  assumes "decode_tool_call_params rv (JObject kvs) = Inr p"
  shows "occurrences ''name'' kvs = [JString (tool_name_param p)]"
    and "occurrences ''arguments'' kvs = [] \<and> arguments p = None
      \<or> (\<exists>a x. occurrences ''arguments'' kvs = [a] \<and> read_option rv a = Inr x \<and> arguments p = as_option x)"
proof -
  from assms obtain xs where xs: "decode_struct (tool_call_fields rv) (JObject kvs) = Inr xs"
    and p: "p = \<lparr>tool_name_param = as_string (xs ! 0), arguments = as_option (xs ! 1)\<rparr>"
    by (auto simp: decode_tool_call_params_def)
  from xs obtain slots where fill: "fill_fields (tool_call_fields rv) slots = Inr xs"
    and field: "\<And>k rd. field_reader (tool_call_fields rv) k = Some rd \<Longrightarrow> occurrences k kvs = [] \<and> slots k = None
          \<or> (\<exists>v x. occurrences k kvs = [v] \<and> rd v = Inr x \<and> slots k = Some x)"
    by (rule decode_struct_object) blast
  note f = field [of "''name''" read_string] field [of "''arguments''" "read_option rv"]
  show "occurrences ''name'' kvs = [JString (tool_name_param p)]"
    using f(1) fill p by (auto simp: field_reader_def tool_call_fields_def split: option.splits)
  show "occurrences ''arguments'' kvs = [] \<and> arguments p = None
      \<or> (\<exists>a x. occurrences ''arguments'' kvs = [a] \<and> read_option rv a = Inr x \<and> arguments p = as_option x)"
    using f(2) fill p by (auto simp: field_reader_def tool_call_fields_def split: option.splits)
qed

section \<open>Round trips\<close>

abbreviation nested_value :: "serde_lib \<Rightarrow> json \<Rightarrow> bool" where
  "nested_value sj v \<equiv> is_value v \<and> exact_numbers sj v \<and> json_depth v \<le> RECURSION_LIMIT - 1"

definition exact_request :: "serde_lib \<Rightarrow> JsonRpcRequest \<Rightarrow> bool" where
  "exact_request sj r \<longleftrightarrow> exact_numbers sj (req_id r)
     \<and> (case req_params r of None \<Rightarrow> True | Some p \<Rightarrow> exact_numbers sj p)"

definition wf_request :: "serde_lib \<Rightarrow> JsonRpcRequest \<Rightarrow> bool" where
  "wf_request sj r \<longleftrightarrow> nested_value sj (req_id r)
     \<and> (case req_params r of None \<Rightarrow> True | Some p \<Rightarrow> p \<noteq> JNull \<and> nested_value sj p)"

definition wf_response :: "serde_lib \<Rightarrow> JsonRpcResponse \<Rightarrow> bool" where
  "wf_response sj r \<longleftrightarrow> nested_value sj (resp_id r)
     \<and> (case resp_result r of None \<Rightarrow> True | Some v \<Rightarrow> v \<noteq> JNull \<and> nested_value sj v)
     \<and> (case resp_error r of None \<Rightarrow> True | Some p \<Rightarrow>
          - (2 ^ 31) \<le> err_code p \<and> err_code p < 2 ^ 31
          \<and> (case err_data p of None \<Rightarrow> True | Some v \<Rightarrow>
               v \<noteq> JNull \<and> is_value v \<and> exact_numbers sj v \<and> json_depth v \<le> RECURSION_LIMIT - 2))"

lemmas decode_simps = decode_struct_def field_reader_def read_option_def

lemma as_option_Some [simp]: "v \<noteq> JNull \<Longrightarrow> as_option v = Some v"
  by (cases v) auto

lemma read_option_Some [simp]: "v \<noteq> JNull \<Longrightarrow> read_option rd v = rd v"
  by (auto simp: read_option_def split: json.splits)

lemma read_option_JNull [simp]: "read_option rd JNull = Inr JNull"
  by (simp add: read_option_def)

lemma read_string_JString [simp]: "read_string (JString s) = Inr (JString s)"
  by simp

lemma decode_encode_request:
  assumes "rv (req_id r) = Inr (req_id r)"
    and "\<And>p. req_params r = Some p \<Longrightarrow> p \<noteq> JNull \<and> rv p = Inr p"
  shows "decode_request rv (encode_request r) = Inr r"
proof (cases "req_params r")
  case None
  with assms show ?thesis
    by (simp add: decode_request_def decode_struct_def encode_request_def skip_if_none_def request_fields_def
        field_reader_def)
next
  case (Some p)
  with assms(2) have "p \<noteq> JNull" "rv p = Inr p" by auto
  with Some assms(1) show ?thesis
    by (simp add: decode_request_def decode_struct_def encode_request_def skip_if_none_def request_fields_def
        field_reader_def)
qed

lemma encode_int_reads:
  "- (2 ^ 31) \<le> i \<Longrightarrow> i < 2 ^ 31 \<Longrightarrow> read_i32 (encode_int i) = Inr (encode_int i)"
  "as_int (encode_int i) = i"
  by (auto simp: read_i32_def encode_int_def nat_less_iff nat_le_iff)

lemma numbers_ok_encode_int: "numbers_ok (encode_int i)"
  by (simp add: encode_int_def)

lemma decode_encode_error_payload:
  assumes "- (2 ^ 31) \<le> err_code p" "err_code p < 2 ^ 31"
    and "\<And>d. err_data p = Some d \<Longrightarrow> d \<noteq> JNull \<and> rv d = Inr d"
  shows "decode_error_payload rv (encode_error_payload p) = Inr p"
proof (cases "err_data p")
  case None
  with assms show ?thesis
    by (simp add: decode_error_payload_def decode_struct_def encode_error_payload_def skip_if_none_def
        error_payload_fields_def field_reader_def encode_int_reads)
next
  case (Some d)
  with assms(3) have "d \<noteq> JNull" "rv d = Inr d" by auto
  with Some assms show ?thesis
    by (simp add: decode_error_payload_def decode_struct_def encode_error_payload_def skip_if_none_def
        error_payload_fields_def field_reader_def encode_int_reads)
qed

lemma decode_encode_response:
  assumes "rv (resp_id r) = Inr (resp_id r)"
    and "\<And>v. resp_result r = Some v \<Longrightarrow> v \<noteq> JNull \<and> rv v = Inr v"
    and "\<And>p. resp_error r = Some p \<Longrightarrow> decode_error_payload rv' (encode_error_payload p) = Inr p"
  shows "decode_response rv rv' (encode_response r) = Inr r"
proof -
  have obj: "encode_error_payload p \<noteq> JNull" for p by (simp add: encode_error_payload_def)
  have "read_error_payload rv' (encode_error_payload p) = Inr (encode_error_payload p)" if "resp_error r = Some p" for p
    using assms(3) [OF that] by (simp add: read_error_payload_def)
  with assms obj show ?thesis
    by (cases "resp_result r"; cases "resp_error r")
      (simp_all add: decode_response_def decode_struct_def encode_response_def skip_if_none_def
        response_fields_def field_reader_def)
qed

lemma decode_request_array:
  assumes "decode_request rv (JArray vs) = Inr r"
  shows "\<exists>i. rv i = Inr (req_id r)"
    and "req_params r = None \<or> (\<exists>p x. read_option rv p = Inr x \<and> req_params r = as_option x)"
proof -
  from assms obtain xs where xs: "visit_seq 0 (request_fields rv) vs = Inr xs"
    and r: "r = \<lparr>req_jsonrpc = as_string (xs ! 0), req_id = xs ! 1, req_method = as_string (xs ! 2),
              req_params = as_option (xs ! 3)\<rparr>"
    by (auto simp: decode_request_def decode_struct_def)
  from xs r show "\<exists>i. rv i = Inr (req_id r)"
    unfolding request_fields_def by (cases vs; cases "tl vs") (auto split: sum.splits)
  from xs r show "req_params r = None \<or> (\<exists>p x. read_option rv p = Inr x \<and> req_params r = as_option x)"
    unfolding request_fields_def
    by (cases vs; cases "tl vs"; cases "tl (tl vs)"; cases "tl (tl (tl vs))") (auto split: sum.splits, blast)
qed

lemma decode_request_values:
  assumes "decode_request rv d = Inr r"
  shows "\<exists>i. rv i = Inr (req_id r)"
    and "\<And>p. req_params r = Some p \<Longrightarrow> p \<noteq> JNull \<and> (\<exists>q. rv q = Inr p)"
proof -
  have *: "(\<exists>i. rv i = Inr (req_id r))
    \<and> (req_params r = None \<or> (\<exists>p x. read_option rv p = Inr x \<and> req_params r = as_option x))"
  proof (cases d)
    case (JObject kvs)
    with assms decode_request_object [of rv kvs r] show ?thesis by blast
  next
    case (JArray vs)
    with assms decode_request_array [of rv vs r] show ?thesis by blast
  qed (use assms in \<open>auto simp: decode_request_def decode_struct_def\<close>)
  then show "\<exists>i. rv i = Inr (req_id r)" by blast
  fix p assume "req_params r = Some p"
  with * obtain q x where "read_option rv q = Inr x" and x: "as_option x = Some p" by auto
  moreover from x have "p \<noteq> JNull" "x = p" by (cases x; auto)+
  ultimately show "p \<noteq> JNull \<and> (\<exists>q. rv q = Inr p)" by (cases "q = JNull") auto
qed

context serde_json
begin

lemma decoded_request_values:
  assumes "request_from_slice sj s = Inr r"
  shows "is_value (req_id r)" and "json_depth (req_id r) \<le> RECURSION_LIMIT - 1"
    and "\<And>p. req_params r = Some p \<Longrightarrow> p \<noteq> JNull \<and> is_value p \<and> json_depth p \<le> RECURSION_LIMIT - 1"
  using assms decode_request_values [of "read_value sj (RECURSION_LIMIT - 1)" _ r]
  by (auto simp: request_from_slice_def split: sum.splits dest: read_value_is_value)

lemma decoded_request_wf: "request_from_slice sj s = Inr r \<Longrightarrow> exact_request sj r \<Longrightarrow> wf_request sj r"
  using decoded_request_values [of s r] by (simp add: wf_request_def exact_request_def split: option.splits)

lemma request_text_round_trip:
  assumes "wf_request sj r"
  shows "request_from_slice sj (json_print sj (encode_request r)) = Inr r"
proof -
  from assms have "numbers_ok (encode_request r)"
    by (auto simp: wf_request_def encode_request_def skip_if_none_def is_value_def split: option.splits)
  moreover from assms have "decode_request (read_value sj (RECURSION_LIMIT - 1)) (encode_request r) = Inr r"
    by (intro decode_encode_request) (auto simp: wf_request_def read_value_id)
  ultimately show ?thesis by (simp add: request_from_slice_def scan_print)
qed

lemma response_text_round_trip:
  assumes "wf_response sj r"
  shows "\<exists>d. json_scan sj (json_print sj (encode_response r)) = Inr d
    \<and> decode_response (read_value sj (RECURSION_LIMIT - 1)) (read_value sj (RECURSION_LIMIT - 2)) d = Inr r"
proof -
  from assms have "numbers_ok (encode_response r)"
    by (cases "resp_result r"; cases "resp_error r"; cases "err_data (the (resp_error r))")
      (simp_all add: wf_response_def encode_response_def skip_if_none_def encode_error_payload_def
        is_value_def numbers_ok_encode_int)
  moreover from assms have "decode_response (read_value sj (RECURSION_LIMIT - 1)) (read_value sj (RECURSION_LIMIT - 2))
      (encode_response r) = Inr r"
    by (intro decode_encode_response decode_encode_error_payload) (auto simp: wf_response_def read_value_id)
  ultimately show ?thesis using scan_print by blast
qed

end

section \<open>Properties\<close>

text \<open>
  C26. The request that \<open>from_slice\<close> reads from any accepted body, object or array form, is a
  fixed point of printing and reading, provided that its numbers are exact (each is read as itself,
  as integers of 64 bits are; a floating-point number may change when it is read again): what
  the gateway decides on is then exactly what its own serialiser would put on the wire.
\<close>

theorem request_normal_form:
  assumes "serde_json sj" and "request_from_slice sj body = Inr r" and "exact_request sj r"
  shows "request_from_slice sj (json_print sj (encode_request r)) = Inr r"
  using serde_json.request_text_round_trip [OF assms(1)] serde_json.decoded_request_wf [OF assms] by blast

theorem request_normal_form_witness:
  "request_from_slice reference_json
     (json_print reference_json (encode_request
        \<lparr>req_jsonrpc = ''2.0'', req_id = JNumber (PosInt 7), req_method = ''add'',
         req_params = Some (JArray [JNumber (NegInt 2)])\<rparr>))
   = Inr \<lparr>req_jsonrpc = ''2.0'', req_id = JNumber (PosInt 7), req_method = ''add'',
         req_params = Some (JArray [JNumber (NegInt 2)])\<rparr>"
proof -
  have r: "request_from_slice reference_json (print_json (JObject [(''method'', JString ''add''), (''x'', JBool True),
      (''params'', JArray [JNumber (NegInt 2)]), (''id'', JNumber (PosInt 7))]))
    = Inr \<lparr>req_jsonrpc = ''2.0'', req_id = JNumber (PosInt 7), req_method = ''add'',
         req_params = Some (JArray [JNumber (NegInt 2)])\<rparr>"
    by code_simp
  show ?thesis
    by (rule request_normal_form [OF reference_json.serde_json_axioms r])
      (simp add: exact_request_def reference_json.exact_integers)
qed

text \<open>
  Responses round trip: every well-formed response, with a 32-bit code and data within the
  recursion limit, is read back as it was written.
\<close>

theorem response_round_trip:
  assumes "serde_json sj" and "wf_response sj r"
  shows "\<exists>d. json_scan sj (json_print sj (encode_response r)) = Inr d
    \<and> decode_response (read_value sj (RECURSION_LIMIT - 1)) (read_value sj (RECURSION_LIMIT - 2)) d = Inr r"
  by (rule serde_json.response_text_round_trip [OF assms])

theorem response_round_trip_witness:
  "\<exists>d. json_scan reference_json (json_print reference_json (encode_response
      \<lparr>resp_jsonrpc = ''2.0'', resp_id = JNumber (PosInt 42), resp_result = None,
       resp_error = Some \<lparr>err_code = -32600, err_message = ''Invalid Request'', err_data = Some (JString ''x'')\<rparr>\<rparr>)) = Inr d
    \<and> decode_response (read_value reference_json (RECURSION_LIMIT - 1)) (read_value reference_json (RECURSION_LIMIT - 2)) d
      = Inr \<lparr>resp_jsonrpc = ''2.0'', resp_id = JNumber (PosInt 42), resp_result = None,
       resp_error = Some \<lparr>err_code = -32600, err_message = ''Invalid Request'', err_data = Some (JString ''x'')\<rparr>\<rparr>"
  by (rule response_round_trip [OF reference_json.serde_json_axioms])
    (simp add: wf_response_def is_value_def exact_numbers_def reference_json_def RECURSION_LIMIT_def)

text \<open>
  C31. An accepted object body names \<open>id\<close> and \<open>method\<close> exactly once and \<open>params\<close> at most once, and
  the request carries the values of those occurrences: two readers of the body cannot
  disagree on them.
\<close>

theorem request_fields_unambiguous:
  assumes "json_scan sj body = Inr (JObject kvs)" and "request_from_slice sj body = Inr r"
  shows "(\<exists>i. occurrences ''id'' kvs = [i] \<and> read_value sj (RECURSION_LIMIT - 1) i = Inr (req_id r))
    \<and> occurrences ''method'' kvs = [JString (req_method r)]
    \<and> (occurrences ''params'' kvs = [] \<and> req_params r = None
       \<or> (\<exists>p. occurrences ''params'' kvs = [p] \<and> (p = JNull \<and> req_params r = None
            \<or> (\<exists>x. read_value sj (RECURSION_LIMIT - 1) p = Inr x \<and> req_params r = as_option x))))"
proof -
  from assms have r: "decode_request (read_value sj (RECURSION_LIMIT - 1)) (JObject kvs) = Inr r"
    by (simp add: request_from_slice_def)
  from decode_request_object(4) [OF r]
  have "occurrences ''params'' kvs = [] \<and> req_params r = None
       \<or> (\<exists>p. occurrences ''params'' kvs = [p] \<and> (p = JNull \<and> req_params r = None
            \<or> (\<exists>x. read_value sj (RECURSION_LIMIT - 1) p = Inr x \<and> req_params r = as_option x)))"
    by (fastforce simp: read_option_def split: json.splits)
  with decode_request_object(2,3) [OF r] show ?thesis by blast
qed

theorem request_fields_unambiguous_witness:
  "(\<exists>i. occurrences ''id'' [(''id'', JNull), (''method'', JString ''ping'')] = [i]
        \<and> read_value reference_json (RECURSION_LIMIT - 1) i = Inr JNull)
    \<and> occurrences ''method'' [(''id'', JNull), (''method'', JString ''ping'')] = [JString ''ping'']"
proof -
  let ?kvs = "[(''id'', JNull), (''method'', JString ''ping'')]"
  let ?body = "print_json (JObject [(''id'', JNull), (''method'', JString ''ping'')])"
  let ?r = "\<lparr>req_jsonrpc = ''2.0'', req_id = JNull, req_method = ''ping'', req_params = None\<rparr>"
  have "json_scan reference_json ?body = Inr (JObject ?kvs)" by code_simp
  moreover have "request_from_slice reference_json ?body = Inr ?r" by code_simp
  ultimately show ?thesis using request_fields_unambiguous [of reference_json ?body ?kvs ?r] by simp
qed

text \<open>
  A JSON-RPC notification, which by definition carries no \<open>id\<close>, is never accepted: an object
  body without that field is always an error.
\<close>

theorem notifications_rejected:
  assumes "json_scan sj body = Inr (JObject kvs)" and "occurrences ''id'' kvs = []"
  shows "\<exists>e. request_from_slice sj body = Inl e"
proof (rule ccontr)
  assume "\<nexists>e. request_from_slice sj body = Inl e"
  then obtain r where "request_from_slice sj body = Inr r" by (cases "request_from_slice sj body") auto
  then have "decode_request (read_value sj (RECURSION_LIMIT - 1)) (JObject kvs) = Inr r"
    using assms(1) by (simp add: request_from_slice_def)
  from decode_request_object(2) [OF this] assms(2) show False by simp
qed

theorem notifications_rejected_witness:
  "\<exists>e. request_from_slice reference_json
     (print_json (JObject [(''jsonrpc'', JString ''2.0''), (''method'', JString ''notifications/initialized'')])) = Inl e"
proof (rule notifications_rejected)
  show "json_scan reference_json
     (print_json (JObject [(''jsonrpc'', JString ''2.0''), (''method'', JString ''notifications/initialized'')]))
     = Inr (JObject [(''jsonrpc'', JString ''2.0''), (''method'', JString ''notifications/initialized'')])"
    by code_simp
qed simp

end
