(* ===== verification/Audit_Record.thy ===== *)
theory Audit_Record
  imports Core_Types Protocol
begin

text \<open>
  \<open>safegate-audit/src/lib.rs\<close>: audit records, their HMAC signature and their JSON form. A
  timestamp is a count of nanoseconds; \<open>chrono\<close>'s text form, HMAC-SHA256 and the hex encoding
  are parameters (\<open>audit_lib\<close>) with the promises of the locale \<open>audit_crates\<close>: a printed
  time is read back, and hex encoding loses nothing. Nothing is assumed of the MAC: the
  theorems on tampering name the two messages on which it would have to collide.
\<close>

section \<open>Model\<close>

datatype AuditDecision = AuditAllow | AuditDeny string | AuditRedactArgs string

record AuditLogEntry =
  entry_timestamp :: nat
  entry_trace_id :: string
  entry_tenant_id :: "string option"
  entry_agent_id :: string
  entry_tool_name :: string
  entry_decision :: AuditDecision
  entry_latency_us :: nat
  entry_signature :: string

record audit_lib =
  hmac_sha256 :: "string \<Rightarrow> string \<Rightarrow> string"
  hex_encode :: "string \<Rightarrow> string"
  time_print :: "nat \<Rightarrow> string"
  time_parse :: "string \<Rightarrow> nat option"

subsection \<open>Serialisation\<close>

fun encode_decision :: "AuditDecision \<Rightarrow> json" where
  "encode_decision AuditAllow = JObject [(''kind'', JString ''Allow'')]"
| "encode_decision (AuditDeny r) = JObject [(''kind'', JString ''Deny''), (''detail'', JString r)]"
| "encode_decision (AuditRedactArgs a) = JObject [(''kind'', JString ''RedactArgs''), (''detail'', JString a)]"

definition encode_tenant :: "string option \<Rightarrow> json" where
  "encode_tenant t = (case t of None \<Rightarrow> JNull | Some s \<Rightarrow> JString s)"

text \<open>The fields before \<open>signature\<close>, which are also those of the signed \<open>Body\<close>.\<close>

definition body_fields :: "audit_lib \<Rightarrow> AuditLogEntry \<Rightarrow> (string \<times> json) list" where
  "body_fields al e =
     [(''timestamp'', JString (time_print al (entry_timestamp e))),
      (''trace_id'', JString (entry_trace_id e)),
      (''tenant_id'', encode_tenant (entry_tenant_id e)),
      (''agent_id'', JString (entry_agent_id e)),
      (''tool_name'', JString (entry_tool_name e)),
      (''decision'', encode_decision (entry_decision e)),
      (''latency_us'', JNumber (PosInt (entry_latency_us e)))]"

definition encode_entry :: "audit_lib \<Rightarrow> AuditLogEntry \<Rightarrow> json" where
  "encode_entry al e = JObject (body_fields al e @ [(''signature'', JString (entry_signature e))])"

subsection \<open>Signing and verifying\<close>

definition canonical_body :: "serde_lib \<Rightarrow> audit_lib \<Rightarrow> AuditLogEntry \<Rightarrow> string" where
  "canonical_body sj al e = json_print sj (JObject (body_fields al e))"

definition compute_signature :: "serde_lib \<Rightarrow> audit_lib \<Rightarrow> AuditLogEntry \<Rightarrow> string \<Rightarrow> string" where
  "compute_signature sj al e key = hex_encode al (hmac_sha256 al key (canonical_body sj al e))"

definition entry_new ::
  "serde_lib \<Rightarrow> audit_lib \<Rightarrow> nat \<Rightarrow> string \<Rightarrow> string option \<Rightarrow> string \<Rightarrow> string \<Rightarrow> AuditDecision \<Rightarrow> nat
   \<Rightarrow> string \<Rightarrow> AuditLogEntry" where
  "entry_new sj al time trace tenant agent tool decision latency hmac_secret =
     (let entry = \<lparr>entry_timestamp = time, entry_trace_id = trace, entry_tenant_id = tenant,
            entry_agent_id = agent, entry_tool_name = tool, entry_decision = decision,
            entry_latency_us = latency, entry_signature = []\<rparr>
      in entry\<lparr>entry_signature := compute_signature sj al entry hmac_secret\<rparr>)"

definition verify :: "serde_lib \<Rightarrow> audit_lib \<Rightarrow> AuditLogEntry \<Rightarrow> string \<Rightarrow> bool" where
  "verify sj al e hmac_secret =
     (let expected = compute_signature sj al e hmac_secret
      in hmac_sha256 al hmac_secret expected = hmac_sha256 al hmac_secret (entry_signature e))"

subsection \<open>Deserialisation\<close>

definition read_u128 :: reader where
  "read_u128 v =
     (case v of JNumber (PosInt n) \<Rightarrow> if int n < 2 ^ 128 then Inr v else Inl InvalidType | _ \<Rightarrow> Inl InvalidType)"

definition read_time :: "audit_lib \<Rightarrow> reader" where
  "read_time al v =
     (case v of JString s \<Rightarrow> if time_parse al s = None then Inl InvalidType else Inr v | _ \<Rightarrow> Inl InvalidType)"

text \<open>The adjacently tagged form of \<open>AuditDecision\<close>: the tag names the variant, which reads the content.\<close>

definition read_kind :: reader where
  "read_kind v =
     (case v of
        JString s \<Rightarrow> if s \<in> {''Allow'', ''Deny'', ''RedactArgs''} then Inr v else Inl (UnknownVariant s)
      | _ \<Rightarrow> Inl InvalidType)"

definition variant_of :: "string \<Rightarrow> json option \<Rightarrow> de_error + AuditDecision" where
  "variant_of kind content =
     (if kind = ''Allow''
      then (case content of None \<Rightarrow> Inr AuditAllow | Some JNull \<Rightarrow> Inr AuditAllow | Some _ \<Rightarrow> Inl InvalidType)
      else (case content of
          None \<Rightarrow> Inl (MissingField ''detail'')
        | Some (JString s) \<Rightarrow> Inr (if kind = ''Deny'' then AuditDeny s else AuditRedactArgs s)
        | Some _ \<Rightarrow> Inl InvalidType))"

definition decode_decision :: "json \<Rightarrow> de_error + AuditDecision" where
  "decode_decision v =
     (case v of
        JObject kvs \<Rightarrow>
          (case visit_map [(''kind'', read_kind, None), (''detail'', Inr, None)] Map.empty kvs of
             Inl e \<Rightarrow> Inl e
           | Inr slots \<Rightarrow>
               (case slots ''kind'' of
                  None \<Rightarrow> Inl (MissingField ''kind'')
                | Some kind \<Rightarrow> variant_of (as_string kind) (slots ''detail'')))
      | JArray [kind, content] \<Rightarrow>
          (case read_kind kind of Inl e \<Rightarrow> Inl e | Inr k \<Rightarrow> variant_of (as_string k) (Some content))
      | JArray (a # b # c # rest) \<Rightarrow> Inl TrailingElements
      | JArray vs \<Rightarrow> Inl (InvalidLength (length vs))
      | _ \<Rightarrow> Inl InvalidType)"

definition read_decision :: reader where
  "read_decision v = map_sum (\<lambda>e. e) (\<lambda>_. v) (decode_decision v)"

definition entry_fields :: "audit_lib \<Rightarrow> field list" where
  "entry_fields al =
     [(''timestamp'', read_time al, None),
      (''trace_id'', read_string, None),
      (''tenant_id'', read_option read_string, Some JNull),
      (''agent_id'', read_string, None),
      (''tool_name'', read_string, None),
      (''decision'', read_decision, None),
      (''latency_us'', read_u128, None),
      (''signature'', read_string, None)]"

definition decode_entry :: "audit_lib \<Rightarrow> json \<Rightarrow> de_error + AuditLogEntry" where
  "decode_entry al v =
     map_sum (\<lambda>e. e)
       (\<lambda>xs. \<lparr>entry_timestamp = (case time_parse al (as_string (xs ! 0)) of None \<Rightarrow> 0 | Some t \<Rightarrow> t),
              entry_trace_id = as_string (xs ! 1),
              entry_tenant_id = map_option as_string (as_option (xs ! 2)),
              entry_agent_id = as_string (xs ! 3),
              entry_tool_name = as_string (xs ! 4),
              entry_decision = (case decode_decision (xs ! 5) of Inl e \<Rightarrow> AuditAllow | Inr d \<Rightarrow> d),
              entry_latency_us = nat (as_int (xs ! 6)),
              entry_signature = as_string (xs ! 7)\<rparr>)
       (decode_struct (entry_fields al) v)"

text \<open>\<open>serde_json::from_str::<AuditLogEntry>\<close>.\<close>

definition entry_from_str :: "serde_lib \<Rightarrow> audit_lib \<Rightarrow> string \<Rightarrow> de_error + AuditLogEntry" where
  "entry_from_str sj al s =
     (case json_scan sj s of Inl e \<Rightarrow> Inl (Syntax e) | Inr d \<Rightarrow> decode_entry al d)"

section \<open>What the crates promise\<close>

locale audit_crates = serde_json sj for sj +
  fixes al :: audit_lib
  assumes hex_encode_inj: "hex_encode al a = hex_encode al b \<Longrightarrow> a = b"
    and time_round_trip: "time_parse al (time_print al t) = Some t"
begin

lemma hex_encode_eq: "hex_encode al a = hex_encode al b \<longleftrightarrow> a = b"
  by (auto dest: hex_encode_inj)

lemma time_print_inj [simp]: "time_print al t = time_print al t' \<longleftrightarrow> t = t'"
  by (metis option.inject time_round_trip)

end

definition same_body :: "AuditLogEntry \<Rightarrow> AuditLogEntry \<Rightarrow> bool" where
  "same_body e e' \<longleftrightarrow>
     entry_timestamp e = entry_timestamp e' \<and> entry_trace_id e = entry_trace_id e'
     \<and> entry_tenant_id e = entry_tenant_id e' \<and> entry_agent_id e = entry_agent_id e'
     \<and> entry_tool_name e = entry_tool_name e' \<and> entry_decision e = entry_decision e'
     \<and> entry_latency_us e = entry_latency_us e'"

lemma encode_decision_inj [simp]: "encode_decision d = encode_decision d' \<longleftrightarrow> d = d'"
  by (cases d; cases d') auto

lemma encode_tenant_inj [simp]: "encode_tenant t = encode_tenant t' \<longleftrightarrow> t = t'"
  by (auto simp: encode_tenant_def split: option.splits)

lemma numbers_ok_body: "numbers_ok (JObject (body_fields al e))"
  by (cases "entry_decision e") (auto simp: body_fields_def encode_tenant_def split: option.splits)

lemma body_fields_signature [simp]: "body_fields al (e\<lparr>entry_signature := s\<rparr>) = body_fields al e"
  by (simp add: body_fields_def)

lemma compute_signature_signature [simp]:
  "compute_signature sj al (e\<lparr>entry_signature := s\<rparr>) key = compute_signature sj al e key"
  by (simp add: compute_signature_def canonical_body_def)

lemma entry_new_signed:
  "entry_signature (entry_new sj al time trace tenant agent tool decision latency key)
     = compute_signature sj al (entry_new sj al time trace tenant agent tool decision latency key) key"
  unfolding entry_new_def Let_def compute_signature_signature by simp

lemma decode_encode_decision [simp]: "decode_decision (encode_decision d) = Inr d"
  by (cases d) (auto simp: decode_decision_def field_reader_def read_kind_def variant_of_def)

lemma read_decision_encode [simp]: "read_decision (encode_decision d) = Inr (encode_decision d)"
  by (simp add: read_decision_def)

context audit_crates
begin

lemma body_fields_inj: "body_fields al e = body_fields al e' \<longleftrightarrow> same_body e e'"
  by (auto simp: body_fields_def same_body_def)

lemma canonical_body_inj: "canonical_body sj al e = canonical_body sj al e' \<longleftrightarrow> same_body e e'"
  using print_inj [OF numbers_ok_body [of al e] numbers_ok_body [of al e']] body_fields_inj [of e e']
  by (auto simp: canonical_body_def)

lemma tampering:
  assumes signed: "entry_signature e = compute_signature sj al e key"
    and kept: "entry_signature e' = entry_signature e"
    and mac: "inj_on (hmac_sha256 al key)
      {canonical_body sj al e, canonical_body sj al e', entry_signature e', compute_signature sj al e' key}"
  shows "verify sj al e' key \<longleftrightarrow> same_body e e'"
proof
  assume "verify sj al e' key"
  then have "compute_signature sj al e' key = entry_signature e'"
    using inj_onD [OF mac, of "compute_signature sj al e' key" "entry_signature e'"]
    by (simp add: verify_def Let_def)
  with signed kept have "hmac_sha256 al key (canonical_body sj al e') = hmac_sha256 al key (canonical_body sj al e)"
    by (simp add: compute_signature_def hex_encode_eq)
  then have "canonical_body sj al e' = canonical_body sj al e" 
    using inj_onD [OF mac, of "canonical_body sj al e'" "canonical_body sj al e"] by simp
  then show "same_body e e'" using canonical_body_inj [of e e'] by simp
next
  assume "same_body e e'"
  then have "compute_signature sj al e' key = entry_signature e'"
    using signed kept canonical_body_inj [of e e'] by (simp add: compute_signature_def)
  then show "verify sj al e' key" by (simp add: verify_def)
qed

lemma entry_round_trip:
  assumes "entry_latency_us e < 2 ^ 128"
  shows "entry_from_str sj al (json_print sj (encode_entry al e)) = Inr e"
proof -
  have "numbers_ok (encode_entry al e)"
    using numbers_ok_body [of al e] by (auto simp: encode_entry_def)
  moreover have "int (entry_latency_us e) < 2 ^ 128"
    using assms by (metis of_nat_less_iff of_nat_numeral of_nat_power)
  moreover have "read_option read_string (encode_tenant t) = Inr (encode_tenant t)"
    and "map_option as_string (as_option (encode_tenant t)) = t" for t
    by (cases t; simp add: encode_tenant_def)+
  ultimately show ?thesis
    by (simp add: entry_from_str_def scan_print decode_entry_def decode_struct_def encode_entry_def body_fields_def
        entry_fields_def field_reader_def read_time_def read_u128_def time_round_trip)
qed

end

section \<open>A concrete instance\<close>

text \<open>
  Lower-case hexadecimal, the decimal count of nanoseconds as the time's text, and the message
  prefixed with the key in place of the MAC: an instance of the interface for the witnesses.
\<close>

definition hex_of :: "string \<Rightarrow> string" where
  "hex_of s = concat (map (\<lambda>c. [hex_digit (of_char c div 16), hex_digit (of_char c mod 16)]) s)"

definition prefix_mac :: "string \<Rightarrow> string \<Rightarrow> string" where
  "prefix_mac key m = key @ m"

definition reference_audit :: audit_lib where
  "reference_audit =
     \<lparr>hmac_sha256 = prefix_mac, hex_encode = hex_of, time_print = show_nat,
      time_parse = \<lambda>s. if list_all is_digit s \<and> s \<noteq> [] then Some (read_nat s) else None\<rparr>"

lemma hex_digit_inj: "m < 16 \<Longrightarrow> n < 16 \<Longrightarrow> hex_digit m = hex_digit n \<longleftrightarrow> m = n"
  by (metis hex_value_digit option.inject)

lemma hex_of_inj: "hex_of a = hex_of b \<Longrightarrow> a = b"
proof (induction a arbitrary: b)
  case Nil
  then show ?case by (cases b) (auto simp: hex_of_def)
next
  case (Cons c a)
  then obtain d b' where b: "b = d # b'" by (cases b) (auto simp: hex_of_def)
  have lt: "(of_char x :: nat) div 16 < 16" "(of_char x :: nat) mod 16 < 16" for x
    using nat_of_char_less_256 [of x] by linarith+
  from Cons.prems b have "(of_char c :: nat) div 16 = of_char d div 16" "(of_char c :: nat) mod 16 = of_char d mod 16"
    and "hex_of a = hex_of b'" by (auto simp: hex_of_def hex_digit_inj lt)
  then have "(of_char c :: nat) = of_char d" by (metis div_mult_mod_eq)
  with Cons.IH \<open>hex_of a = hex_of b'\<close> b show ?case by simp
qed

interpretation reference_audit: audit_crates reference_json reference_audit
  by unfold_locales (auto simp: reference_audit_def is_digit_show_nat dest: hex_of_inj)

section \<open>Properties\<close>

text \<open>Every entry that \<open>AuditLogEntry::new\<close> builds verifies under the key it was signed with.\<close>

theorem new_entry_verifies:
  "verify sj al (entry_new sj al time trace tenant agent tool decision latency key) key"
  using entry_new_signed by (simp add: verify_def)

text \<open>
  C20. Tampering is detected: keep the signature of a signed entry and change any other field, and
  \<open>verify\<close> fails, unless the MAC collides on the two canonical bodies or on the two hex strings
  that \<open>verify\<close> compares. With the fields unchanged it succeeds.
\<close>

theorem tampering_detected:
  assumes "audit_crates sj al"
    and "e = entry_new sj al time trace tenant agent tool decision latency key"
    and "entry_signature e' = entry_signature e"
    and "inj_on (hmac_sha256 al key)
      {canonical_body sj al e, canonical_body sj al e', entry_signature e', compute_signature sj al e' key}"
  shows "verify sj al e' key \<longleftrightarrow> same_body e e'"
proof (rule audit_crates.tampering [OF assms(1) _ assms(3,4)])
  show "entry_signature e = compute_signature sj al e key" using assms(2) entry_new_signed by blast
qed

definition sample_entry :: AuditLogEntry where
  "sample_entry = entry_new reference_json reference_audit 5 ''t'' (Some ''acme'') ''a'' ''x'' AuditAllow 42 ''k''"

theorem tampering_detected_witness:
  "\<not> verify reference_json reference_audit (sample_entry\<lparr>entry_agent_id := ''b''\<rparr>) ''k''"
proof -
  let ?e' = "sample_entry\<lparr>entry_agent_id := ''b''\<rparr>"
  have "inj_on (hmac_sha256 reference_audit ''k'')
      {canonical_body reference_json reference_audit sample_entry, canonical_body reference_json reference_audit ?e',
       entry_signature ?e', compute_signature reference_json reference_audit ?e' ''k''}"
    by (rule inj_onI) (simp add: reference_audit_def prefix_mac_def)
  moreover have "\<not> same_body sample_entry ?e'"
    by (simp add: same_body_def sample_entry_def entry_new_def Let_def)
  ultimately show ?thesis
    using tampering_detected [OF reference_audit.audit_crates_axioms sample_entry_def, of ?e'] by (simp add: sample_entry_def)
qed

text \<open>
  A record survives the log: the JSON that \<open>serde_json::to_string\<close> writes for an entry is read
  back as that entry, for any 128-bit latency.
\<close>

theorem entry_json_round_trip:
  assumes "audit_crates sj al" and "entry_latency_us e < 2 ^ 128"
  shows "entry_from_str sj al (json_print sj (encode_entry al e)) = Inr e"
  by (rule audit_crates.entry_round_trip [OF assms])

theorem entry_json_round_trip_witness:
  "entry_from_str reference_json reference_audit (json_print reference_json (encode_entry reference_audit sample_entry))
     = Inr sample_entry"
  by (rule entry_json_round_trip [OF reference_audit.audit_crates_axioms])
    (simp add: sample_entry_def entry_new_def)

end
