(* ===== verification/Audit_Writer.thy ===== *)
theory Audit_Writer
  imports Audit_Record
begin

text \<open>
  \<open>safegate-audit/src/writer.rs\<close>: the logger's unbounded channel and its background writer.
  The channel is a queue; the writer appends to a \<open>BufWriter\<close>, whose buffered and written
  bytes are kept apart. Every I/O operation takes its outcome as an argument: success, or
  failure after a number of bytes (a buffer that spills before its flush is not told apart
  from one that does not, since only the order of the bytes matters here).
  The concurrent system of request handlers and writer is the step relation \<open>audit_step\<close>.
\<close>

section \<open>Buffered output\<close>

datatype io = IoOk | IoErr nat

record BufWriter =
  bw_out :: string
  bw_buf :: string

definition write_all :: "BufWriter \<Rightarrow> string \<Rightarrow> io \<Rightarrow> BufWriter \<times> bool" where
  "write_all w chunk r =
     (case r of
        IoOk \<Rightarrow> (w\<lparr>bw_buf := bw_buf w @ chunk\<rparr>, True)
      | IoErr n \<Rightarrow> (w\<lparr>bw_buf := bw_buf w @ take n chunk\<rparr>, False))"

definition flush :: "BufWriter \<Rightarrow> io \<Rightarrow> BufWriter \<times> bool" where
  "flush w r =
     (case r of
        IoOk \<Rightarrow> (w\<lparr>bw_out := bw_out w @ bw_buf w, bw_buf := []\<rparr>, True)
      | IoErr n \<Rightarrow> (w\<lparr>bw_out := bw_out w @ take n (bw_buf w), bw_buf := drop n (bw_buf w)\<rparr>, False))"

definition newline :: string where
  "newline = [CHR 0x0A]"

type_synonym line_io = "io \<times> io \<times> io"

definition write_line :: "BufWriter \<Rightarrow> string \<Rightarrow> line_io \<Rightarrow> BufWriter \<times> bool" where
  "write_line w line r =
     (case r of (r1, r2, r3) \<Rightarrow>
        (case write_all w line r1 of
           (w, False) \<Rightarrow> (w, False)
         | (w, True) \<Rightarrow>
             (case write_all w newline r2 of
                (w, False) \<Rightarrow> (w, False)
              | (w, True) \<Rightarrow> flush w r3)))"

section \<open>The logger and its writer\<close>

datatype AuditSink = File string | Stdout

text \<open>
  One turn of the loop of \<open>write_entries\<close>; the error of a failed write is only logged. The branch
  that skips an entry which cannot be serialised is left out: an entry holds strings and numbers
  under string keys, for which \<open>serde_json::to_string\<close> has no error.
\<close>

definition write_entry :: "serde_lib \<Rightarrow> audit_lib \<Rightarrow> BufWriter \<Rightarrow> AuditLogEntry \<Rightarrow> line_io \<Rightarrow> BufWriter \<times> bool" where
  "write_entry sj al w entry r = write_line w (json_print sj (encode_entry al entry)) r"

fun write_entries :: "serde_lib \<Rightarrow> audit_lib \<Rightarrow> BufWriter \<Rightarrow> (AuditLogEntry \<times> line_io) list \<Rightarrow> io \<Rightarrow> BufWriter" where
  "write_entries sj al w [] r = fst (flush w r)"
| "write_entries sj al w ((entry, ios) # rx) r = write_entries sj al (fst (write_entry sj al w entry ios)) rx r"

text \<open>\<open>opened\<close> is the outcome of opening the file; standard output needs no opening.\<close>

definition writer_task ::
  "serde_lib \<Rightarrow> audit_lib \<Rightarrow> AuditSink \<Rightarrow> bool \<Rightarrow> string \<Rightarrow> (AuditLogEntry \<times> line_io) list \<Rightarrow> io \<Rightarrow> string" where
  "writer_task sj al sink opened content rx r =
     (case sink of
        File path \<Rightarrow>
          if opened then bw_out (write_entries sj al \<lparr>bw_out = content, bw_buf = []\<rparr> rx r) else content
      | Stdout \<Rightarrow> bw_out (write_entries sj al \<lparr>bw_out = content, bw_buf = []\<rparr> rx r))"

datatype phase = Starting | Running | Stopped

text \<open>
  The system: the channel (its queue, whether the receiver is gone, whether a sender is
  left), the writer, and as history what was handed to \<open>log\<close>, what the writer took from the
  channel, and whether a write failed.
\<close>

record AuditLogger =
  hmac_secret :: string
  sink :: AuditSink
  phase :: phase
  queue :: "AuditLogEntry list"
  senders :: bool
  writer :: BufWriter
  sent :: "AuditLogEntry list"
  taken :: "AuditLogEntry list"
  io_failed :: bool

definition audit_logger_new :: "AuditSink \<Rightarrow> string \<Rightarrow> AuditLogger" where
  "audit_logger_new sk secret =
     \<lparr>hmac_secret = secret, sink = sk, phase = Starting, queue = [], senders = True,
      writer = \<lparr>bw_out = [], bw_buf = []\<rparr>, sent = [], taken = [], io_failed = False\<rparr>"

definition audit_logger_stdout :: "string \<Rightarrow> AuditLogger" where
  "audit_logger_stdout secret = audit_logger_new Stdout secret"

definition log_entry :: "AuditLogger \<Rightarrow> AuditLogEntry \<Rightarrow> AuditLogger" where
  "log_entry s e =
     (if phase s = Stopped then s
      else s\<lparr>queue := queue s @ [e], sent := sent s @ [e]\<rparr>)"

definition open_sink :: "AuditLogger \<Rightarrow> bool \<Rightarrow> AuditLogger" where
  "open_sink s opened =
     (if (case sink s of File path \<Rightarrow> opened | Stdout \<Rightarrow> True) then s\<lparr>phase := Running\<rparr>
      else s\<lparr>phase := Stopped, queue := [], io_failed := True\<rparr>)"

definition recv_entry :: "serde_lib \<Rightarrow> audit_lib \<Rightarrow> AuditLogger \<Rightarrow> line_io \<Rightarrow> AuditLogger" where
  "recv_entry sj al s r =
     (case queue s of
        [] \<Rightarrow> s
      | e # q \<Rightarrow>
          (case write_entry sj al (writer s) e r of (w, ok) \<Rightarrow>
             s\<lparr>queue := q, writer := w, taken := taken s @ [e], io_failed := io_failed s \<or> \<not> ok\<rparr>))"

definition finish :: "AuditLogger \<Rightarrow> io \<Rightarrow> AuditLogger" where
  "finish s r = s\<lparr>phase := Stopped, writer := fst (flush (writer s) r)\<rparr>"

inductive audit_step :: "serde_lib \<Rightarrow> audit_lib \<Rightarrow> AuditLogger \<Rightarrow> AuditLogger \<Rightarrow> bool" for sj al where
  log: "senders s \<Longrightarrow> audit_step sj al s (log_entry s e)"
| start: "phase s = Starting \<Longrightarrow> audit_step sj al s (open_sink s opened)"
| recv: "phase s = Running \<Longrightarrow> queue s \<noteq> [] \<Longrightarrow> audit_step sj al s (recv_entry sj al s r)"
| drop_sender: "senders s \<Longrightarrow> audit_step sj al s (s\<lparr>senders := False\<rparr>)"
| finish: "phase s = Running \<Longrightarrow> queue s = [] \<Longrightarrow> \<not> senders s \<Longrightarrow> audit_step sj al s (finish s r)"

inductive audit_reachable :: "serde_lib \<Rightarrow> audit_lib \<Rightarrow> AuditLogger \<Rightarrow> AuditLogger \<Rightarrow> bool" for sj al s0 where
  initial: "audit_reachable sj al s0 s0"
| step: "audit_reachable sj al s0 s \<Longrightarrow> audit_step sj al s s' \<Longrightarrow> audit_reachable sj al s0 s'"

section \<open>What is written\<close>

text \<open>The log the records should make: one line of JSON each.\<close>

definition log_text :: "serde_lib \<Rightarrow> audit_lib \<Rightarrow> AuditLogEntry list \<Rightarrow> string" where
  "log_text sj al es = concat (map (\<lambda>e. json_print sj (encode_entry al e) @ newline) es)"

lemma log_text_simps [simp]:
  "log_text sj al [] = []"
  "log_text sj al (e # es) = json_print sj (encode_entry al e) @ newline @ log_text sj al es"
  "log_text sj al (es @ fs) = log_text sj al es @ log_text sj al fs"
  by (simp_all add: log_text_def)

lemma write_line_ok:
  "bw_buf w = [] \<Longrightarrow> snd (write_line w line r) \<Longrightarrow>
     write_line w line r = (\<lparr>bw_out = bw_out w @ line @ newline, bw_buf = []\<rparr>, True)"
  by (cases w; cases r) (auto simp: write_line_def write_all_def flush_def split: io.splits)

lemma write_entries_ok:
  assumes "bw_buf w = []" and "\<forall>x \<in> set rx. snd x = (IoOk, IoOk, IoOk)"
  shows "bw_out (write_entries sj al w rx IoOk) = bw_out w @ log_text sj al (map fst rx)"
  using assms
proof (induction rx arbitrary: w)
  case Nil
  then show ?case by (simp add: flush_def)
next
  case (Cons x rx)
  obtain e ios where x: "x = (e, ios)" by (cases x)
  have "ios = (IoOk, IoOk, IoOk)" using Cons.prems x by auto
  then have "write_entry sj al w e ios
      = (\<lparr>bw_out = bw_out w @ json_print sj (encode_entry al e) @ newline, bw_buf = []\<rparr>, True)"
    using Cons.prems(1) by (cases w) (simp add: write_entry_def write_line_def write_all_def flush_def)
  with Cons x show ?case by simp
qed

definition audit_inv :: "serde_lib \<Rightarrow> audit_lib \<Rightarrow> AuditLogger \<Rightarrow> bool" where
  "audit_inv sj al s \<longleftrightarrow>
     (phase s \<noteq> Stopped \<or> \<not> io_failed s \<longrightarrow> taken s @ queue s = sent s)
     \<and> (phase s = Starting \<longrightarrow> taken s = [])
     \<and> (phase s = Stopped \<and> \<not> io_failed s \<longrightarrow> queue s = [])
     \<and> (\<not> io_failed s \<longrightarrow> bw_buf (writer s) = [] \<and> bw_out (writer s) = log_text sj al (taken s))"

lemma audit_inv_new: "audit_inv sj al (audit_logger_new sk secret)"
  by (simp add: audit_inv_def audit_logger_new_def)

lemma audit_inv_recv:
  assumes "audit_inv sj al s" and "phase s = Running" and "queue s \<noteq> []"
  shows "audit_inv sj al (recv_entry sj al s r)"
proof -
  obtain e q where q: "queue s = e # q" using assms(3) by (cases "queue s") auto
  obtain w ok where w: "write_entry sj al (writer s) e r = (w, ok)" by fastforce
  have "ok \<Longrightarrow> \<not> io_failed s \<Longrightarrow>
      w = \<lparr>bw_out = bw_out (writer s) @ json_print sj (encode_entry al e) @ newline, bw_buf = []\<rparr>"
    using assms(1) w write_line_ok [of "writer s" "json_print sj (encode_entry al e)" r]
    by (auto simp: audit_inv_def write_entry_def)
  with assms q w show ?thesis by (auto simp: audit_inv_def recv_entry_def)
qed

lemma audit_inv_step: "audit_step sj al s s' \<Longrightarrow> audit_inv sj al s \<Longrightarrow> audit_inv sj al s'"
proof (induction rule: audit_step.induct)
  case (recv s r)
  then show ?case by (simp add: audit_inv_recv)
next
  case (start s opened)
  then show ?case by (auto simp: audit_inv_def open_sink_def split: AuditSink.splits if_splits)
next
  case (finish s r)
  then show ?case by (cases r) (auto simp: audit_inv_def finish_def flush_def)
qed (auto simp: audit_inv_def log_entry_def)

lemma audit_inv_reachable: "audit_reachable sj al s0 s \<Longrightarrow> audit_inv sj al s0 \<Longrightarrow> audit_inv sj al s"
  by (induction rule: audit_reachable.induct) (auto intro: audit_inv_step)

section \<open>Reading the log back\<close>

text \<open>Compact JSON holds no line feed; with that the lines of the log are its records.\<close>

locale json_lines = audit_crates sj al for sj al +
  assumes print_no_newline: "numbers_ok v \<Longrightarrow> CHR 0x0A \<notin> set (json_print sj v)"
begin

lemma numbers_ok_entry: "numbers_ok (encode_entry al e)"
  using numbers_ok_body [of al e] by (auto simp: encode_entry_def)

lemma log_text_lines:
  "split_char (CHR 0x0A) (log_text sj al es) = map (\<lambda>e. json_print sj (encode_entry al e)) es @ [[]]"
proof (induction es)
  case (Cons e es)
  then show ?case
    using split_char_append [OF print_no_newline [OF numbers_ok_entry [of e]], of "log_text sj al es"]
    by (simp add: newline_def)
qed simp

lemma log_text_read:
  assumes "\<And>e. e \<in> set es \<Longrightarrow> entry_latency_us e < 2 ^ 128"
  shows "map (entry_from_str sj al) (butlast (split_char (CHR 0x0A) (log_text sj al es))) = map Inr es"
  using assms by (simp add: log_text_lines entry_round_trip)

end

lemma hex_digit_no_newline: "n < 16 \<Longrightarrow> CHR 0x0A \<noteq> hex_digit n"
proof
  assume "n < 16" and "CHR 0x0A = hex_digit n"
  with hex_value_digit [of n] have "hex_value (CHR 0x0A) = Some n" by simp
  then show False by (simp add: hex_value_def)
qed

lemma escape_no_newline: "CHR 0x0A \<notin> set (escape_char c)"
proof -
  have "(of_char c :: nat) div 16 < 16" "(of_char c :: nat) mod 16 < 16"
    using nat_of_char_less_256 [of c] by linarith+
  then show ?thesis by (auto simp: escape_char_def hex_digit_no_newline)
qed

lemma print_string_no_newline: "CHR 0x0A \<notin> set (print_string s)"
  using escape_no_newline by (auto simp: print_string_def)

lemma print_number_no_newline: "number_ok n \<Longrightarrow> CHR 0x0A \<notin> set (print_number n)"
proof -
  have d: "CHR 0x0A \<notin> set (show_nat k)" for k
    using is_digit_show_nat [of k] by (auto simp: list_all_iff is_digit_def)
  assume "number_ok n"
  then show ?thesis
  proof (cases n)
    case (Float t)
    have "\<not> num_char (CHR 0x0A)" by (simp add: num_char_def is_digit_def)
    with Float \<open>number_ok n\<close> show ?thesis by (auto simp: float_text_def list_all_iff)
  qed (use d in auto)
qed

lemma set_join: "set (join d ts) \<subseteq> set d \<union> (\<Union>t \<in> set ts. set t)"
  by (induction d ts rule: join.induct) auto

lemma join_no_newline: "(\<And>t. t \<in> set ts \<Longrightarrow> CHR 0x0A \<notin> set t) \<Longrightarrow> CHR 0x0A \<notin> set (join '','' ts)"
  using set_join [of "'',''" ts] by auto

lemma print_json_no_newline: "numbers_ok v \<Longrightarrow> CHR 0x0A \<notin> set (print_json v)"
proof (induction v rule: print_json.induct)
  case (5 vs)
  then show ?case using set_join [of "'',''" "map print_json vs"] by auto
next
  case (6 kvs)
  let ?ts = "map (\<lambda>(k, v). print_string k @ '':'' @ print_json v) kvs"
  have "CHR 0x0A \<notin> set t" if t: "t \<in> set ?ts" for t
  proof -
    from t obtain k v where "(k, v) \<in> set kvs" "t = print_string k @ '':'' @ print_json v" by auto
    with 6 print_string_no_newline [of k] show ?thesis by auto
  qed
  then have "CHR 0x0A \<notin> set (join '','' ?ts)" by (rule join_no_newline)
  then show ?case by simp
qed (auto simp: print_number_no_newline print_string_no_newline)

interpretation reference_lines: json_lines reference_json reference_audit
  by unfold_locales (simp add: reference_json_def print_json_no_newline)

section \<open>Properties\<close>

text \<open>
  C21. As long as no opening of the file and no write has failed, no audit record is lost,
  duplicated or reordered: in every state that an interleaving of handlers and writer reaches
  without an I/O error, what the writer took followed by what is still queued is exactly what
  was accepted for logging, the sink holds one line per record taken, in order, with nothing left
  in the buffer, and when the writer has stopped the sink holds every record.
\<close>

theorem audit_log_complete:
  assumes "audit_reachable sj al (audit_logger_new sk secret) s" and "\<not> io_failed s"
  shows "taken s @ queue s = sent s \<and> bw_out (writer s) = log_text sj al (taken s) \<and> bw_buf (writer s) = []
    \<and> (phase s = Stopped \<longrightarrow> bw_out (writer s) = log_text sj al (sent s))"
  using audit_inv_reachable [OF assms(1) audit_inv_new] assms(2) by (auto simp: audit_inv_def)

lemma reachable_one:
  "audit_reachable reference_json reference_audit (audit_logger_new Stdout ''k'')
     (log_entry (audit_logger_new Stdout ''k'') sample_entry)"
  by (intro audit_reachable.step [OF audit_reachable.initial] audit_step.log) (simp add: audit_logger_new_def)

theorem audit_log_complete_witness:
  "taken (log_entry (audit_logger_new Stdout ''k'') sample_entry) @ queue (log_entry (audit_logger_new Stdout ''k'') sample_entry)
     = [sample_entry]"
  using audit_log_complete [OF reachable_one] by (simp add: log_entry_def audit_logger_new_def)

lemma drain:
  assumes "phase s = Running" and "\<not> senders s" and "audit_inv sj al s" and "\<not> io_failed s"
  shows "\<exists>s'. audit_reachable sj al s s' \<and> phase s' = Stopped \<and> \<not> io_failed s' \<and> sent s' = sent s"
  using assms
proof (induction "queue s" arbitrary: s)
  case Nil
  then have "audit_step sj al s (finish s IoOk)" by (intro audit_step.finish) auto
  then have "audit_reachable sj al s (finish s IoOk)" by (rule audit_reachable.step [OF audit_reachable.initial])
  with Nil show ?case by (intro exI [of _ "finish s IoOk"]) (simp add: finish_def)
next
  case (Cons e q)
  let ?s = "recv_entry sj al s (IoOk, IoOk, IoOk)"
  have st: "audit_step sj al s ?s" using Cons by (intro audit_step.recv) auto
  have "queue s = e # q" using Cons by simp
  then have s: "queue ?s = q" "phase ?s = Running" "\<not> senders ?s" "\<not> io_failed ?s" "sent ?s = sent s"
    using Cons.prems by (auto simp: recv_entry_def write_entry_def write_line_def write_all_def flush_def)
  obtain s' where "audit_reachable sj al ?s s'" "phase s' = Stopped" "\<not> io_failed s'" "sent s' = sent s"
    using Cons.hyps(1) [OF s(1) [symmetric] s(2,3) audit_inv_step [OF st Cons.prems(3)] s(4)] s(5) by auto
  moreover have "audit_reachable sj al s s'"
    using \<open>audit_reachable sj al ?s s'\<close>
    by induction (auto intro: audit_reachable.step [OF audit_reachable.initial st] audit_reachable.step)
  ultimately show ?case by blast
qed

text \<open>
  C30. Shutdown drains the queue: once every sender is gone, a running writer whose I/O succeeds
  reaches its end with every record ever logged in the sink.
\<close>

theorem audit_log_drains:
  assumes "audit_reachable sj al (audit_logger_new sk secret) s"
    and "phase s = Running" and "\<not> senders s" and "\<not> io_failed s"
  shows "\<exists>s'. audit_reachable sj al s s' \<and> phase s' = Stopped \<and> bw_out (writer s') = log_text sj al (sent s)"
proof -
  have inv: "audit_inv sj al s" by (rule audit_inv_reachable [OF assms(1) audit_inv_new])
  from drain [OF assms(2,3) inv assms(4)] obtain s' where s': "audit_reachable sj al s s'"
    "phase s' = Stopped" "\<not> io_failed s'" "sent s' = sent s" by blast
  with audit_inv_reachable [OF s'(1) inv] show ?thesis by (auto simp: audit_inv_def)
qed

lemma reachable_closed:
  "audit_reachable reference_json reference_audit (audit_logger_new Stdout ''k'')
     ((open_sink (log_entry (audit_logger_new Stdout ''k'') sample_entry) True)\<lparr>senders := False\<rparr>)"
proof -
  let ?s = "log_entry (audit_logger_new Stdout ''k'') sample_entry"
  have "audit_step reference_json reference_audit ?s (open_sink ?s True)"
    by (rule audit_step.start) (simp add: audit_logger_new_def log_entry_def)
  moreover have "audit_step reference_json reference_audit (open_sink ?s True) ((open_sink ?s True)\<lparr>senders := False\<rparr>)"
    by (rule audit_step.drop_sender) (simp add: audit_logger_new_def log_entry_def open_sink_def)
  ultimately show ?thesis using reachable_one by (meson audit_reachable.step)
qed

theorem audit_log_drains_witness:
  "\<exists>s'. audit_reachable reference_json reference_audit
      ((open_sink (log_entry (audit_logger_new Stdout ''k'') sample_entry) True)\<lparr>senders := False\<rparr>) s'
    \<and> phase s' = Stopped \<and> bw_out (writer s') = log_text reference_json reference_audit [sample_entry]"
  using audit_log_drains [OF reachable_closed]
  by (simp add: audit_logger_new_def log_entry_def open_sink_def)

text \<open>
  C22. The log is readable: appending records to a file whose I/O succeeds adds exactly one line per
  record after what the file held, and parsing those lines gives the records back.
\<close>

theorem audit_log_readable:
  assumes "json_lines sj al" and "\<And>e. e \<in> set es \<Longrightarrow> entry_latency_us e < 2 ^ 128"
  shows "\<exists>added. writer_task sj al (File path) True content (map (\<lambda>e. (e, (IoOk, IoOk, IoOk))) es) IoOk = content @ added
    \<and> map (entry_from_str sj al) (butlast (split_char (CHR 0x0A) added)) = map Inr es"
proof -
  have "writer_task sj al (File path) True content (map (\<lambda>e. (e, (IoOk, IoOk, IoOk))) es) IoOk
      = content @ log_text sj al es"
    by (auto simp: writer_task_def write_entries_ok o_def)
  with json_lines.log_text_read [OF assms] show ?thesis by blast
qed

theorem audit_log_readable_witness:
  "\<exists>added. writer_task reference_json reference_audit (File ''audit.jsonl'') True ''x''
       [(sample_entry, (IoOk, IoOk, IoOk))] IoOk = ''x'' @ added
    \<and> map (entry_from_str reference_json reference_audit) (butlast (split_char (CHR 0x0A) added)) = [Inr sample_entry]"
  using audit_log_readable [OF reference_lines.json_lines_axioms, of "[sample_entry]" "''audit.jsonl''" "''x''"]
  by (simp add: sample_entry_def entry_new_def)

text \<open>
  A failed write is not undone: when the line feed of one record cannot be written, the next
  record is appended to the same line, so that two records share a line.
\<close>

theorem torn_line_joins_records:
  "bw_out (write_entries sj al \<lparr>bw_out = [], bw_buf = []\<rparr>
       [(e1, (IoOk, IoErr 0, r)), (e2, (IoOk, IoOk, IoOk))] IoOk)
   = json_print sj (encode_entry al e1) @ json_print sj (encode_entry al e2) @ newline"
  by (simp add: write_entry_def write_line_def write_all_def flush_def)

end
