(* ===== verification/Policy_Engine.thy ===== *)
theory Policy_Engine
  imports Core_Types Protocol
begin

text \<open>
  \<open>safegate-wasm/src/lib.rs\<close> and \<open>sandbox.rs\<close>: the policy engine around a compiled component,
  and the example policy. Wasmtime is the parameter \<open>wasm_lib\<close>: creating the runtime, compiling
  the bytes of a file, instantiating a component and calling its export. Instantiation and
  call receive the time until the store's epoch deadline is reached and return the time they
  took. The deadline is enforced by checks in the code of the component only: a call into the
  host that is under way, such as a WASI sleep, is not interrupted, so the time taken may exceed
  the deadline (the locale \<open>wasm_runtime\<close> has the excess as a parameter). They run in a fresh host
  state (\<open>WasiState\<close>), which lists what the component may use of the host. What a component
  reads from a clock or a random source is not an input of the model: the parameter stands for
  one course of those readings.

  The epoch counter belongs to the engine, so the timers of other evaluations on the same
  engine advance it too: \<open>evaluate_policy\<close> takes the instants of those ticks, and the delay
  with which the evaluation's own timer fires after the timeout it sleeps.
\<close>

section \<open>Sandbox\<close>

record WasmSandboxConfig =
  max_memory_bytes :: nat
  epoch_deadlines :: nat

definition EXECUTION_TIMEOUT :: duration where
  "EXECUTION_TIMEOUT = from_millis 5"

definition default_sandbox :: WasmSandboxConfig where
  "default_sandbox = \<lparr>max_memory_bytes = 16 * 1024 * 1024, epoch_deadlines = 1\<rparr>"

text \<open>
  The host state of one evaluation. A context lists what is granted: environment variables,
  arguments, preopened directories, inherited standard streams, reachable sockets, and the
  host services that need no grant. The builder starts from a context with nothing but the
  clocks and the random source, which the linker offers to every component.
\<close>

record WasiCtx =
  wasi_env :: "(string \<times> string) list"
  wasi_args :: "string list"
  preopened_dirs :: "string list"
  inherited_streams :: "string list"
  reachable_sockets :: "string list"
  host_services :: "string list"

record StoreLimits =
  memory_size :: "nat option"
  trap_on_grow_failure :: bool

record WasiState =
  wasi_ctx :: WasiCtx
  resource_table :: "nat list"
  store_limits :: StoreLimits

definition built_ctx :: WasiCtx where
  "built_ctx =
     \<lparr>wasi_env = [], wasi_args = [], preopened_dirs = [], inherited_streams = [], reachable_sockets = [],
      host_services = [''clocks'', ''random'']\<rparr>"

definition wasi_state_new :: "WasmSandboxConfig \<Rightarrow> WasiState" where
  "wasi_state_new sb =
     \<lparr>wasi_ctx = built_ctx, resource_table = [],
      store_limits = \<lparr>memory_size = Some (max_memory_bytes sb), trap_on_grow_failure = True\<rparr>\<rparr>"

section \<open>The engine\<close>

datatype PolicyDecision = Allow | Deny string | RedactArgs string

text \<open>The records of the WIT contract.\<close>

record WitContext =
  wit_agent_id :: string
  wit_tenant_id :: string
  wit_roles :: "string list"

record WitRequest =
  wit_tool_name :: string
  wit_arguments_json :: string

record 'c wasm_lib =
  create_engine :: "string option"
  link_wasi :: "string option"
  link_policy :: "string option"
  compile :: "string \<Rightarrow> string + 'c"
  read_error :: "string \<Rightarrow> string"
  instantiate :: "'c \<Rightarrow> WasiState \<Rightarrow> duration \<Rightarrow> duration \<times> (string + unit)"
  call_evaluate :: "'c \<Rightarrow> WasiState \<Rightarrow> WitContext \<Rightarrow> WitRequest \<Rightarrow> duration \<Rightarrow> duration \<times> (string + PolicyDecision)"

record 'c WasmPolicyEngine =
  component :: "'c option"
  sandbox :: WasmSandboxConfig

text \<open>The files that can be read, by path.\<close>

type_synonym files = "string \<rightharpoonup> string"

definition wasm_execution_error :: "string \<Rightarrow> SafeGateError" where
  "wasm_execution_error e = WasmExecutionError e"

definition with_sandbox_config :: "'c wasm_lib \<Rightarrow> WasmSandboxConfig \<Rightarrow> SafeGateError + 'c WasmPolicyEngine" where
  "with_sandbox_config wl sb =
     (case create_engine wl of
        Some e \<Rightarrow> Inl (wasm_execution_error e)
      | None \<Rightarrow>
          (case link_wasi wl of
             Some e \<Rightarrow> Inl (wasm_execution_error e)
           | None \<Rightarrow>
               (case link_policy wl of
                  Some e \<Rightarrow> Inl (wasm_execution_error e)
                | None \<Rightarrow> Inr \<lparr>component = None, sandbox = sb\<rparr>)))"

definition policy_engine_new :: "'c wasm_lib \<Rightarrow> SafeGateError + 'c WasmPolicyEngine" where
  "policy_engine_new wl = with_sandbox_config wl default_sandbox"

definition component_from_file :: "'c wasm_lib \<Rightarrow> files \<Rightarrow> string \<Rightarrow> string + 'c" where
  "component_from_file wl fs path =
     (case fs path of None \<Rightarrow> Inl (read_error wl path) | Some bytes \<Rightarrow> compile wl bytes)"

definition load_component_from_file ::
  "'c wasm_lib \<Rightarrow> files \<Rightarrow> 'c WasmPolicyEngine \<Rightarrow> string \<Rightarrow> 'c WasmPolicyEngine \<times> (SafeGateError + unit)" where
  "load_component_from_file wl fs eng path =
     (case component_from_file wl fs path of
        Inl e \<Rightarrow> (eng, Inl (wasm_execution_error e))
      | Inr c \<Rightarrow> (eng\<lparr>component := Some c\<rparr>, Inr ()))"

text \<open>
  The time left until the epoch has advanced by the deadline: \<open>others\<close> are the instants at
  which other evaluations on this engine tick, and the evaluation's own timer ticks
  \<open>epoch_deadlines\<close> times when it fires, \<open>late\<close> after the timeout.
\<close>

definition epoch_budget :: "nat \<Rightarrow> instant list \<Rightarrow> duration \<Rightarrow> instant \<Rightarrow> duration" where
  "epoch_budget deadlines others late now =
     (if deadlines = 0 then 0
      else sort (filter (\<lambda>t. now \<le> t) (others @ replicate deadlines (now + EXECUTION_TIMEOUT + late)))
             ! (deadlines - 1) - now)"

definition arguments_text :: "serde_lib \<Rightarrow> json option \<Rightarrow> string" where
  "arguments_text sj args = (case args of None \<Rightarrow> ''null'' | Some v \<Rightarrow> json_print sj v)"

definition evaluate_policy ::
  "serde_lib \<Rightarrow> 'c wasm_lib \<Rightarrow> 'c WasmPolicyEngine \<Rightarrow> AgentContext \<Rightarrow> McpToolCallParams
   \<Rightarrow> instant list \<Rightarrow> duration \<Rightarrow> instant \<Rightarrow> duration \<times> (SafeGateError + PolicyDecision)" where
  "evaluate_policy sj wl eng ctx req others late now =
     (case component eng of
        None \<Rightarrow> (0, Inl (WasmExecutionError ''no policy component has been loaded''))
      | Some c \<Rightarrow>
          (let wit_context = \<lparr>wit_agent_id = agent_id ctx, wit_tenant_id = tenant_id ctx, wit_roles = roles ctx\<rparr>;
               wit_request = \<lparr>wit_tool_name = tool_name_param req,
                              wit_arguments_json = arguments_text sj (arguments req)\<rparr>;
               state = wasi_state_new (sandbox eng);
               budget = epoch_budget (epoch_deadlines (sandbox eng)) others late now
           in (case instantiate wl c state budget of
                 (t1, Inl e) \<Rightarrow> (t1, Inl (wasm_execution_error e))
               | (t1, Inr _) \<Rightarrow>
                   (case call_evaluate wl c state wit_context wit_request (budget - t1) of
                      (t2, Inl e) \<Rightarrow> (t1 + t2, Inl (wasm_execution_error e))
                    | (t2, Inr decision) \<Rightarrow> (t1 + t2, Inr decision)))))"

section \<open>The example policy\<close>

definition evaluate_request :: "WitRequest \<Rightarrow> PolicyDecision" where
  "evaluate_request req =
     (if wit_tool_name req \<in> {''dangerous_delete'', ''drop_table''}
      then Deny ''Unsafe action blocked by WASM policy''
      else if contains (wit_arguments_json req) ''secret_key''
      then RedactArgs ''Sensitive arguments were redacted''
      else Allow)"

definition sample_policy_evaluate :: "WitContext \<Rightarrow> WitRequest \<Rightarrow> PolicyDecision" where
  "sample_policy_evaluate ctx req = evaluate_request req"

section \<open>The deadline\<close>

lemma sorted_nth_le:
  fixes xs :: "nat list"
  assumes "sorted xs" and "k < length (filter (\<lambda>x. x \<le> b) xs)"
  shows "xs ! k \<le> b"
proof (rule ccontr)
  assume big: "\<not> xs ! k \<le> b"
  have k: "k < length xs" using assms(2) length_filter_le [of "\<lambda>x. x \<le> b" xs] by linarith
  have "filter (\<lambda>x. x \<le> b) (drop k xs) = []"
  proof -
    have "\<not> x \<le> b" if x: "x \<in> set (drop k xs)" for x
    proof -
      from x obtain i where "i < length (drop k xs)" "x = drop k xs ! i" by (metis in_set_conv_nth)
      then have "x = xs ! (k + i)" "k + i < length xs" by auto
      then have "xs ! k \<le> x" using assms(1) by (simp add: sorted_nth_mono)
      with big show ?thesis by simp
    qed
    then show ?thesis by (auto simp: filter_empty_conv)
  qed
  then have "filter (\<lambda>x. x \<le> b) xs = filter (\<lambda>x. x \<le> b) (take k xs)"
    by (metis append_Nil2 append_take_drop_id filter_append)
  then have "length (filter (\<lambda>x. x \<le> b) xs) \<le> k"
    using length_filter_le [of "\<lambda>x. x \<le> b" "take k xs"] k by simp
  with assms(2) show False by simp
qed

lemma epoch_budget_le: "epoch_budget d others late now \<le> EXECUTION_TIMEOUT + late"
proof (cases "d = 0")
  case False
  let ?fires = "now + EXECUTION_TIMEOUT + late"
  let ?ts = "filter (\<lambda>t. now \<le> t) (others @ replicate d ?fires)"
  have "d \<le> length (filter (\<lambda>t. t \<le> ?fires) ?ts)" by simp
  also have "\<dots> = length (filter (\<lambda>t. t \<le> ?fires) (sort ?ts))"
    by (metis filter_sort length_sort)
  finally have "sort ?ts ! (d - 1) \<le> ?fires"
    using False by (intro sorted_nth_le) auto
  with False show ?thesis by (simp add: epoch_budget_def)
qed (simp add: epoch_budget_def)

text \<open>
  The code of a component traps at the first check after the epoch deadline, so instantiation
  and call go on beyond the time they are given by at most an \<open>overrun\<close>: the time to the next
  check, or until the host call returns in which the deadline was reached. An evaluation has
  one deadline for both; it can be overrun twice, by the instantiation and by the call.
\<close>

locale wasm_runtime =
  fixes wl :: "'c wasm_lib" and overrun :: duration
  assumes instantiate_overrun: "fst (instantiate wl c state budget) \<le> budget + overrun"
    and call_overrun: "fst (call_evaluate wl c state wctx wreq budget) \<le> budget + overrun"
begin

lemma evaluate_ends:
  "fst (evaluate_policy sj wl eng ctx req others late now) \<le> EXECUTION_TIMEOUT + late + 2 * overrun"
proof (cases "component eng")
  case (Some c)
  let ?m = "wasi_state_new (sandbox eng)" and ?b = "epoch_budget (epoch_deadlines (sandbox eng)) others late now"
  obtain t1 r1 where i: "instantiate wl c ?m ?b = (t1, r1)" by fastforce
  have b: "?b \<le> EXECUTION_TIMEOUT + late" by (rule epoch_budget_le)
  have t1: "t1 \<le> ?b + overrun" using instantiate_overrun [of c ?m ?b] i by simp
  have "t1 + t2 \<le> EXECUTION_TIMEOUT + late + 2 * overrun" if "call_evaluate wl c ?m x y (?b - t1) = (t2, r2)" for x y t2 r2
    using call_overrun [of c ?m x y "?b - t1"] that t1 b by simp
  with Some i t1 b show ?thesis
    by (auto simp: evaluate_policy_def Let_def split: sum.splits prod.splits)
qed (simp add: evaluate_policy_def)

end

text \<open>Both parts of an evaluation are given a deadline, and never a later one than that of the evaluation.\<close>

lemma evaluate_within_deadline:
  assumes "\<And>c st b. b \<le> EXECUTION_TIMEOUT + late \<Longrightarrow> instantiate wl' c st b = instantiate wl c st b"
    and "\<And>c st x r b. b \<le> EXECUTION_TIMEOUT + late \<Longrightarrow> call_evaluate wl' c st x r b = call_evaluate wl c st x r b"
  shows "evaluate_policy sj wl' eng ctx req others late now = evaluate_policy sj wl eng ctx req others late now"
proof (cases "component eng")
  case (Some c)
  let ?b = "epoch_budget (epoch_deadlines (sandbox eng)) others late now"
  have "?b \<le> EXECUTION_TIMEOUT + late" by (rule epoch_budget_le)
  moreover have "?b - t1 \<le> EXECUTION_TIMEOUT + late" for t1 using calculation by linarith
  ultimately show ?thesis using Some assms by (simp add: evaluate_policy_def Let_def)
qed (simp add: evaluate_policy_def)

section \<open>A concrete runtime\<close>

text \<open>
  Components that decide after a fixed time, or never (\<open>None\<close>), and trap at the deadline: an
  instance of the interface for the witnesses. \<open>sample\<close> is the example policy.
\<close>

type_synonym timed_policy = "duration option \<times> (WitContext \<Rightarrow> WitRequest \<Rightarrow> PolicyDecision)"

definition timed_compile :: "string \<Rightarrow> string + timed_policy" where
  "timed_compile bytes =
     (if bytes = ''sample'' then Inr (Some 1000, sample_policy_evaluate)
      else if bytes = ''slow'' then Inr (Some (from_millis 3), sample_policy_evaluate)
      else if bytes = ''loop'' then Inr (None, sample_policy_evaluate)
      else Inl ''invalid component'')"

definition timed_call ::
  "timed_policy \<Rightarrow> WasiState \<Rightarrow> WitContext \<Rightarrow> WitRequest \<Rightarrow> duration \<Rightarrow> duration \<times> (string + PolicyDecision)" where
  "timed_call c state wctx wreq budget =
     (case fst c of
        Some t \<Rightarrow> if t < budget then (t, Inr (snd c wctx wreq)) else (budget, Inl ''wasm trap: interrupt'')
      | None \<Rightarrow> (budget, Inl ''wasm trap: interrupt''))"

definition timed_runtime :: "timed_policy wasm_lib" where
  "timed_runtime =
     \<lparr>create_engine = None, link_wasi = None, link_policy = None, compile = timed_compile,
      read_error = \<lambda>path. ''no such file'', instantiate = \<lambda>c state budget. (0, Inr ()),
      call_evaluate = timed_call\<rparr>"

interpretation timed: wasm_runtime timed_runtime 0
  by unfold_locales (auto simp: timed_runtime_def timed_call_def split: option.splits)

section \<open>Properties\<close>

text \<open>
  C25. No evaluation is ever given more than five milliseconds, and the delay of its timer, before
  the runtime is told to interrupt it: whatever component is loaded, whatever the sandbox limits
  and however the timers of concurrent evaluations tick. The result is the same with any other
  runtime that differs only in what it does with a later deadline or without one.
\<close>

theorem policy_evaluation_deadline:
  assumes "\<And>c st b. b \<le> from_millis 5 + late \<Longrightarrow> instantiate wl' c st b = instantiate wl c st b"
    and "\<And>c st x r b. b \<le> from_millis 5 + late \<Longrightarrow> call_evaluate wl' c st x r b = call_evaluate wl c st x r b"
  shows "evaluate_policy sj wl' eng ctx req others late now = evaluate_policy sj wl eng ctx req others late now"
  by (rule evaluate_within_deadline) (simp_all add: assms EXECUTION_TIMEOUT_def)

text \<open>A runtime that interrupts within the deadline of an evaluation, and never when it is given more time.\<close>

definition patient_runtime :: "duration \<Rightarrow> timed_policy wasm_lib" where
  "patient_runtime longest = timed_runtime\<lparr>call_evaluate := \<lambda>c st x r b.
     if b \<le> longest then timed_call c st x r b else (0, Inr (snd c x r))\<rparr>"

definition demo_context :: AgentContext where
  "demo_context = \<lparr>agent_id = ''a'', tenant_id = ''t'', roles = [], authenticated = True\<rparr>"

definition drop_call :: McpToolCallParams where
  "drop_call = \<lparr>tool_name_param = ''drop_table'', arguments = None\<rparr>"

theorem policy_evaluation_deadline_witness:
  "evaluate_policy reference_json (patient_runtime (from_millis 5 + 2))
      \<lparr>component = Some (None, sample_policy_evaluate), sandbox = default_sandbox\<rparr> demo_context drop_call [] 2 7
    = (from_millis 5 + 2, Inl (WasmExecutionError ''wasm trap: interrupt''))"
proof -
  let ?eng = "\<lparr>component = Some (None, sample_policy_evaluate), sandbox = default_sandbox\<rparr>"
  have "evaluate_policy reference_json (patient_runtime (from_millis 5 + 2)) ?eng demo_context drop_call [] 2 7
      = evaluate_policy reference_json timed_runtime ?eng demo_context drop_call [] 2 7"
    by (rule policy_evaluation_deadline) (simp_all add: patient_runtime_def timed_runtime_def)
  then show ?thesis
    by (simp add: evaluate_policy_def timed_runtime_def timed_call_def default_sandbox_def epoch_budget_def
        EXECUTION_TIMEOUT_def from_millis_def wasm_execution_error_def Let_def)
qed

text \<open>
  With a runtime that overruns its deadlines by at most \<open>overrun\<close>, an evaluation ends, also one
  of a component that never returns by itself.
\<close>

theorem policy_evaluation_ends:
  assumes "wasm_runtime wl overrun"
  shows "fst (evaluate_policy sj wl eng ctx req others late now) \<le> from_millis 5 + late + 2 * overrun"
  using wasm_runtime.evaluate_ends [OF assms] by (simp add: EXECUTION_TIMEOUT_def)

text \<open>
  The epoch is shared by all evaluations on an engine: a component that denies a call after
  three milliseconds does so when it runs alone, but is interrupted, with an error instead of
  its denial, when the timer of an evaluation that began four milliseconds earlier fires.
\<close>

theorem shared_epoch_interrupts_neighbour:
  "let eng = \<lparr>component = Some (Some (from_millis 3), sample_policy_evaluate), sandbox = default_sandbox\<rparr>;
       other_start = 0; now = from_millis 4
   in snd (evaluate_policy reference_json timed_runtime eng demo_context drop_call [] 0 now)
        = Inr (Deny ''Unsafe action blocked by WASM policy'')
    \<and> snd (evaluate_policy reference_json timed_runtime eng demo_context drop_call
        (replicate (epoch_deadlines (sandbox eng)) (other_start + EXECUTION_TIMEOUT)) 0 now)
        = Inl (WasmExecutionError ''wasm trap: interrupt'')"
  by (simp add: evaluate_policy_def timed_runtime_def timed_call_def default_sandbox_def epoch_budget_def
      EXECUTION_TIMEOUT_def from_millis_def wasm_execution_error_def sample_policy_evaluate_def
      evaluate_request_def drop_call_def Let_def)

end
