(* ===== verification/Policy_Registry.thy ===== *)
theory Policy_Registry
  imports Policy_Engine
begin

text \<open>
  \<open>safegate-wasm/src/registry.rs\<close> and \<open>watcher.rs\<close>: the per-tenant engines, the default
  engine, and the two file watchers. The swappable maps and handles are plain values, each
  \<open>store\<close> one update; paths are UTF-8 texts with the standard library's \<open>file_stem\<close> and
  \<open>extension\<close>. The watcher loops receive timed events: \<open>debounce\<close> is the loop that takes one
  event, sleeps 50 ms, drops what arrived meanwhile and handles the one it took.
\<close>

section \<open>Paths of the standard library\<close>

definition path_components :: "string \<Rightarrow> string list" where
  "path_components p = filter (\<lambda>c. c \<noteq> [] \<and> c \<noteq> ''.'') (split_char (CHR ''/'') p)"

definition file_name :: "string \<Rightarrow> string option" where
  "file_name p =
     (let cs = path_components p in if cs = [] \<or> last cs = ''..'' then None else Some (last cs))"

text \<open>A name is split at its last dot, unless that dot is its first character.\<close>

definition split_at_dot :: "string \<Rightarrow> string \<times> string option" where
  "split_at_dot name =
     (let parts = split_char (CHR ''.'') name; before = join ''.'' (butlast parts)
      in if length parts = 1 \<or> before = [] then (name, None) else (before, Some (last parts)))"

definition file_stem :: "string \<Rightarrow> string option" where
  "file_stem p = map_option (\<lambda>n. fst (split_at_dot n)) (file_name p)"

definition extension :: "string \<Rightarrow> string option" where
  "extension p = Option.bind (file_name p) (\<lambda>n. snd (split_at_dot n))"

section \<open>Registry\<close>

datatype RegistryEvent = Upsert string | Remove string

record 'c PolicyRegistry =
  tenant_dir :: string
  engines :: "string \<rightharpoonup> 'c WasmPolicyEngine"
  default_engine :: "'c WasmPolicyEngine"

text \<open>The stem of a file that can name a tenant.\<close>

definition tenant_of :: "string \<Rightarrow> string option" where
  "tenant_of path = (case file_stem path of None \<Rightarrow> None | Some s \<Rightarrow> if s \<noteq> [] then Some s else None)"

definition load_tenant_engine :: "'c wasm_lib \<Rightarrow> files \<Rightarrow> string \<Rightarrow> (string \<times> 'c WasmPolicyEngine) option" where
  "load_tenant_engine wl fs path =
     (case tenant_of path of
        None \<Rightarrow> None
      | Some tenant \<Rightarrow>
          (case policy_engine_new wl of
             Inl e \<Rightarrow> None
           | Inr eng \<Rightarrow>
               (case load_component_from_file wl fs eng path of
                  (eng', Inr _) \<Rightarrow> Some (tenant, eng')
                | (eng', Inl e) \<Rightarrow> None)))"

text \<open>\<open>read_dir\<close> yields the paths of the directory, or fails (\<open>None\<close>).\<close>

fun load_all_entries ::
  "'c wasm_lib \<Rightarrow> files \<Rightarrow> string list \<Rightarrow> (string \<rightharpoonup> 'c WasmPolicyEngine) \<Rightarrow> (string \<rightharpoonup> 'c WasmPolicyEngine)" where
  "load_all_entries wl fs [] m = m"
| "load_all_entries wl fs (path # entries) m =
     load_all_entries wl fs entries
       (if extension path = Some ''wasm''
        then (case load_tenant_engine wl fs path of None \<Rightarrow> m | Some (tenant, eng) \<Rightarrow> m(tenant \<mapsto> eng))
        else m)"

definition load_all_from_dir ::
  "'c wasm_lib \<Rightarrow> files \<Rightarrow> string list option \<Rightarrow> (string \<rightharpoonup> 'c WasmPolicyEngine)" where
  "load_all_from_dir wl fs listing =
     (case listing of None \<Rightarrow> Map.empty | Some entries \<Rightarrow> load_all_entries wl fs entries Map.empty)"

definition registry_new ::
  "'c wasm_lib \<Rightarrow> files \<Rightarrow> bool \<Rightarrow> string list option \<Rightarrow> string \<Rightarrow> 'c WasmPolicyEngine \<Rightarrow> 'c PolicyRegistry" where
  "registry_new wl fs is_dir listing dir dflt =
     \<lparr>tenant_dir = dir,
      engines = (if is_dir then load_all_from_dir wl fs listing else Map.empty),
      default_engine = dflt\<rparr>"

definition registry_get :: "'c PolicyRegistry \<Rightarrow> string \<Rightarrow> 'c WasmPolicyEngine" where
  "registry_get reg tenant =
     (case engines reg tenant of Some eng \<Rightarrow> eng | None \<Rightarrow> default_engine reg)"

definition tenant_ids :: "'c PolicyRegistry \<Rightarrow> string set" where
  "tenant_ids reg = dom (engines reg)"

definition upsert_tenant :: "'c wasm_lib \<Rightarrow> files \<Rightarrow> 'c PolicyRegistry \<Rightarrow> string \<Rightarrow> 'c PolicyRegistry" where
  "upsert_tenant wl fs reg path =
     (case load_tenant_engine wl fs path of
        None \<Rightarrow> reg
      | Some (tenant, eng) \<Rightarrow> reg\<lparr>engines := (engines reg)(tenant \<mapsto> eng)\<rparr>)"

definition remove_tenant :: "'c PolicyRegistry \<Rightarrow> string \<Rightarrow> 'c PolicyRegistry" where
  "remove_tenant reg path =
     (case tenant_of path of
        None \<Rightarrow> reg
      | Some tenant \<Rightarrow>
          if engines reg tenant \<noteq> None then reg\<lparr>engines := (engines reg)(tenant := None)\<rparr> else reg)"

definition handle_registry_event :: "'c wasm_lib \<Rightarrow> files \<Rightarrow> 'c PolicyRegistry \<Rightarrow> RegistryEvent \<Rightarrow> 'c PolicyRegistry" where
  "handle_registry_event wl fs reg ev =
     (case ev of Upsert path \<Rightarrow> upsert_tenant wl fs reg path | Remove path \<Rightarrow> remove_tenant reg path)"

subsection \<open>Events\<close>

datatype EventKind = Create | Modify | RemoveKind | OtherKind

record Event =
  event_kind :: EventKind
  event_paths :: "string list"

fun registry_event_of :: "EventKind \<Rightarrow> string \<Rightarrow> RegistryEvent option" where
  "registry_event_of Create path = Some (Upsert path)"
| "registry_event_of Modify path = Some (Upsert path)"
| "registry_event_of RemoveKind path = Some (Remove path)"
| "registry_event_of OtherKind path = None"

definition registry_notify_event :: "Event \<Rightarrow> RegistryEvent list" where
  "registry_notify_event ev =
     List.map_filter
       (\<lambda>path. if extension path \<noteq> Some ''wasm'' then None else registry_event_of (event_kind ev) path)
       (event_paths ev)"

definition DEBOUNCE :: duration where
  "DEBOUNCE = from_millis 50"

text \<open>
  The loop \<open>while let Some(event) = rx.recv().await\<close>: from \<open>ready\<close> on it waits for the next of
  the events (in order of arrival), sleeps, drops what has arrived by then and handles the
  event with the files as they are at that instant.
\<close>

function debounce :: "instant \<Rightarrow> (instant \<times> 'e) list \<Rightarrow> (instant \<times> 'e) list" where
  "debounce ready [] = []"
| "debounce ready ((t, e) # rx) =
     (let wake = max ready t + DEBOUNCE
      in (wake, e) # debounce wake (dropWhile (\<lambda>x. fst x \<le> wake) rx))"
  by pat_completeness auto

termination
  by (relation "measure (\<lambda>(ready, rx). length rx)") (auto simp: le_imp_less_Suc length_dropWhile_le)

fun registry_handle_all ::
  "'c wasm_lib \<Rightarrow> (instant \<Rightarrow> files) \<Rightarrow> 'c PolicyRegistry \<Rightarrow> (instant \<times> RegistryEvent) list \<Rightarrow> 'c PolicyRegistry" where
  "registry_handle_all wl fs reg [] = reg"
| "registry_handle_all wl fs reg ((now, ev) # evs) =
     registry_handle_all wl fs (handle_registry_event wl (fs now) reg ev) evs"

text \<open>The outcomes of setting up a watcher: each failure disables hot reload.\<close>

record watch_setup =
  watcher_created :: bool
  dir_exists :: bool
  dir_created :: bool
  watch_ok :: bool

definition watching :: "watch_setup \<Rightarrow> bool" where
  "watching su \<longleftrightarrow> watcher_created su \<and> (dir_exists su \<or> dir_created su) \<and> watch_ok su"

definition watch_tenant_dir ::
  "'c wasm_lib \<Rightarrow> (instant \<Rightarrow> files) \<Rightarrow> watch_setup \<Rightarrow> 'c PolicyRegistry \<Rightarrow> (instant \<times> Event) list \<Rightarrow> 'c PolicyRegistry" where
  "watch_tenant_dir wl fs su reg evs =
     (if watching su
      then registry_handle_all wl fs reg
        (debounce 0 (concat (map (\<lambda>(t, ev). map (\<lambda>r. (t, r)) (registry_notify_event ev)) evs)))
      else reg)"

section \<open>Watcher of the default policy\<close>

record 'c PolicyWatcher =
  watched_dir :: string
  shared :: "'c WasmPolicyEngine"

definition policy_watcher_new :: "string \<Rightarrow> 'c WasmPolicyEngine \<Rightarrow> 'c PolicyWatcher" where
  "policy_watcher_new dir eng = \<lparr>watched_dir = dir, shared = eng\<rparr>"

definition watcher_notify_event :: "Event \<Rightarrow> string list" where
  "watcher_notify_event ev =
     (if event_kind ev = Create \<or> event_kind ev = Modify
      then filter (\<lambda>path. extension path = Some ''wasm'') (event_paths ev)
      else [])"

definition reload_policy :: "'c wasm_lib \<Rightarrow> files \<Rightarrow> string \<Rightarrow> 'c WasmPolicyEngine \<Rightarrow> 'c WasmPolicyEngine" where
  "reload_policy wl fs wasm_path current =
     (case with_sandbox_config wl (sandbox current) of
        Inl e \<Rightarrow> current
      | Inr new_engine \<Rightarrow>
          (case load_component_from_file wl fs new_engine wasm_path of
             (new_engine', Inr _) \<Rightarrow> new_engine'
           | (new_engine', Inl e) \<Rightarrow> current))"

fun reload_all :: "'c wasm_lib \<Rightarrow> (instant \<Rightarrow> files) \<Rightarrow> 'c WasmPolicyEngine \<Rightarrow> (instant \<times> string) list \<Rightarrow> 'c WasmPolicyEngine" where
  "reload_all wl fs current [] = current"
| "reload_all wl fs current ((now, path) # evs) = reload_all wl fs (reload_policy wl (fs now) path current) evs"

definition watch_policy_dir ::
  "'c wasm_lib \<Rightarrow> (instant \<Rightarrow> files) \<Rightarrow> watch_setup \<Rightarrow> 'c WasmPolicyEngine \<Rightarrow> (instant \<times> Event) list \<Rightarrow> 'c WasmPolicyEngine" where
  "watch_policy_dir wl fs su current evs =
     (if watching su
      then reload_all wl fs current
        (debounce 0 (concat (map (\<lambda>(t, ev). map (\<lambda>p. (t, p)) (watcher_notify_event ev)) evs)))
      else current)"

section \<open>Behaviour of one event\<close>

definition usable :: "'c wasm_lib \<Rightarrow> bool" where
  "usable wl \<longleftrightarrow> create_engine wl = None \<and> link_wasi wl = None \<and> link_policy wl = None"

lemma with_sandbox_usable:
  "with_sandbox_config wl sb = Inr eng \<longleftrightarrow> usable wl \<and> eng = \<lparr>component = None, sandbox = sb\<rparr>"
  by (auto simp: with_sandbox_config_def usable_def split: option.splits)

lemma with_sandbox_error: "with_sandbox_config wl sb = Inl e \<Longrightarrow> \<not> usable wl"
  by (auto simp: with_sandbox_config_def usable_def split: option.splits)

lemma load_tenant_engine_Some_iff:
  "load_tenant_engine wl fs path = Some (tenant, eng) \<longleftrightarrow>
     tenant_of path = Some tenant \<and> usable wl
     \<and> (\<exists>c. component_from_file wl fs path = Inr c \<and> eng = \<lparr>component = Some c, sandbox = default_sandbox\<rparr>)"
  by (auto simp: load_tenant_engine_def policy_engine_new_def with_sandbox_usable load_component_from_file_def
      split: option.splits sum.splits dest: with_sandbox_error)

lemma load_tenant_engine_tenant: "load_tenant_engine wl fs path = Some (t, eng) \<Longrightarrow> tenant_of path = Some t"
  by (simp add: load_tenant_engine_Some_iff)

fun event_path :: "RegistryEvent \<Rightarrow> string" where
  "event_path (Upsert path) = path"
| "event_path (Remove path) = path"




lemma handle_registry_event_engines:
  "engines (handle_registry_event wl fs reg ev) =
     (case tenant_of (event_path ev) of
        None \<Rightarrow> engines reg
      | Some tenant \<Rightarrow>
          (case ev of
             Upsert path \<Rightarrow>
               (case load_tenant_engine wl fs path of
                  None \<Rightarrow> engines reg | Some (t, eng) \<Rightarrow> (engines reg)(tenant \<mapsto> eng))
           | Remove path \<Rightarrow> (engines reg)(tenant := None)))"
proof (cases ev)
  case (Upsert path)
  show ?thesis
  proof (cases "load_tenant_engine wl fs path")
    case None
    with Upsert show ?thesis by (auto simp: handle_registry_event_def upsert_tenant_def split: option.splits)
  next
    case (Some x)
    then obtain t eng where "load_tenant_engine wl fs path = Some (t, eng)" and "tenant_of path = Some t"
      using load_tenant_engine_tenant by (cases x) blast
    with Upsert show ?thesis by (simp add: handle_registry_event_def upsert_tenant_def)
  qed
next
  case (Remove path)
  then show ?thesis
    by (auto simp: handle_registry_event_def remove_tenant_def fun_eq_iff split: option.splits)
qed

lemma handle_registry_event_default [simp]:
  "default_engine (handle_registry_event wl fs reg ev) = default_engine reg"
  by (auto simp: handle_registry_event_def upsert_tenant_def remove_tenant_def
      split: RegistryEvent.splits option.splits)


section \<open>Registered engines carry a policy\<close>

definition loaded :: "('k \<rightharpoonup> 'c WasmPolicyEngine) \<Rightarrow> bool" where
  "loaded m \<longleftrightarrow> (\<forall>t eng. m t = Some eng \<longrightarrow> component eng \<noteq> None \<and> sandbox eng = default_sandbox)"

lemma loaded_upd: "loaded m \<Longrightarrow> load_tenant_engine wl fs path = Some (t', eng) \<Longrightarrow> loaded (m(t \<mapsto> eng))"
  by (auto simp: loaded_def load_tenant_engine_Some_iff)

lemma loaded_load_all: "loaded m \<Longrightarrow> loaded (load_all_entries wl fs entries m)"
  by (induction entries arbitrary: m) (auto simp: loaded_upd split: option.splits)

lemma loaded_handle [gate_inv]: "loaded (engines reg) \<Longrightarrow> loaded (engines (handle_registry_event wl fs reg ev))"
  by (auto simp: handle_registry_event_engines loaded_upd split: option.splits RegistryEvent.splits)
    (auto simp: loaded_def)

lemma loaded_handle_all: "loaded (engines reg) \<Longrightarrow> loaded (engines (registry_handle_all wl fs reg evs))"
  by (induction wl fs reg evs rule: registry_handle_all.induct) (auto intro: loaded_handle)

lemma loaded_watch: "loaded (engines reg) \<Longrightarrow> loaded (engines (watch_tenant_dir wl fs su reg evs))"
  by (simp add: watch_tenant_dir_def loaded_handle_all)

lemma loaded_new: "loaded (engines (registry_new wl fs is_dir listing dir dflt))"
proof -
  have "loaded Map.empty" by (simp add: loaded_def)
  then show ?thesis
    by (auto simp: registry_new_def load_all_from_dir_def loaded_load_all split: option.splits)
qed

lemma load_all_dom:
  "t \<in> dom (load_all_entries wl fs entries m) \<longleftrightarrow>
     t \<in> dom m \<or> (\<exists>path \<in> set entries. extension path = Some ''wasm'' \<and> (\<exists>eng. load_tenant_engine wl fs path = Some (t, eng)))"
proof (induction entries arbitrary: m)
  case (Cons path entries)
  show ?case
    by (cases "load_tenant_engine wl fs path") (auto simp: Cons.IH split: if_splits)
qed simp

section \<open>The debouncing loop\<close>

lemma debounce_later: "x \<in> set (debounce ready rx) \<Longrightarrow> ready + DEBOUNCE \<le> fst x"
proof (induction ready rx rule: debounce.induct)
  case (2 ready t e rx)
  let ?wake = "max ready t + DEBOUNCE"
  from "2.prems" consider "x = (?wake, e)" | "x \<in> set (debounce ?wake (dropWhile (\<lambda>x. fst x \<le> ?wake) rx))"
    by (auto simp: Let_def)
  then show ?case
  proof cases
    case 2
    from "2.IH" [OF refl this] show ?thesis by linarith
  qed simp
qed simp

lemma debounce_spaced: "sorted_wrt (\<lambda>x y. fst x + DEBOUNCE \<le> fst y) (debounce ready rx)"
  by (induction ready rx rule: debounce.induct) (auto simp: Let_def dest: debounce_later)

lemma debounce_received: "snd ` set (debounce ready rx) \<subseteq> snd ` set rx"
  by (induction ready rx rule: debounce.induct) (auto simp: Let_def dest!: set_dropWhileD subsetD)

lemma debounce_burst:
  assumes "\<And>x. x \<in> set rx \<Longrightarrow> fst x \<le> max ready t + DEBOUNCE"
  shows "debounce ready ((t, e) # rx) = [(max ready t + DEBOUNCE, e)]"
proof -
  have none: "dropWhile (\<lambda>x. fst x \<le> max ready t + DEBOUNCE) rx = []"
    using assms by (auto simp: dropWhile_eq_Nil_conv)
  show ?thesis by (simp add: Let_def none)
qed

lemma registry_notify_single:
  "extension p = Some ''wasm'' \<Longrightarrow> registry_notify_event \<lparr>event_kind = kind, event_paths = [p]\<rparr>
     = (case registry_event_of kind p of None \<Rightarrow> [] | Some r \<Rightarrow> [r])"
  by (simp add: registry_notify_event_def List.map_filter_def split: option.splits)

lemma watch_tenant_dir_burst:
  assumes "extension p = Some ''wasm''" and "registry_event_of kind p = Some r" and "t' \<le> t + DEBOUNCE"
  shows "watch_tenant_dir wl fs su reg [(t, \<lparr>event_kind = kind, event_paths = [p]\<rparr>), (t', ev)]
    = (if watching su then handle_registry_event wl (fs (t + DEBOUNCE)) reg r else reg)"
proof -
  have "debounce 0 ((t, r) # map (\<lambda>r. (t', r)) (registry_notify_event ev)) = [(t + DEBOUNCE, r)]"
    using assms(3) by (subst debounce_burst) auto
  with assms(1,2) show ?thesis by (simp add: watch_tenant_dir_def registry_notify_single del: debounce.simps)
qed

section \<open>Isolation of tenants\<close>











section \<open>Properties\<close>


text \<open>
  A tenant that is registered has a policy: after start-up and any activity of the watcher,
  the engine that \<open>get\<close> returns for a registered tenant holds a compiled component and runs
  under the default sandbox limits, however many files were corrupt.
\<close>

theorem registered_tenant_has_policy:
  assumes "reg = watch_tenant_dir wl fs su (registry_new wl fs0 is_dir listing dir dflt) evs"
    and "t \<in> tenant_ids reg"
  shows "component (registry_get reg t) \<noteq> None \<and> sandbox (registry_get reg t) = default_sandbox"
proof -
  have "loaded (engines reg)" unfolding assms(1) by (intro loaded_watch loaded_new)
  with assms(2) show ?thesis by (auto simp: loaded_def tenant_ids_def registry_get_def)
qed

abbreviation demo_default :: "timed_policy WasmPolicyEngine" where
  "demo_default \<equiv> \<lparr>component = None, sandbox = default_sandbox\<rparr>"

abbreviation demo_files :: files where
  "demo_files \<equiv> [''t/acme.wasm'' \<mapsto> ''sample'', ''t/bad.wasm'' \<mapsto> ''junk'']"

definition demo_registry :: "timed_policy PolicyRegistry" where
  "demo_registry = watch_tenant_dir timed_runtime (\<lambda>now. demo_files)
     \<lparr>watcher_created = True, dir_exists = True, dir_created = False, watch_ok = True\<rparr>
     (registry_new timed_runtime demo_files True (Some [''t/bad.wasm'', ''t/acme.wasm'']) ''t'' demo_default) []"

theorem registered_tenant_has_policy_witness:
  "component (registry_get demo_registry ''acme'') \<noteq> None
   \<and> sandbox (registry_get demo_registry ''acme'') = default_sandbox"
proof (rule registered_tenant_has_policy [OF demo_registry_def])
  have "extension ''t/acme.wasm'' = Some ''wasm''" and "tenant_of ''t/acme.wasm'' = Some ''acme''" by code_simp+
  moreover from this have "load_tenant_engine timed_runtime demo_files ''t/acme.wasm''
      = Some (''acme'', \<lparr>component = Some (Some 1000, sample_policy_evaluate), sandbox = default_sandbox\<rparr>)"
    by (simp add: load_tenant_engine_Some_iff usable_def timed_runtime_def component_from_file_def timed_compile_def)
  ultimately show "''acme'' \<in> tenant_ids demo_registry"
    by (simp add: demo_registry_def watch_tenant_dir_def registry_new_def load_all_from_dir_def tenant_ids_def)
qed

text \<open>
  C24. Start-up registers exactly the tenants whose file has the extension \<open>wasm\<close>, a stem that
  names them and bytes that compile; every other entry of the directory is skipped.
\<close>

theorem startup_tenants:
  "t \<in> tenant_ids (registry_new wl fs True (Some entries) dir dflt) \<longleftrightarrow>
     usable wl \<and> (\<exists>path. path \<in> set entries \<and> extension path = Some ''wasm'' \<and> tenant_of path = Some t
       \<and> (\<exists>c. component_from_file wl fs path = Inr c))"
  using load_all_dom [of t wl fs entries Map.empty]
  by (auto simp: tenant_ids_def registry_new_def load_all_from_dir_def load_tenant_engine_Some_iff domIff)

text \<open>
  Hot reload is all or nothing: a file that cannot be read or compiled leaves the default
  engine and the tenant map exactly as they were, and one that compiles replaces the engine
  by a complete one, the default engine keeping its sandbox limits.
\<close>

theorem hot_reload_atomic:
  "reload_policy wl fs path current =
     (case component_from_file wl fs path of
        Inl e \<Rightarrow> current
      | Inr c \<Rightarrow> if usable wl then \<lparr>component = Some c, sandbox = sandbox current\<rparr> else current)
   \<and> engines (upsert_tenant wl fs reg path) =
     (case (component_from_file wl fs path, tenant_of path) of
        (Inr c, Some t) \<Rightarrow>
          if usable wl then (engines reg)(t \<mapsto> \<lparr>component = Some c, sandbox = default_sandbox\<rparr>) else engines reg
      | _ \<Rightarrow> engines reg)"
proof
  show "reload_policy wl fs path current =
     (case component_from_file wl fs path of
        Inl e \<Rightarrow> current
      | Inr c \<Rightarrow> if usable wl then \<lparr>component = Some c, sandbox = sandbox current\<rparr> else current)"
    by (auto simp: reload_policy_def with_sandbox_usable load_component_from_file_def split: sum.splits
        dest: with_sandbox_error)
  show "engines (upsert_tenant wl fs reg path) =
     (case (component_from_file wl fs path, tenant_of path) of
        (Inr c, Some t) \<Rightarrow>
          if usable wl then (engines reg)(t \<mapsto> \<lparr>component = Some c, sandbox = default_sandbox\<rparr>) else engines reg
      | _ \<Rightarrow> engines reg)"
  proof (cases "load_tenant_engine wl fs path")
    case None
    then show ?thesis using load_tenant_engine_Some_iff [of wl fs path]
      by (auto simp: upsert_tenant_def split: option.splits sum.splits)
  next
    case (Some x)
    then obtain t eng where "load_tenant_engine wl fs path = Some (t, eng)" by (cases x) auto
    then show ?thesis
      by (auto simp: upsert_tenant_def load_tenant_engine_Some_iff [THEN iffD1] dest: load_tenant_engine_Some_iff [THEN iffD1])
  qed
qed

text \<open>
  The debouncing loop drops events, not only duplicates: when two tenants' files are created
  within 50 ms, the second tenant is left as it was, even if its file compiles.
\<close>

theorem burst_loses_other_tenant:
  assumes "extension p = Some ''wasm''" and "t' \<le> t + DEBOUNCE" and "tenant_of p \<noteq> Some other"
  shows "engines (watch_tenant_dir wl fs su reg
      [(t, \<lparr>event_kind = Create, event_paths = [p]\<rparr>), (t', \<lparr>event_kind = Create, event_paths = [q]\<rparr>)]) other
    = engines reg other"
  using assms(3)
  by (simp add: watch_tenant_dir_burst [OF assms(1) _ assms(2)] handle_registry_event_engines split: option.splits)

definition all_watching :: watch_setup where
  "all_watching = \<lparr>watcher_created = True, dir_exists = True, dir_created = False, watch_ok = True\<rparr>"

theorem burst_loses_other_tenant_witness:
  "engines (watch_tenant_dir timed_runtime (\<lambda>now. [''t/a.wasm'' \<mapsto> ''sample'', ''t/b.wasm'' \<mapsto> ''sample'']) all_watching
      (registry_new timed_runtime Map.empty False None ''t'' demo_default)
      [(1, \<lparr>event_kind = Create, event_paths = [''t/a.wasm'']\<rparr>), (2, \<lparr>event_kind = Create, event_paths = [''t/b.wasm'']\<rparr>)])
      ''b'' = None"
proof -
  have "extension ''t/a.wasm'' = Some ''wasm''" and "tenant_of ''t/a.wasm'' \<noteq> Some ''b''" by code_simp+
  moreover have "2 \<le> 1 + DEBOUNCE" by (simp add: DEBOUNCE_def from_millis_def)
  ultimately show ?thesis by (subst burst_loses_other_tenant) (simp_all add: registry_new_def)
qed


text \<open>
  C39. Replacing a policy file by removing and creating it within 50 ms unregisters the tenant: only
  the removal is handled, and the tenant is served by the default engine although its file
  exists and compiles.
\<close>

theorem replace_in_burst_unregisters:
  assumes "extension p = Some ''wasm''" and "tenant_of p = Some tn" and "t' \<le> t + DEBOUNCE" and "watching su"
  shows "registry_get (watch_tenant_dir wl fs su reg
      [(t, \<lparr>event_kind = RemoveKind, event_paths = [p]\<rparr>), (t', \<lparr>event_kind = Create, event_paths = [p]\<rparr>)]) tn
    = default_engine reg"
  using assms(2,4)
  by (simp add: watch_tenant_dir_burst [OF assms(1) _ assms(3)] registry_get_def handle_registry_event_engines)

theorem replace_in_burst_unregisters_witness:
  "registry_get (watch_tenant_dir timed_runtime (\<lambda>now. demo_files) all_watching demo_registry
      [(1, \<lparr>event_kind = RemoveKind, event_paths = [''t/acme.wasm'']\<rparr>),
       (2, \<lparr>event_kind = Create, event_paths = [''t/acme.wasm'']\<rparr>)]) ''acme''
    = default_engine demo_registry"
proof (rule replace_in_burst_unregisters)
  show "extension ''t/acme.wasm'' = Some ''wasm''" and "tenant_of ''t/acme.wasm'' = Some ''acme''" by code_simp+
qed (simp_all add: DEBOUNCE_def from_millis_def all_watching_def watching_def)

text \<open>
  The default policy is not loaded at start-up: until a file event arrives, the default engine
  has no component and every evaluation on it fails, whatever files the directory holds.
\<close>

theorem default_policy_not_preloaded:
  assumes "policy_engine_new wl = Inr eng"
  shows "snd (evaluate_policy sj wl (watch_policy_dir wl fs su (shared (policy_watcher_new dir eng)) []) ctx req others late now)
    = Inl (WasmExecutionError ''no policy component has been loaded'')"
  using assms by (simp add: policy_engine_new_def with_sandbox_usable policy_watcher_new_def watch_policy_dir_def
      evaluate_policy_def)

theorem default_policy_not_preloaded_witness:
  "snd (evaluate_policy reference_json timed_runtime
      (watch_policy_dir timed_runtime (\<lambda>now. [''./policies/default.wasm'' \<mapsto> ''sample'']) all_watching
        (shared (policy_watcher_new ''./policies'' demo_default)) []) demo_context drop_call [] 0 0)
    = Inl (WasmExecutionError ''no policy component has been loaded'')"
  by (rule default_policy_not_preloaded)
    (simp add: policy_engine_new_def with_sandbox_usable usable_def timed_runtime_def)

end
