(* ===== verification/Proxy.thy ===== *)
theory Proxy
  imports Identity Config Metrics Rate_Limit Circuit_Breaker Redactor Protocol Audit_Writer Policy_Registry
begin

text \<open>
  \<open>safegate-proxy/src/proxy.rs\<close>: the request pipeline. The proxy's state holds the shared
  components and, as history, the requests handed to the HTTP client. \<open>handle_request\<close> is
  split into the stages its comments number; a stage either ends the request with a response
  or passes on what the next one needs. What a request reads from its environment (clock,
  trace id, wall clock, the epoch ticks of concurrent evaluations, the upstream's answer) is
  the record \<open>env\<close>; the third-party crates are the record \<open>libs\<close>. A panic of the handler is an
  outcome of its own: the connection task ends and the client gets no response.
\<close>

section \<open>HTTP\<close>

record Uri =
  uri_scheme :: "string option"
  uri_authority :: "string option"
  uri_path_and_query :: "string option"

record HttpRequest =
  http_method :: string
  http_uri :: Uri
  http_version :: string
  http_headers :: headers
  http_body :: string

text \<open>An inbound request: its body can fail while it is read.\<close>

record InboundRequest =
  in_method :: string
  in_uri :: Uri
  in_version :: string
  in_headers :: headers
  in_body :: "string + string"

record Response =
  status :: nat
  response_headers :: headers
  response_body :: string

record UpstreamResponse =
  up_status :: nat
  up_headers :: headers
  up_body :: "string + string"

section \<open>Libraries, environment and state\<close>

record 'c libs =
  lib_rx :: regex_lib
  lib_sj :: serde_lib
  lib_al :: audit_lib
  lib_wl :: "'c wasm_lib"
  lib_pl :: prometheus_lib
  lib_to_str :: "string \<Rightarrow> string option"
  lib_uri_path :: "Uri \<Rightarrow> string"
  lib_uri_parse :: "string \<Rightarrow> string + Uri"
  lib_uri_from_parts :: "Uri \<Rightarrow> string + Uri"

record env =
  request_start :: instant
  rate_now :: instant
  check_now :: instant
  wasm_now :: instant
  failure_now :: instant
  deny_now :: instant
  done_now :: instant
  wall_now :: nat
  trace_id :: string
  ticks :: "instant list"
  timer_late :: duration
  upstream :: "HttpRequest \<Rightarrow> string + UpstreamResponse"

record 'c Proxy =
  target_base :: Uri
  client :: "HttpRequest list"
  rate_limiter :: RateLimiter
  policy_registry :: "'c PolicyRegistry"
  audit_logger :: AuditLogger
  redactor :: PiiRedactor
  circuit_breaker :: CircuitBreaker
  metrics :: Metrics

definition AGENT_RATE_LIMIT :: nat where
  "AGENT_RATE_LIMIT = 60"

definition AGENT_RATE_LIMIT_WINDOW :: duration where
  "AGENT_RATE_LIMIT_WINDOW = from_secs 60"

definition proxy_new ::
  "'c libs \<Rightarrow> SocketAddr ProxyConfig \<Rightarrow> 'c PolicyRegistry \<Rightarrow> AuditLogger \<Rightarrow> Metrics \<Rightarrow> SafeGateError + 'c Proxy" where
  "proxy_new ls config reg logger ms =
     (case lib_uri_parse ls (target_mcp_url config) of
        Inl e \<Rightarrow> Inl (InternalError (''invalid target MCP URL: '' @ e))
      | Inr base \<Rightarrow>
          if uri_scheme base = None \<or> uri_authority base = None
          then Inl (InternalError ''target MCP URL must include a scheme and authority'')
          else Inr \<lparr>target_base = base, client = [], rate_limiter = rate_limiter_new, policy_registry = reg,
                    audit_logger = logger, redactor = pii_redactor_new, circuit_breaker = circuit_breaker_new,
                    metrics = ms\<rparr>)"

section \<open>Helpers\<close>

definition detail_object :: "string \<Rightarrow> json" where
  "detail_object message = JObject [(''detail'', JString message)]"

fun error_payload :: "SafeGateError \<Rightarrow> JsonRpcErrorPayload" where
  "error_payload (JsonRpcError message) =
     \<lparr>err_code = -32700, err_message = ''Parse error'', err_data = Some (detail_object message)\<rparr>"
| "error_payload (Unauthorized message) =
     \<lparr>err_code = -32001, err_message = ''Unauthorized'', err_data = Some (detail_object message)\<rparr>"
| "error_payload RateLimitExceeded =
     \<lparr>err_code = -32029, err_message = ''Rate limit exceeded'', err_data = None\<rparr>"
| "error_payload (CircuitOpen message) =
     \<lparr>err_code = -32029, err_message = ''Circuit breaker open'', err_data = Some (detail_object message)\<rparr>"
| "error_payload (GuardrailViolation message) =
     \<lparr>err_code = -32002, err_message = ''Guardrail violation'', err_data = Some (detail_object message)\<rparr>"
| "error_payload (WasmExecutionError message) =
     \<lparr>err_code = -32603, err_message = ''Internal error'', err_data = Some (detail_object message)\<rparr>"
| "error_payload (InternalError message) =
     \<lparr>err_code = -32603, err_message = ''Internal error'', err_data = Some (detail_object message)\<rparr>"

definition json_rpc_error_response :: "serde_lib \<Rightarrow> nat \<Rightarrow> json \<Rightarrow> SafeGateError \<Rightarrow> Response" where
  "json_rpc_error_response sj code i error =
     \<lparr>status = code,
      response_headers = [(''content-type'', ''application/json'')],
      response_body = json_print sj (encode_response
        \<lparr>resp_jsonrpc = ''2.0'', resp_id = i, resp_result = None, resp_error = Some (error_payload error)\<rparr>)\<rparr>"

definition upstream_uri :: "'c libs \<Rightarrow> Uri \<Rightarrow> Uri \<Rightarrow> SafeGateError + Uri" where
  "upstream_uri ls base incoming =
     (case lib_uri_from_parts ls (base\<lparr>uri_path_and_query := uri_path_and_query incoming\<rparr>) of
        Inl e \<Rightarrow> Inl (InternalError (''failed to construct upstream URI: '' @ e))
      | Inr u \<Rightarrow> Inr u)"

text \<open>\<open>params["arguments"] = new_args\<close>: null becomes an object, anything but an object panics.\<close>

fun set_arguments :: "json \<Rightarrow> json \<Rightarrow> json option" where
  "set_arguments JNull a = Some (JObject [(''arguments'', a)])"
| "set_arguments (JObject m) a = Some (JObject (obj_insert ''arguments'' a m))"
| "set_arguments v a = None"

datatype rebuild = Rebuilt string | RebuildError SafeGateError | RebuildPanic

definition rebuild_tool_call_body :: "serde_lib \<Rightarrow> string \<Rightarrow> string \<Rightarrow> rebuild" where
  "rebuild_tool_call_body sj original new_args_json =
     (case value_from_str sj original of
        Inl e \<Rightarrow> RebuildError (JsonRpcError (error_text sj original e))
      | Inr rpc \<Rightarrow>
          (case value_from_str sj new_args_json of
             Inl e \<Rightarrow> RebuildError (JsonRpcError (error_text sj new_args_json e))
           | Inr new_args \<Rightarrow>
               (case (case rpc of JObject m \<Rightarrow> obj_get m ''params'' | _ \<Rightarrow> None) of
                  None \<Rightarrow> Rebuilt (json_print sj rpc)
                | Some params \<Rightarrow>
                    (case set_arguments params new_args of
                       None \<Rightarrow> RebuildPanic
                     | Some params' \<Rightarrow>
                         Rebuilt (json_print sj
                           (case rpc of JObject m \<Rightarrow> JObject (obj_insert ''params'' params' m) | v \<Rightarrow> v))))))"

definition relay_response :: "serde_lib \<Rightarrow> UpstreamResponse \<Rightarrow> Response" where
  "relay_response sj r =
     (case up_body r of
        Inr bytes \<Rightarrow> \<lparr>status = up_status r, response_headers = up_headers r, response_body = bytes\<rparr>
      | Inl e \<Rightarrow> json_rpc_error_response sj 502 JNull
                   (InternalError (''failed to read upstream response: '' @ e)))"

definition emit_audit ::
  "'c libs \<Rightarrow> env \<Rightarrow> AgentContext \<Rightarrow> string \<Rightarrow> AuditDecision \<Rightarrow> nat \<Rightarrow> 'c Proxy \<Rightarrow> 'c Proxy" where
  "emit_audit ls ev ctx tool decision latency_us px =
     px\<lparr>audit_logger := log_entry (audit_logger px)
          (entry_new (lib_sj ls) (lib_al ls) (wall_now ev) (trace_id ev) (Some (tenant_id ctx)) (agent_id ctx)
             tool decision latency_us (hmac_secret (audit_logger px)))\<rparr>"

section \<open>Management routes\<close>

definition handle_metrics :: "'c libs \<Rightarrow> 'c Proxy \<Rightarrow> 'c Proxy \<times> Response" where
  "handle_metrics ls px =
     (case gather_metrics_text (lib_pl ls) (metrics px) of
        (ms, Inr body) \<Rightarrow>
          (px\<lparr>metrics := ms\<rparr>,
           \<lparr>status = 200, response_headers = [(''content-type'', ''text/plain; version=0.0.4; charset=utf-8'')],
            response_body = body\<rparr>)
      | (ms, Inl e) \<Rightarrow>
          (px\<lparr>metrics := ms\<rparr>, \<lparr>status = 500, response_headers = [], response_body = ''metrics unavailable''\<rparr>))"

definition handle_healthz :: "'c libs \<Rightarrow> 'c Proxy \<Rightarrow> 'c Proxy \<times> Response" where
  "handle_healthz ls px =
     (let engine = registry_get (policy_registry px) ''__healthz__''
      in (px, \<lparr>status = 200, response_headers = [(''content-type'', ''application/json'')],
               response_body = json_print (lib_sj ls) (JObject [(''status'', JString ''healthy'')])\<rparr>))"

section \<open>The stages of a request\<close>

datatype outcome = Responded Response | Panicked

text \<open>Steps 1 to 2.5: authentication, rate limit, circuit breaker.\<close>

definition admit :: "'c libs \<Rightarrow> env \<Rightarrow> AgentContext \<Rightarrow> 'c Proxy \<Rightarrow> 'c Proxy \<times> (Response + unit)" where
  "admit ls ev ctx px =
     (if \<not> authenticated ctx
      then (px, Inl (json_rpc_error_response (lib_sj ls) 401 JNull (Unauthorized ''missing or invalid bearer token'')))
      else
        (case check_rate_limit (rate_limiter px) (agent_id ctx) AGENT_RATE_LIMIT AGENT_RATE_LIMIT_WINDOW (rate_now ev) of
           (rl, Inl e) \<Rightarrow> (px\<lparr>rate_limiter := rl\<rparr>, Inl (json_rpc_error_response (lib_sj ls) 429 JNull e))
         | (rl, Inr _) \<Rightarrow>
             (let px = px\<lparr>rate_limiter := rl\<rparr>
              in (case check (circuit_breaker px) (agent_id ctx) (check_now ev) of
                    (cb, Inl e) \<Rightarrow> (px\<lparr>circuit_breaker := cb\<rparr>, Inl (json_rpc_error_response (lib_sj ls) 429 JNull e))
                  | (cb, Inr _) \<Rightarrow> (px\<lparr>circuit_breaker := cb\<rparr>, Inr ())))))"

text \<open>Step 3: the body, the request id and the parameters of a tool call.\<close>

definition parse_tool_params :: "JsonRpcRequest \<Rightarrow> McpToolCallParams option" where
  "parse_tool_params rpc =
     (if req_method rpc = ''tools/call''
      then Option.bind (req_params rpc)
             (\<lambda>p. case tool_call_params_from_value p of Inl e \<Rightarrow> None | Inr q \<Rightarrow> Some q)
      else None)"

definition read_request ::
  "'c libs \<Rightarrow> InboundRequest \<Rightarrow> Response + string \<times> json \<times> McpToolCallParams option" where
  "read_request ls rq =
     (case in_body rq of
        Inl e \<Rightarrow> Inl (json_rpc_error_response (lib_sj ls) 400 JNull
                   (JsonRpcError (''failed to read request body: '' @ e)))
      | Inr body \<Rightarrow>
          if in_method rq = ''POST''
          then (case request_from_slice (lib_sj ls) body of
                  Inr rpc \<Rightarrow> Inr (body, req_id rpc, parse_tool_params rpc)
                | Inl e \<Rightarrow> Inl (json_rpc_error_response (lib_sj ls) 400 JNull
                            (JsonRpcError (''invalid JSON-RPC request: '' @ error_text (lib_sj ls) body e))))
          else Inr (body, JNull, None))"

definition tool_name_of :: "McpToolCallParams option \<Rightarrow> string" where
  "tool_name_of params = (case params of None \<Rightarrow> ''<non-tool>'' | Some p \<Rightarrow> tool_name_param p)"

text \<open>Step 3.5: redaction of the arguments; \<open>None\<close> is the panic of the rebuild.\<close>

definition redact_stage ::
  "'c libs \<Rightarrow> PiiRedactor \<Rightarrow> string \<Rightarrow> McpToolCallParams option \<Rightarrow> (string \<times> McpToolCallParams option \<times> bool) option" where
  "redact_stage ls rd body params =
     (case params of
        None \<Rightarrow> Some (body, None, False)
      | Some p \<Rightarrow>
          (case arguments p of
             None \<Rightarrow> Some (body, Some p, False)
           | Some args \<Rightarrow>
               (case sanitize_json (lib_rx ls) rd args of
                  (args', True) \<Rightarrow>
                    (let p' = p\<lparr>arguments := Some args'\<rparr>
                     in (case rebuild_tool_call_body (lib_sj ls) body (json_print (lib_sj ls) args') of
                           Rebuilt new_body \<Rightarrow> Some (new_body, Some p', True)
                         | RebuildError e \<Rightarrow> Some (body, Some p', True)
                         | RebuildPanic \<Rightarrow> None))
                | (args', False) \<Rightarrow> Some (body, Some (p\<lparr>arguments := Some args'\<rparr>), False))))"

text \<open>Step 4: the policy decision.\<close>

datatype policy_outcome = Forward string AuditDecision | Denied string | PolicyPanic

definition initial_decision :: "'c libs \<Rightarrow> bool \<Rightarrow> McpToolCallParams option \<Rightarrow> AuditDecision" where
  "initial_decision ls pii params =
     (if pii then AuditRedactArgs (arguments_text (lib_sj ls) (Option.bind params arguments)) else AuditAllow)"

definition count_redaction :: "bool \<Rightarrow> 'c Proxy \<Rightarrow> 'c Proxy" where
  "count_redaction pii px = (if pii then px\<lparr>metrics := inc_policy_decisions ''redact'' (metrics px)\<rparr> else px)"

text \<open>What the handler does with the result of the evaluation, given with the time it took.\<close>

definition policy_apply ::
  "'c libs \<Rightarrow> env \<Rightarrow> AgentContext \<Rightarrow> string \<Rightarrow> McpToolCallParams option \<Rightarrow> bool
   \<Rightarrow> duration \<times> (SafeGateError + PolicyDecision) \<Rightarrow> 'c Proxy \<Rightarrow> 'c Proxy \<times> policy_outcome" where
  "policy_apply ls ev ctx body params pii evaluation px =
     (let px = px\<lparr>metrics := observe_wasm_latency (fst evaluation) (metrics px)\<rparr>;
          allowed = (if pii then px else px\<lparr>metrics := inc_policy_decisions ''allow'' (metrics px)\<rparr>);
          initial = initial_decision ls pii params
      in (case snd evaluation of
            Inr Allow \<Rightarrow> (allowed, Forward body initial)
          | Inr (Deny reason) \<Rightarrow>
              (px\<lparr>circuit_breaker := record_failure (circuit_breaker px) (agent_id ctx) (failure_now ev),
                  metrics := inc_policy_decisions ''deny'' (metrics px)\<rparr>,
               Denied reason)
          | Inr (RedactArgs new_args_json) \<Rightarrow>
              (let px = px\<lparr>metrics := inc_policy_decisions ''redact'' (metrics px)\<rparr>
               in (case rebuild_tool_call_body (lib_sj ls) body new_args_json of
                     Rebuilt new_body \<Rightarrow> (px, Forward new_body (AuditRedactArgs new_args_json))
                   | RebuildError e \<Rightarrow> (px, Forward body (AuditRedactArgs new_args_json))
                   | RebuildPanic \<Rightarrow> (px, PolicyPanic)))
          | Inl e \<Rightarrow> (allowed, Forward body initial)))"

definition evaluate_call ::
  "'c libs \<Rightarrow> env \<Rightarrow> AgentContext \<Rightarrow> McpToolCallParams \<Rightarrow> 'c Proxy \<Rightarrow> duration \<times> (SafeGateError + PolicyDecision)" where
  "evaluate_call ls ev ctx p px =
     evaluate_policy (lib_sj ls) (lib_wl ls) (registry_get (policy_registry px) (tenant_id ctx)) ctx p
       (ticks ev) (timer_late ev) (wasm_now ev)"

definition policy_stage ::
  "'c libs \<Rightarrow> env \<Rightarrow> AgentContext \<Rightarrow> string \<Rightarrow> McpToolCallParams option \<Rightarrow> bool \<Rightarrow> 'c Proxy \<Rightarrow> 'c Proxy \<times> policy_outcome" where
  "policy_stage ls ev ctx body params pii px =
     (case params of
        None \<Rightarrow> (count_redaction pii px, Forward body (initial_decision ls pii params))
      | Some p \<Rightarrow> policy_apply ls ev ctx body params pii (evaluate_call ls ev ctx p px) (count_redaction pii px))"

text \<open>The end of a denied request.\<close>

definition deny_stage :: "'c libs \<Rightarrow> env \<Rightarrow> AgentContext \<Rightarrow> string \<Rightarrow> json \<Rightarrow> string \<Rightarrow> 'c Proxy \<Rightarrow> 'c Proxy \<times> Response" where
  "deny_stage ls ev ctx tool i reason px =
     (let elapsed = duration_since (deny_now ev) (request_start ev);
          px = px\<lparr>metrics := inc_http_requests ''403'' (tenant_id ctx) (observe_proxy_latency elapsed (metrics px))\<rparr>;
          px = emit_audit ls ev ctx tool (AuditDeny reason) (as_micros elapsed) px
      in (px, json_rpc_error_response (lib_sj ls) 403 i (GuardrailViolation reason)))"

text \<open>Steps 5 to 7: forwarding, audit record, metrics.\<close>

definition upstream_request :: "InboundRequest \<Rightarrow> Uri \<Rightarrow> string \<Rightarrow> HttpRequest" where
  "upstream_request rq u body =
     \<lparr>http_method = in_method rq, http_uri = u, http_version = in_version rq,
      http_headers = header_insert (header_remove (in_headers rq) ''host'') ''content-length'' (show_nat (length body)),
      http_body = body\<rparr>"

text \<open>After the upstream answered, or failed to.\<close>

definition forward_complete ::
  "'c libs \<Rightarrow> env \<Rightarrow> AgentContext \<Rightarrow> string \<Rightarrow> json \<Rightarrow> AuditDecision \<Rightarrow> string + UpstreamResponse
   \<Rightarrow> 'c Proxy \<Rightarrow> 'c Proxy \<times> Response" where
  "forward_complete ls ev ctx tool i decision upstream_result px =
     (let elapsed = duration_since (done_now ev) (request_start ev);
          px = emit_audit ls ev ctx tool decision (as_micros elapsed) px;
          px = px\<lparr>metrics := observe_proxy_latency elapsed (metrics px)\<rparr>
      in (case upstream_result of
            Inr response \<Rightarrow>
              (px\<lparr>metrics := inc_http_requests (show_nat (up_status response)) (tenant_id ctx) (metrics px)\<rparr>,
               relay_response (lib_sj ls) response)
          | Inl e \<Rightarrow>
              (px\<lparr>metrics := inc_http_requests ''502'' (tenant_id ctx) (metrics px)\<rparr>,
               json_rpc_error_response (lib_sj ls) 502 i
                 (InternalError (''upstream MCP server is unavailable: '' @ e)))))"

definition forward_stage ::
  "'c libs \<Rightarrow> env \<Rightarrow> InboundRequest \<Rightarrow> AgentContext \<Rightarrow> string \<Rightarrow> json \<Rightarrow> string \<Rightarrow> AuditDecision
   \<Rightarrow> 'c Proxy \<Rightarrow> 'c Proxy \<times> Response" where
  "forward_stage ls ev rq ctx tool i body decision px =
     (case upstream_uri ls (target_base px) (in_uri rq) of
        Inl e \<Rightarrow> (px, json_rpc_error_response (lib_sj ls) 502 i e)
      | Inr u \<Rightarrow>
          (let req = upstream_request rq u body
           in forward_complete ls ev ctx tool i decision (upstream ev req) (px\<lparr>client := client px @ [req]\<rparr>)))"

text \<open>From the read request on.\<close>

definition process ::
  "'c libs \<Rightarrow> env \<Rightarrow> InboundRequest \<Rightarrow> AgentContext \<Rightarrow> string \<Rightarrow> json \<Rightarrow> McpToolCallParams option
   \<Rightarrow> 'c Proxy \<Rightarrow> 'c Proxy \<times> outcome" where
  "process ls ev rq ctx body i params px =
     (let tool = tool_name_of params
      in case redact_stage ls (redactor px) body params of
           None \<Rightarrow> (px, Panicked)
         | Some (body, params, pii) \<Rightarrow>
             (case policy_stage ls ev ctx body params pii px of
                (px, PolicyPanic) \<Rightarrow> (px, Panicked)
              | (px, Denied reason) \<Rightarrow> map_prod (\<lambda>px. px) Responded (deny_stage ls ev ctx tool i reason px)
              | (px, Forward body decision) \<Rightarrow>
                  map_prod (\<lambda>px. px) Responded (forward_stage ls ev rq ctx tool i body decision px)))"

definition handle_request :: "'c libs \<Rightarrow> env \<Rightarrow> InboundRequest \<Rightarrow> 'c Proxy \<Rightarrow> 'c Proxy \<times> outcome" where
  "handle_request ls ev rq px =
     (if lib_uri_path ls (in_uri rq) = ''/metrics'' then map_prod (\<lambda>px. px) Responded (handle_metrics ls px)
      else if lib_uri_path ls (in_uri rq) = ''/healthz'' then map_prod (\<lambda>px. px) Responded (handle_healthz ls px)
      else
        (let ctx = extract_agent_context (lib_to_str ls) (in_headers rq)
         in (case admit ls ev ctx px of
               (px, Inl response) \<Rightarrow> (px, Responded response)
             | (px, Inr _) \<Rightarrow>
                 (case read_request ls rq of
                    Inl response \<Rightarrow> (px, Responded response)
                  | Inr (body, i, params) \<Rightarrow> process ls ev rq ctx body i params px))))"

end
