(* ===== verification/Proxy_Properties.thy ===== *)
theory Proxy_Properties
  imports Proxy
begin

text \<open>
  What the pipeline of \<open>proxy.rs\<close> guarantees: which requests reach the upstream server and in
  what form, what is audited, how denials feed the circuit breaker, what redaction achieves
  end to end, and the inputs on which it is bypassed.
\<close>

section \<open>What each stage touches\<close>

abbreviation context_of :: "'c libs \<Rightarrow> InboundRequest \<Rightarrow> AgentContext" where
  "context_of ls rq \<equiv> extract_agent_context (lib_to_str ls) (in_headers rq)"

definition special_path :: "'c libs \<Rightarrow> InboundRequest \<Rightarrow> bool" where
  "special_path ls rq \<longleftrightarrow> lib_uri_path ls (in_uri rq) = ''/metrics'' \<or> lib_uri_path ls (in_uri rq) = ''/healthz''"

lemma admit_frame:
  assumes "admit ls ev ctx px = (px1, r)"
  shows "client px1 = client px" "audit_logger px1 = audit_logger px" "metrics px1 = metrics px"
    "policy_registry px1 = policy_registry px" "target_base px1 = target_base px" "redactor px1 = redactor px"
  using assms by (auto simp: admit_def Let_def split: if_splits prod.splits sum.splits)

lemma admit_ok:
  assumes "admit ls ev ctx px = (px1, Inr u)"
  shows "authenticated ctx"
    and "check_rate_limit (rate_limiter px) (agent_id ctx) AGENT_RATE_LIMIT AGENT_RATE_LIMIT_WINDOW (rate_now ev)
      = (rate_limiter px1, Inr ())"
    and "check (circuit_breaker px) (agent_id ctx) (check_now ev) = (circuit_breaker px1, Inr ())"
  using assms by (auto simp: admit_def Let_def split: if_splits prod.splits sum.splits)

lemma admit_refused:
  assumes "admit ls ev ctx px = (px1, Inl r)"
  shows "status r \<in> {401, 429}"
  using assms by (auto simp: admit_def Let_def json_rpc_error_response_def split: if_splits prod.splits sum.splits)

lemma read_refused: "read_request ls rq = Inl r \<Longrightarrow> status r = 400"
  by (auto simp: read_request_def json_rpc_error_response_def split: sum.splits if_splits)

lemma policy_stage_frame:
  assumes "policy_stage ls ev ctx body params pii px = (px2, r)"
  shows "client px2 = client px" "audit_logger px2 = audit_logger px" "rate_limiter px2 = rate_limiter px"
    "policy_registry px2 = policy_registry px" "target_base px2 = target_base px" "redactor px2 = redactor px"
  using assms
  by (auto simp: policy_stage_def policy_apply_def count_redaction_def Let_def split: option.splits prod.splits sum.splits PolicyDecision.splits
      rebuild.splits if_splits)

text \<open>The verdict of the loaded policy on the redacted call.\<close>

definition policy_verdict ::
  "'c libs \<Rightarrow> env \<Rightarrow> AgentContext \<Rightarrow> McpToolCallParams \<Rightarrow> 'c Proxy \<Rightarrow> SafeGateError + PolicyDecision" where
  "policy_verdict ls ev ctx p px = snd (evaluate_call ls ev ctx p px)"

lemma policy_stage_outcome:
  "snd (policy_stage ls ev ctx body params pii px) =
     (case params of
        None \<Rightarrow> Forward body (initial_decision ls pii params)
      | Some p \<Rightarrow>
          (case policy_verdict ls ev ctx p px of
             Inr Allow \<Rightarrow> Forward body (initial_decision ls pii params)
           | Inr (Deny reason) \<Rightarrow> Denied reason
           | Inr (RedactArgs a) \<Rightarrow>
               (case rebuild_tool_call_body (lib_sj ls) body a of
                  Rebuilt new_body \<Rightarrow> Forward new_body (AuditRedactArgs a)
                | RebuildError e \<Rightarrow> Forward body (AuditRedactArgs a)
                | RebuildPanic \<Rightarrow> PolicyPanic)
           | Inl e \<Rightarrow> Forward body (initial_decision ls pii params)))"
  by (simp add: policy_stage_def policy_apply_def count_redaction_def policy_verdict_def Let_def
      split: option.splits prod.splits sum.splits PolicyDecision.splits rebuild.splits)

lemma policy_stage_denied_iff:
  "snd (policy_stage ls ev ctx body params pii px) = Denied reason \<longleftrightarrow>
     (\<exists>p. params = Some p \<and> policy_verdict ls ev ctx p px = Inr (Deny reason))"
  by (auto simp: policy_stage_outcome split: option.splits sum.splits PolicyDecision.splits rebuild.splits)

lemma deny_stage_simps:
  "client (fst (deny_stage ls ev ctx tool i reason px)) = client px"
  "circuit_breaker (fst (deny_stage ls ev ctx tool i reason px)) = circuit_breaker px"
  "rate_limiter (fst (deny_stage ls ev ctx tool i reason px)) = rate_limiter px"
  "snd (deny_stage ls ev ctx tool i reason px) = json_rpc_error_response (lib_sj ls) 403 i (GuardrailViolation reason)"
  by (simp_all add: deny_stage_def emit_audit_def Let_def)

lemma forward_stage_rate [simp]:
  "rate_limiter (fst (forward_stage ls ev rq ctx tool i body d px)) = rate_limiter px"
  "circuit_breaker (fst (forward_stage ls ev rq ctx tool i body d px)) = circuit_breaker px"
  by (auto simp: forward_stage_def forward_complete_def emit_audit_def Let_def split: sum.splits)

text \<open>The record that a request leaves.\<close>

definition audit_record ::
  "'c libs \<Rightarrow> env \<Rightarrow> AgentContext \<Rightarrow> string \<Rightarrow> AuditDecision \<Rightarrow> nat \<Rightarrow> 'c Proxy \<Rightarrow> AuditLogEntry" where
  "audit_record ls ev ctx tool decision latency px =
     entry_new (lib_sj ls) (lib_al ls) (wall_now ev) (trace_id ev) (Some (tenant_id ctx)) (agent_id ctx)
       tool decision latency (hmac_secret (audit_logger px))"

lemma forward_stage_effect:
  assumes "forward_stage ls ev rq ctx tool i body d px = (px', r)"
  shows "(\<exists>e. upstream_uri ls (target_base px) (in_uri rq) = Inl e \<and> px' = px \<and> status r = 502)
    \<or> (\<exists>u. upstream_uri ls (target_base px) (in_uri rq) = Inr u
        \<and> client px' = client px @ [upstream_request rq u body]
        \<and> audit_logger px' = log_entry (audit_logger px)
            (audit_record ls ev ctx tool d (as_micros (duration_since (done_now ev) (request_start ev))) px))"
  using assms
  by (auto simp: forward_stage_def forward_complete_def emit_audit_def audit_record_def json_rpc_error_response_def Let_def
      split: sum.splits)

section \<open>The path of a request\<close>

text \<open>A request that is cleared up to the policy: what the stages before it produced.\<close>

definition cleared ::
  "'c libs \<Rightarrow> env \<Rightarrow> InboundRequest \<Rightarrow> 'c Proxy \<Rightarrow> 'c Proxy \<Rightarrow> string \<Rightarrow> json \<Rightarrow> McpToolCallParams option
   \<Rightarrow> string \<Rightarrow> McpToolCallParams option \<Rightarrow> bool \<Rightarrow> bool" where
  "cleared ls ev rq px px1 body i params body1 params1 pii \<longleftrightarrow>
     \<not> special_path ls rq \<and> admit ls ev (context_of ls rq) px = (px1, Inr ())
     \<and> read_request ls rq = Inr (body, i, params)
     \<and> redact_stage ls (redactor px) body params = Some (body1, params1, pii)"

lemma handle_request_cleared:
  assumes "cleared ls ev rq px px1 body i params body1 params1 pii"
  shows "handle_request ls ev rq px =
    (case policy_stage ls ev (context_of ls rq) body1 params1 pii px1 of
       (px2, PolicyPanic) \<Rightarrow> (px2, Panicked)
     | (px2, Denied reason) \<Rightarrow>
         map_prod (\<lambda>px. px) Responded (deny_stage ls ev (context_of ls rq) (tool_name_of params) i reason px2)
     | (px2, Forward body2 decision) \<Rightarrow>
         map_prod (\<lambda>px. px) Responded
           (forward_stage ls ev rq (context_of ls rq) (tool_name_of params) i body2 decision px2))"
proof -
  from assms have "redactor px1 = redactor px" using admit_frame(6) by (auto simp: cleared_def)
  with assms show ?thesis
    by (simp add: cleared_def special_path_def handle_request_def process_def Let_def)
qed

lemma not_cleared:
  assumes "handle_request ls ev rq px = (px', r)"
    and "\<nexists>px1 body i params body1 params1 pii. cleared ls ev rq px px1 body i params body1 params1 pii"
  shows "client px' = client px" and "audit_logger px' = audit_logger px"
proof -
  let ?ctx = "context_of ls rq"
  have "client px' = client px \<and> audit_logger px' = audit_logger px"
  proof (cases "special_path ls rq")
    case True
    with assms(1) show ?thesis
      by (auto simp: special_path_def handle_request_def handle_metrics_def handle_healthz_def Let_def
          split: if_splits prod.splits sum.splits)
  next
    case ns: False
    obtain px1 a where a: "admit ls ev ?ctx px = (px1, a)" by fastforce
    note frame = admit_frame [OF a]
    show ?thesis
    proof (cases a)
      case (Inl x)
      with ns a assms(1) frame show ?thesis by (auto simp: special_path_def handle_request_def Let_def)
    next
      case ok: (Inr x)
      show ?thesis
      proof (cases "read_request ls rq")
        case (Inl y)
        with ns a ok assms(1) frame show ?thesis by (auto simp: special_path_def handle_request_def Let_def)
      next
        case (Inr y)
        then obtain body i params where y: "read_request ls rq = Inr (body, i, params)" by (cases y) auto
        have "redact_stage ls (redactor px) body params = None"
          using assms(2) ns a ok y by (fastforce simp: cleared_def)
        with ns a ok y assms(1) frame show ?thesis
          by (auto simp: special_path_def handle_request_def process_def Let_def)
      qed
    qed
  qed
  then show "client px' = client px" and "audit_logger px' = audit_logger px" by auto
qed

text \<open>What a cleared request that is forwarded leaves behind.\<close>

lemma cleared_forward:
  assumes "cleared ls ev rq px px1 body i params body1 params1 pii"
    and "snd (policy_stage ls ev (context_of ls rq) body1 params1 pii px1) = Forward body2 decision"
    and "upstream_uri ls (target_base px) (in_uri rq) = Inr u"
  shows "client (fst (handle_request ls ev rq px)) = client px @ [upstream_request rq u body2]"
    and "audit_logger (fst (handle_request ls ev rq px)) = log_entry (audit_logger px)
        (audit_record ls ev (context_of ls rq) (tool_name_of params) decision
           (as_micros (duration_since (done_now ev) (request_start ev))) px)"
proof -
  from assms(1) have a: "admit ls ev (context_of ls rq) px = (px1, Inr ())" by (simp add: cleared_def)
  from assms(2) obtain px2 where ps: "policy_stage ls ev (context_of ls rq) body1 params1 pii px1 = (px2, Forward body2 decision)"
    by (metis prod.collapse)
  obtain px' r where fs: "forward_stage ls ev rq (context_of ls rq) (tool_name_of params) i body2 decision px2 = (px', r)"
    by fastforce
  have h: "fst (handle_request ls ev rq px) = px'"
    using handle_request_cleared [OF assms(1)] ps fs by simp
  from forward_stage_effect [OF fs] policy_stage_frame [OF ps] admit_frame [OF a] assms(3)
  show "client (fst (handle_request ls ev rq px)) = client px @ [upstream_request rq u body2]"
    and "audit_logger (fst (handle_request ls ev rq px)) = log_entry (audit_logger px)
        (audit_record ls ev (context_of ls rq) (tool_name_of params) decision
           (as_micros (duration_since (done_now ev) (request_start ev))) px)"
    by (auto simp: audit_record_def h)
qed

text \<open>A request that reaches the upstream server has passed every stage.\<close>

lemma forwardedE:
  assumes "client (fst (handle_request ls ev rq px)) \<noteq> client px"
  obtains px1 body i params body1 params1 pii px2 body2 decision u where
    "cleared ls ev rq px px1 body i params body1 params1 pii"
    "policy_stage ls ev (context_of ls rq) body1 params1 pii px1 = (px2, Forward body2 decision)"
    "upstream_uri ls (target_base px) (in_uri rq) = Inr u"
    "client (fst (handle_request ls ev rq px)) = client px @ [upstream_request rq u body2]"
    "audit_logger (fst (handle_request ls ev rq px)) = log_entry (audit_logger px)
       (audit_record ls ev (context_of ls rq) (tool_name_of params) decision
          (as_micros (duration_since (done_now ev) (request_start ev))) px)"
proof -
  obtain px1 body i params body1 params1 pii where c: "cleared ls ev rq px px1 body i params body1 params1 pii"
    using not_cleared(1) assms by (metis prod.collapse)
  obtain px2 po where ps: "policy_stage ls ev (context_of ls rq) body1 params1 pii px1 = (px2, po)" by fastforce
  note pf = policy_stage_frame [OF ps]
  have af: "client px1 = client px" "audit_logger px1 = audit_logger px" "target_base px1 = target_base px"
    using c admit_frame by (auto simp: cleared_def)
  show ?thesis
  proof (cases po)
    case (Forward body2 decision)
    obtain px' r where fs: "forward_stage ls ev rq (context_of ls rq) (tool_name_of params) i body2 decision px2 = (px', r)"
      by fastforce
    have h: "fst (handle_request ls ev rq px) = px'"
      using handle_request_cleared [OF c] ps Forward fs by simp
    with assms pf af forward_stage_effect [OF fs]
    obtain u where u: "upstream_uri ls (target_base px) (in_uri rq) = Inr u"
      "client px' = client px @ [upstream_request rq u body2]"
      "audit_logger px' = log_entry (audit_logger px2) (audit_record ls ev (context_of ls rq) (tool_name_of params)
         decision (as_micros (duration_since (done_now ev) (request_start ev))) px2)"
      by auto
    with h pf af Forward that [OF c _ u(1)] ps show ?thesis by (simp add: audit_record_def)
  next
    case (Denied reason)
    with handle_request_cleared [OF c] ps pf af assms show ?thesis by (simp add: deny_stage_simps)
  next
    case PolicyPanic
    with handle_request_cleared [OF c] ps pf af assms show ?thesis by simp
  qed
qed

section \<open>A concrete gateway\<close>

text \<open>The reference instances of the crates together, and a gateway with one tenant.\<close>

definition plain_path :: "Uri \<Rightarrow> string" where
  "plain_path u = (case uri_path_and_query u of None \<Rightarrow> [] | Some p \<Rightarrow> takeWhile (\<lambda>c. c \<noteq> CHR ''?'') p)"

definition demo_base :: Uri where
  "demo_base = \<lparr>uri_scheme = Some ''http'', uri_authority = Some ''mcp:3000'', uri_path_and_query = None\<rparr>"

definition demo_libs :: "timed_policy libs" where
  "demo_libs =
     \<lparr>lib_rx = reference_rx, lib_sj = reference_json, lib_al = reference_audit, lib_wl = timed_runtime,
      lib_pl = \<lparr>encode_text = \<lambda>m. Inr [], utf8_error = \<lambda>b. None\<rparr>, lib_to_str = visible_ascii,
      lib_uri_path = plain_path, lib_uri_parse = \<lambda>s. Inr demo_base, lib_uri_from_parts = Inr\<rparr>"

definition demo_env :: env where
  "demo_env =
     \<lparr>request_start = 1, rate_now = 2, check_now = 3, wasm_now = 4, failure_now = 5, deny_now = 6, done_now = 7,
      wall_now = 8, trace_id = ''t'', ticks = [], timer_late = 0, upstream = \<lambda>req. Inl ''down''\<rparr>"

definition demo_proxy :: "timed_policy Proxy" where
  "demo_proxy =
     \<lparr>target_base = demo_base, client = [], rate_limiter = rate_limiter_new,
      policy_registry = \<lparr>tenant_dir = ''t'', engines = Map.empty,
        default_engine = \<lparr>component = Some (Some 1000, sample_policy_evaluate), sandbox = default_sandbox\<rparr>\<rparr>,
      audit_logger = audit_logger_new Stdout ''k'', redactor = pii_redactor_new,
      circuit_breaker = circuit_breaker_new, metrics = metrics_initial\<rparr>"

definition demo_headers :: headers where
  "demo_headers = [(''host'', ''gate''), (''authorization'', ''Bearer safegate-dev-token''), (''x-agent-id'', ''bot'')]"

definition demo_request :: "string \<Rightarrow> string \<Rightarrow> InboundRequest" where
  "demo_request verb body =
     \<lparr>in_method = verb, in_uri = \<lparr>uri_scheme = None, uri_authority = None, uri_path_and_query = Some ''/mcp''\<rparr>,
      in_version = ''HTTP/1.1'', in_headers = demo_headers, in_body = Inr body\<rparr>"

definition bot_context :: AgentContext where
  "bot_context = \<lparr>agent_id = ''bot'', tenant_id = ''default_tenant'', roles = [], authenticated = True\<rparr>"

lemma demo_fields [simp]:
  "lib_rx demo_libs = reference_rx" "lib_sj demo_libs = reference_json" "lib_al demo_libs = reference_audit"
  "client demo_proxy = []" "target_base demo_proxy = demo_base" "metrics demo_proxy = metrics_initial"
  "redactor demo_proxy = pii_redactor_new" "phase (audit_logger demo_proxy) = Starting"
  "sent (audit_logger demo_proxy) = []" "hmac_secret (audit_logger demo_proxy) = ''k''"
  by (simp_all add: demo_libs_def demo_proxy_def audit_logger_new_def)

lemma demo_simps [simp]:
  "\<not> special_path demo_libs (demo_request verb body)"
  "context_of demo_libs (demo_request verb body) = bot_context"
  "in_method (demo_request verb body) = verb"
  "in_body (demo_request verb body) = Inr body"
proof -
  have "plain_path (in_uri (demo_request verb body)) = ''/mcp''"
    by (simp add: plain_path_def demo_request_def)
  then show "\<not> special_path demo_libs (demo_request verb body)"
    by (simp add: special_path_def demo_libs_def)
  have "extract_agent_context visible_ascii demo_headers = bot_context" by code_simp
  then show "context_of demo_libs (demo_request verb body) = bot_context"
    by (simp add: demo_libs_def demo_request_def)
qed (simp_all add: demo_request_def)

lemma demo_admit:
  "admit demo_libs demo_env bot_context demo_proxy
     = (demo_proxy\<lparr>rate_limiter := \<lparr>requests = [''bot'' \<mapsto> [2]]\<rparr>\<rparr>, Inr ())"
  by (simp add: admit_def demo_env_def demo_proxy_def bot_context_def check_rate_limit_def rate_limiter_new_def
      timestamps_of_def AGENT_RATE_LIMIT_def check_def circuit_breaker_new_def with_params_def Let_def)

text \<open>Bodies other than JSON-RPC pass unread when the method is not \<open>POST\<close>.\<close>

lemma demo_get_cleared:
  "cleared demo_libs demo_env (demo_request ''GET'' body) demo_proxy
     (demo_proxy\<lparr>rate_limiter := \<lparr>requests = [''bot'' \<mapsto> [2]]\<rparr>\<rparr>) body JNull None body None False"
  by (simp add: cleared_def demo_admit read_request_def redact_stage_def)

lemma demo_get_client:
  "client (fst (handle_request demo_libs demo_env (demo_request ''GET'' body) demo_proxy))
     = [upstream_request (demo_request ''GET'' body) (demo_base\<lparr>uri_path_and_query := Some ''/mcp''\<rparr>) body]"
proof -
  have "upstream_uri demo_libs demo_base (in_uri (demo_request ''GET'' body))
      = Inr (demo_base\<lparr>uri_path_and_query := Some ''/mcp''\<rparr>)"
    by (simp add: upstream_uri_def demo_libs_def demo_request_def)
  then show ?thesis
    unfolding handle_request_cleared [OF demo_get_cleared]
    by (simp add: policy_stage_def count_redaction_def forward_stage_def forward_complete_def demo_proxy_def demo_env_def Let_def emit_audit_def)
qed

text \<open>A \<open>tools/call\<close> request, and the call of \<open>drop_table\<close> that the example policy denies.\<close>

definition tool_call_doc :: "json \<Rightarrow> json" where
  "tool_call_doc params = JObject [(''id'', JNumber (PosInt 1)), (''method'', JString ''tools/call''), (''params'', params)]"

abbreviation drop_body :: string where
  "drop_body \<equiv> print_json (tool_call_doc (JObject [(''name'', JString ''drop_table'')]))"

lemma drop_read:
  "read_request demo_libs (demo_request ''POST'' drop_body) = Inr (drop_body, JNumber (PosInt 1), Some drop_call)"
proof -
  have "request_from_slice reference_json drop_body = Inr \<lparr>req_jsonrpc = ''2.0'', req_id = JNumber (PosInt 1),
      req_method = ''tools/call'', req_params = Some (JObject [(''name'', JString ''drop_table'')])\<rparr>" by code_simp
  moreover have "tool_call_params_from_value (JObject [(''name'', JString ''drop_table'')]) = Inr drop_call" by code_simp
  ultimately show ?thesis by (simp add: read_request_def parse_tool_params_def demo_libs_def)
qed

lemma drop_cleared:
  "cleared demo_libs demo_env (demo_request ''POST'' drop_body) demo_proxy
     (demo_proxy\<lparr>rate_limiter := \<lparr>requests = [''bot'' \<mapsto> [2]]\<rparr>\<rparr>) drop_body (JNumber (PosInt 1)) (Some drop_call)
     drop_body (Some drop_call) False"
  by (simp add: cleared_def demo_admit drop_read redact_stage_def drop_call_def)

lemma sample_verdict:
  "policy_verdict demo_libs demo_env ctx p demo_proxy
     = Inr (evaluate_request \<lparr>wit_tool_name = tool_name_param p,
                               wit_arguments_json = arguments_text reference_json (arguments p)\<rparr>)"
  by (simp add: policy_verdict_def evaluate_call_def demo_libs_def demo_env_def demo_proxy_def registry_get_def evaluate_policy_def
      timed_runtime_def timed_call_def default_sandbox_def epoch_budget_def EXECUTION_TIMEOUT_def from_millis_def
      sample_policy_evaluate_def Let_def)

lemma drop_denied:
  "policy_verdict demo_libs demo_env bot_context drop_call demo_proxy = Inr (Deny ''Unsafe action blocked by WASM policy'')"
  by (simp add: sample_verdict evaluate_request_def drop_call_def)

section \<open>Properties\<close>

text \<open>
  C14. The gate: a request reaches the upstream server only if it carries the bearer token, its
  agent is within its quota of 60 requests a minute and not quarantined, its body was read
  and, for a \<open>POST\<close>, is a JSON-RPC request, and the tenant's policy did not deny the redacted
  tool call. One request causes at most one upstream request.
\<close>

theorem forwarded_only_if_cleared:
  assumes "client (fst (handle_request ls ev rq px)) \<noteq> client px"
  shows "authenticated (context_of ls rq)
    \<and> snd (check_rate_limit (rate_limiter px) (agent_id (context_of ls rq)) 60 (from_secs 60) (rate_now ev)) = Inr ()
    \<and> snd (check (circuit_breaker px) (agent_id (context_of ls rq)) (check_now ev)) = Inr ()
    \<and> (\<exists>body i params body1 params1 pii.
         in_body rq = Inr body \<and> (in_method rq = ''POST'' \<longrightarrow> (\<exists>rpc. request_from_slice (lib_sj ls) body = Inr rpc))
         \<and> read_request ls rq = Inr (body, i, params)
         \<and> redact_stage ls (redactor px) body params = Some (body1, params1, pii)
         \<and> (\<forall>p reason. params1 = Some p \<longrightarrow> policy_verdict ls ev (context_of ls rq) p px \<noteq> Inr (Deny reason)))
    \<and> (\<exists>req. client (fst (handle_request ls ev rq px)) = client px @ [req])"
proof -
  from assms obtain px1 body i params body1 params1 pii px2 body2 decision u where
    c: "cleared ls ev rq px px1 body i params body1 params1 pii"
    and ps: "policy_stage ls ev (context_of ls rq) body1 params1 pii px1 = (px2, Forward body2 decision)"
    and cl: "client (fst (handle_request ls ev rq px)) = client px @ [upstream_request rq u body2]"
    by (rule forwardedE)
  from c have a: "admit ls ev (context_of ls rq) px = (px1, Inr ())"
    and r: "read_request ls rq = Inr (body, i, params)"
    and rd: "redact_stage ls (redactor px) body params = Some (body1, params1, pii)" by (auto simp: cleared_def)
  have reg: "policy_verdict ls ev (context_of ls rq) p px1 = policy_verdict ls ev (context_of ls rq) p px" for p
    using admit_frame(4) [OF a] by (simp add: policy_verdict_def evaluate_call_def)
  have "\<forall>p reason. params1 = Some p \<longrightarrow> policy_verdict ls ev (context_of ls rq) p px \<noteq> Inr (Deny reason)"
    using policy_stage_denied_iff [of ls ev "context_of ls rq" body1 params1 pii px1] ps reg by auto
  moreover have "in_body rq = Inr body"
    and "in_method rq = ''POST'' \<longrightarrow> (\<exists>rpc. request_from_slice (lib_sj ls) body = Inr rpc)"
    using r by (auto simp: read_request_def split: sum.splits if_splits)
  ultimately show ?thesis
    using admit_ok [OF a] r rd cl by (simp add: AGENT_RATE_LIMIT_def AGENT_RATE_LIMIT_WINDOW_def)
qed

theorem forwarded_only_if_cleared_witness:
  "authenticated bot_context
   \<and> snd (check (circuit_breaker demo_proxy) ''bot'' (check_now demo_env)) = Inr ()"
proof -
  have "client (fst (handle_request demo_libs demo_env (demo_request ''GET'' ''x'') demo_proxy)) \<noteq> client demo_proxy"
    by (simp add: demo_get_client)
  from forwarded_only_if_cleared [OF this] show ?thesis by (simp add: bot_context_def)
qed

text \<open>What the \<open>http\<close> crate promises: a URI built from parts has those parts.\<close>

locale uri_crate =
  fixes from_parts :: "Uri \<Rightarrow> string + Uri"
  assumes from_parts_id: "from_parts u = Inr u' \<Longrightarrow> u' = u"
begin

lemma from_parts_fields:
  "from_parts (base\<lparr>uri_path_and_query := pq\<rparr>) = Inr u \<Longrightarrow>
     uri_scheme u = uri_scheme base \<and> uri_authority u = uri_authority base \<and> uri_path_and_query u = pq"
  by (auto dest: from_parts_id)

end

interpretation demo_uri: uri_crate "lib_uri_from_parts demo_libs"
  by unfold_locales (simp add: demo_libs_def)

text \<open>
  C27. The shape of what is forwarded: same method and version, the configured scheme and authority
  with the inbound path and query, no \<open>Host\<close> header, exactly one \<open>Content-Length\<close>, which is the
  length of the body that is sent, and every other header as it came.
\<close>

theorem forwarded_request_shape:
  assumes "uri_crate (lib_uri_from_parts ls)"
    and "client (fst (handle_request ls ev rq px)) = client px @ [req]"
  shows "http_method req = in_method rq \<and> http_version req = in_version rq
    \<and> uri_scheme (http_uri req) = uri_scheme (target_base px)
    \<and> uri_authority (http_uri req) = uri_authority (target_base px)
    \<and> uri_path_and_query (http_uri req) = uri_path_and_query (in_uri rq)
    \<and> filter (\<lambda>(n, v). n = ''content-length'') (http_headers req)
        = [(''content-length'', show_nat (length (http_body req)))]
    \<and> header_get (http_headers req) ''host'' = None
    \<and> (\<forall>n. n \<noteq> ''host'' \<and> n \<noteq> ''content-length'' \<longrightarrow> header_get (http_headers req) n = header_get (in_headers rq) n)"
proof -
  from assms(2) have "client (fst (handle_request ls ev rq px)) \<noteq> client px" by simp
  then obtain body2 u where u: "upstream_uri ls (target_base px) (in_uri rq) = Inr u"
    and "client (fst (handle_request ls ev rq px)) = client px @ [upstream_request rq u body2]"
    by (rule forwardedE) blast
  with assms(2) have req: "req = upstream_request rq u body2" by simp
  from u have "lib_uri_from_parts ls ((target_base px)\<lparr>uri_path_and_query := uri_path_and_query (in_uri rq)\<rparr>) = Inr u"
    by (auto simp: upstream_uri_def split: sum.splits)
  from uri_crate.from_parts_fields [OF assms(1) this] req show ?thesis
    by (simp add: upstream_request_def header_insert_unique)
qed

theorem forwarded_request_shape_witness:
  "uri_authority (demo_base\<lparr>uri_path_and_query := Some ''/mcp''\<rparr>) = Some ''mcp:3000''
   \<and> filter (\<lambda>(n, v). n = ''content-length'')
       (http_headers (upstream_request (demo_request ''GET'' ''hello'') (demo_base\<lparr>uri_path_and_query := Some ''/mcp''\<rparr>) ''hello''))
     = [(''content-length'', show_nat 5)]"
proof -
  have "client (fst (handle_request demo_libs demo_env (demo_request ''GET'' ''hello'') demo_proxy))
      = client demo_proxy @ [upstream_request (demo_request ''GET'' ''hello'') (demo_base\<lparr>uri_path_and_query := Some ''/mcp''\<rparr>) ''hello'']"
    by (simp add: demo_get_client)
  from forwarded_request_shape [OF demo_uri.uri_crate_axioms this] show ?thesis
    by (simp add: upstream_request_def demo_base_def eval_nat_numeral)
qed

subsection \<open>Denials\<close>

lemma policy_stage_denied_effect:
  assumes "policy_stage ls ev ctx body params pii px = (px2, Denied reason)"
  shows "circuit_breaker px2 = record_failure (circuit_breaker px) (agent_id ctx) (failure_now ev)"
    and "policy_decisions_total (metrics px2) ''deny'' = policy_decisions_total (metrics px) ''deny'' + 1"
    and "http_requests_total (metrics px2) = http_requests_total (metrics px)"
  using assms
  by (auto simp: policy_stage_def policy_apply_def count_redaction_def Let_def split: option.splits prod.splits sum.splits PolicyDecision.splits
      rebuild.splits if_splits)

lemma deny_stage_effect:
  "audit_logger (fst (deny_stage ls ev ctx tool i reason px)) = log_entry (audit_logger px)
     (audit_record ls ev ctx tool (AuditDeny reason) (as_micros (duration_since (deny_now ev) (request_start ev))) px)"
  "policy_decisions_total (metrics (fst (deny_stage ls ev ctx tool i reason px))) = policy_decisions_total (metrics px)"
  "http_requests_total (metrics (fst (deny_stage ls ev ctx tool i reason px))) (''403'', tenant_id ctx)
     = http_requests_total (metrics px) (''403'', tenant_id ctx) + 1"
  by (simp_all add: deny_stage_def emit_audit_def audit_record_def Let_def)

lemma cleared_frame:
  assumes "cleared ls ev rq px px1 body i params body1 params1 pii"
  shows "client px1 = client px" "audit_logger px1 = audit_logger px" "metrics px1 = metrics px"
    "policy_registry px1 = policy_registry px" "target_base px1 = target_base px" "redactor px1 = redactor px"
    "policy_verdict ls ev ctx p px1 = policy_verdict ls ev ctx p px"
    "circuit_breaker px1 = fst (check (circuit_breaker px) (agent_id (context_of ls rq)) (check_now ev))"
proof -
  from assms have a: "admit ls ev (context_of ls rq) px = (px1, Inr ())" by (simp add: cleared_def)
  note admit_frame [OF a]
  then show "client px1 = client px" "audit_logger px1 = audit_logger px" "metrics px1 = metrics px"
    "policy_registry px1 = policy_registry px" "target_base px1 = target_base px" "redactor px1 = redactor px"
    "policy_verdict ls ev ctx p px1 = policy_verdict ls ev ctx p px"
    by (simp_all add: policy_verdict_def evaluate_call_def)
  show "circuit_breaker px1 = fst (check (circuit_breaker px) (agent_id (context_of ls rq)) (check_now ev))"
    by (simp add: admit_ok(3) [OF a])
qed

text \<open>The policy of the tenant denies the redacted call that the request makes.\<close>

definition policy_denies :: "'c libs \<Rightarrow> env \<Rightarrow> InboundRequest \<Rightarrow> 'c Proxy \<Rightarrow> string \<Rightarrow> bool" where
  "policy_denies ls ev rq px reason \<longleftrightarrow>
     (\<exists>px1 body i params body1 p pii. cleared ls ev rq px px1 body i params body1 (Some p) pii
        \<and> policy_verdict ls ev (context_of ls rq) p px = Inr (Deny reason))"

text \<open>
  C8. A denial blocks: when the tenant's policy denies the redacted call, the client receives 403
  with the guardrail error and its request id, nothing is sent upstream, the circuit breaker
  counts a failure of the agent, exactly one record with the reason is logged, and the
  denial and the response are counted.
\<close>

theorem denied_request_blocked:
  assumes "cleared ls ev rq px px1 body i params body1 (Some p) pii"
    and "policy_verdict ls ev (context_of ls rq) p px = Inr (Deny reason)"
    and "handle_request ls ev rq px = (px', r)"
  shows "r = Responded (json_rpc_error_response (lib_sj ls) 403 i (GuardrailViolation reason))
    \<and> client px' = client px
    \<and> circuit_breaker px' = record_failure (circuit_breaker px1) (agent_id (context_of ls rq)) (failure_now ev)
    \<and> audit_logger px' = log_entry (audit_logger px)
        (audit_record ls ev (context_of ls rq) (tool_name_of params) (AuditDeny reason)
           (as_micros (duration_since (deny_now ev) (request_start ev))) px)
    \<and> policy_decisions_total (metrics px') ''deny'' = policy_decisions_total (metrics px) ''deny'' + 1
    \<and> http_requests_total (metrics px') (''403'', tenant_id (context_of ls rq))
        = http_requests_total (metrics px) (''403'', tenant_id (context_of ls rq)) + 1"
proof -
  note cf = cleared_frame [OF assms(1)]
  from assms(2) cf(7) policy_stage_denied_iff [of ls ev "context_of ls rq" body1 "Some p" pii px1 reason]
  obtain px2 where ps: "policy_stage ls ev (context_of ls rq) body1 (Some p) pii px1 = (px2, Denied reason)"
    by (metis prod.collapse)
  have h: "(px', r) = map_prod (\<lambda>px. px) Responded
      (deny_stage ls ev (context_of ls rq) (tool_name_of params) i reason px2)"
    using handle_request_cleared [OF assms(1)] ps assms(3) by simp
  then have px': "px' = fst (deny_stage ls ev (context_of ls rq) (tool_name_of params) i reason px2)"
    and r: "r = Responded (snd (deny_stage ls ev (context_of ls rq) (tool_name_of params) i reason px2))"
    by (auto simp: map_prod_def split: prod.splits)
  show ?thesis
    using policy_stage_denied_effect [OF ps] policy_stage_frame [OF ps] cf
    by (simp add: px' r deny_stage_simps deny_stage_effect audit_record_def)
qed

theorem denied_request_blocked_witness:
  "snd (handle_request demo_libs demo_env (demo_request ''POST'' drop_body) demo_proxy)
     = Responded (json_rpc_error_response reference_json 403 (JNumber (PosInt 1))
         (GuardrailViolation ''Unsafe action blocked by WASM policy''))
   \<and> client (fst (handle_request demo_libs demo_env (demo_request ''POST'' drop_body) demo_proxy)) = []"
proof -
  have "handle_request demo_libs demo_env (demo_request ''POST'' drop_body) demo_proxy
      = (fst (handle_request demo_libs demo_env (demo_request ''POST'' drop_body) demo_proxy),
         snd (handle_request demo_libs demo_env (demo_request ''POST'' drop_body) demo_proxy))" by simp
  from denied_request_blocked [OF drop_cleared _ this] drop_denied show ?thesis by simp
qed

subsection \<open>Audit\<close>

lemma undecided_unaudited:
  assumes h: "handle_request ls ev rq px = (px', r)" and same: "client px' = client px"
    and nd: "\<nexists>reason. policy_denies ls ev rq px reason"
  shows "sent (audit_logger px') = sent (audit_logger px)"
proof (cases "\<exists>px1 body i params body1 params1 pii. cleared ls ev rq px px1 body i params body1 params1 pii")
  case False
  with not_cleared(2) [OF h] show ?thesis by simp
next
  case True
  then obtain px1 body i params body1 params1 pii where c: "cleared ls ev rq px px1 body i params body1 params1 pii" by blast
  obtain px2 po where ps: "policy_stage ls ev (context_of ls rq) body1 params1 pii px1 = (px2, po)" by fastforce
  note fr = cleared_frame [OF c] policy_stage_frame [OF ps]
  show ?thesis
  proof (cases po)
    case (Forward body2 decision)
    then obtain q where "forward_stage ls ev rq (context_of ls rq) (tool_name_of params) i body2 decision px2 = (px', q)"
      using handle_request_cleared [OF c] ps h by (auto simp: map_prod_def split: prod.splits)
    from forward_stage_effect [OF this] fr same show ?thesis by auto
  next
    case (Denied reason)
    then obtain p where "params1 = Some p" "policy_verdict ls ev (context_of ls rq) p px = Inr (Deny reason)"
      using policy_stage_denied_iff [of ls ev "context_of ls rq" body1 params1 pii px1 reason] ps fr by auto
    with c nd show ?thesis unfolding policy_denies_def by blast
  next
    case PolicyPanic
    with handle_request_cleared [OF c] ps h fr show ?thesis by simp
  qed
qed

text \<open>
  C7. The audit trail matches what happened: while the log writer is alive, a request leaves a
  record exactly when it was sent upstream or denied by the policy, never more than one, and
  the record verifies under the logger's key and names the request's agent and tenant.
\<close>

theorem audited_iff_forwarded_or_denied:
  assumes "phase (audit_logger px) \<noteq> Stopped" and "handle_request ls ev rq px = (px', r)"
  shows "(sent (audit_logger px') = sent (audit_logger px)
      \<and> client px' = client px
      \<and> (\<nexists>reason. policy_denies ls ev rq px reason))
    \<or> (\<exists>e. sent (audit_logger px') = sent (audit_logger px) @ [e]
      \<and> verify (lib_sj ls) (lib_al ls) e (hmac_secret (audit_logger px))
      \<and> entry_agent_id e = agent_id (context_of ls rq) \<and> entry_tenant_id e = Some (tenant_id (context_of ls rq))
      \<and> (client px' \<noteq> client px
         \<or> (\<exists>reason. policy_denies ls ev rq px reason \<and> entry_decision e = AuditDeny reason)))"
proof -
  have rec: "verify (lib_sj ls) (lib_al ls) (audit_record ls ev ctx tool d lat px) (hmac_secret (audit_logger px))
      \<and> entry_agent_id (audit_record ls ev ctx tool d lat px) = agent_id ctx
      \<and> entry_tenant_id (audit_record ls ev ctx tool d lat px) = Some (tenant_id ctx)
      \<and> entry_decision (audit_record ls ev ctx tool d lat px) = d" for ctx tool d lat
    using entry_new_signed by (simp add: audit_record_def verify_def) (simp add: entry_new_def Let_def)
  show ?thesis
  proof (cases "client px' = client px")
    case False
    with assms(2) have "client (fst (handle_request ls ev rq px)) \<noteq> client px" by simp
    then obtain d tool lat where "audit_logger (fst (handle_request ls ev rq px))
        = log_entry (audit_logger px) (audit_record ls ev (context_of ls rq) tool d lat px)"
      by (rule forwardedE)
    with assms False rec show ?thesis by (auto simp: log_entry_def)
  next
    case same: True
    show ?thesis
    proof (cases "\<exists>reason. policy_denies ls ev rq px reason")
      case True
      then obtain reason where pd: "policy_denies ls ev rq px reason" ..
      then obtain px1 body i params body1 p pii where c: "cleared ls ev rq px px1 body i params body1 (Some p) pii"
        and v: "policy_verdict ls ev (context_of ls rq) p px = Inr (Deny reason)" by (auto simp: policy_denies_def)
      obtain px2 where ps: "policy_stage ls ev (context_of ls rq) body1 (Some p) pii px1 = (px2, Denied reason)"
        using v cleared_frame(7) [OF c] policy_stage_denied_iff [of ls ev "context_of ls rq" body1 "Some p" pii px1 reason]
        by (metis prod.collapse)
      have "audit_logger px' = log_entry (audit_logger px) (audit_record ls ev (context_of ls rq) (tool_name_of params)
          (AuditDeny reason) (as_micros (duration_since (deny_now ev) (request_start ev))) px)"
        using handle_request_cleared [OF c] ps assms(2) policy_stage_frame [OF ps] cleared_frame [OF c]
          deny_stage_effect(1) [of ls ev "context_of ls rq" "tool_name_of params" i reason px2]
        by (auto simp: audit_record_def map_prod_def split: prod.splits)
      with assms(1) pd rec show ?thesis by (auto simp: log_entry_def)
    next
      case False
      have "sent (audit_logger px') = sent (audit_logger px)"
        by (rule undecided_unaudited [OF assms(2) same False])
      with same False show ?thesis by blast
    qed
  qed
qed

theorem audited_iff_forwarded_or_denied_witness:
  "\<exists>e. sent (audit_logger (fst (handle_request demo_libs demo_env (demo_request ''GET'' ''x'') demo_proxy))) = [e]
     \<and> verify reference_json reference_audit e ''k''"
proof -
  let ?px = "fst (handle_request demo_libs demo_env (demo_request ''GET'' ''x'') demo_proxy)"
  have "client ?px \<noteq> client demo_proxy" by (simp add: demo_get_client)
  then show ?thesis
    using audited_iff_forwarded_or_denied [of demo_proxy demo_libs demo_env "demo_request ''GET'' ''x''" ?px
        "snd (handle_request demo_libs demo_env (demo_request ''GET'' ''x'') demo_proxy)"]
    by auto
qed

text \<open>
  Rejections before the policy leave no trace: a request that is refused for its token, its rate,
  its quarantine or its body gets 401, 429 or 400, and neither the audit log nor any metric
  records it.
\<close>

theorem early_rejections_unrecorded:
  assumes "\<not> special_path ls rq"
    and "admit ls ev (context_of ls rq) px = (px1, a)" and "isl a \<or> isl (read_request ls rq)"
  shows "\<exists>response. handle_request ls ev rq px = (px1, Responded response) \<and> status response \<in> {400, 401, 429}
    \<and> audit_logger px1 = audit_logger px \<and> metrics px1 = metrics px \<and> client px1 = client px"
proof -
  note fr = admit_frame [OF assms(2)]
  show ?thesis
  proof (cases a)
    case (Inl r)
    with assms(2) admit_refused [of ls ev "context_of ls rq" px px1 r] have "status r \<in> {401, 429}" by simp
    with Inl assms(1,2) fr show ?thesis by (auto simp: special_path_def handle_request_def Let_def)
  next
    case (Inr u)
    with assms(3) obtain r where "read_request ls rq = Inl r" by (cases "read_request ls rq") auto
    with Inr assms(1,2) fr read_refused [OF this] show ?thesis by (auto simp: special_path_def handle_request_def Let_def)
  qed
qed

theorem early_rejections_unrecorded_witness:
  "\<exists>response. snd (handle_request demo_libs demo_env (demo_request ''POST'' ''hello'') demo_proxy) = Responded response
     \<and> status response \<in> {400, 401, 429}
     \<and> metrics (fst (handle_request demo_libs demo_env (demo_request ''POST'' ''hello'') demo_proxy)) = metrics_initial"
proof -
  have "isl (request_from_slice reference_json ''hello'')" by code_simp
  then have "isl (read_request demo_libs (demo_request ''POST'' ''hello''))"
    by (auto simp: read_request_def demo_libs_def split: sum.splits)
  with early_rejections_unrecorded [of demo_libs "demo_request ''POST'' ''hello''" demo_env demo_proxy, OF _ _ disjI2]
    demo_admit show ?thesis by force
qed

subsection \<open>Failing open\<close>

text \<open>
  C37. Policy errors fail open: when the evaluation ends in an error (no component loaded, a trap, the
  deadline), a tool call is forwarded exactly as if the policy had allowed it, with the same
  audit decision.
\<close>

theorem policy_error_forwards:
  assumes "cleared ls ev rq px px1 body i params body1 (Some p) pii"
    and "policy_verdict ls ev (context_of ls rq) p px = Inl e"
    and "upstream_uri ls (target_base px) (in_uri rq) = Inr u"
  shows "client (fst (handle_request ls ev rq px)) = client px @ [upstream_request rq u body1]
    \<and> audit_logger (fst (handle_request ls ev rq px)) = log_entry (audit_logger px)
        (audit_record ls ev (context_of ls rq) (tool_name_of params) (initial_decision ls pii (Some p))
           (as_micros (duration_since (done_now ev) (request_start ev))) px)"
proof -
  have "snd (policy_stage ls ev (context_of ls rq) body1 (Some p) pii px1) = Forward body1 (initial_decision ls pii (Some p))"
    using assms(2) cleared_frame(7) [OF assms(1)] by (simp add: policy_stage_outcome)
  with cleared_forward [OF assms(1) _ assms(3)] show ?thesis by blast
qed

theorem policy_error_forwards_witness:
  "client (fst (handle_request demo_libs demo_env (demo_request ''POST'' drop_body)
       (demo_proxy\<lparr>policy_registry := \<lparr>tenant_dir = ''t'', engines = Map.empty, default_engine = demo_default\<rparr>\<rparr>)))
     = [upstream_request (demo_request ''POST'' drop_body) (demo_base\<lparr>uri_path_and_query := Some ''/mcp''\<rparr>) drop_body]"
proof -
  let ?px = "demo_proxy\<lparr>policy_registry := \<lparr>tenant_dir = ''t'', engines = Map.empty, default_engine = demo_default\<rparr>\<rparr>"
  let ?px1 = "?px\<lparr>rate_limiter := \<lparr>requests = [''bot'' \<mapsto> [2]]\<rparr>\<rparr>"
  have "admit demo_libs demo_env bot_context ?px = (?px1, Inr ())"
    by (simp add: admit_def demo_env_def demo_proxy_def bot_context_def check_rate_limit_def rate_limiter_new_def
        timestamps_of_def AGENT_RATE_LIMIT_def check_def circuit_breaker_new_def with_params_def Let_def)
  then have "cleared demo_libs demo_env (demo_request ''POST'' drop_body) ?px ?px1 drop_body (JNumber (PosInt 1))
      (Some drop_call) drop_body (Some drop_call) False"
    by (simp add: cleared_def drop_read redact_stage_def drop_call_def)
  moreover have "policy_verdict demo_libs demo_env bot_context drop_call ?px
      = Inl (WasmExecutionError ''no policy component has been loaded'')"
    by (simp add: policy_verdict_def evaluate_call_def registry_get_def evaluate_policy_def)
  moreover have "upstream_uri demo_libs demo_base (in_uri (demo_request ''POST'' drop_body))
      = Inr (demo_base\<lparr>uri_path_and_query := Some ''/mcp''\<rparr>)"
    by (simp add: upstream_uri_def demo_libs_def demo_request_def)
  ultimately show ?thesis
    using policy_error_forwards [of demo_libs demo_env "demo_request ''POST'' drop_body" ?px ?px1] by simp
qed

subsection \<open>Error responses\<close>

text \<open>
  The gateway's own errors: 400, 401 and 429 carry the id null, 403 and 502 the id of the request
  that was read, except that 502 for an upstream body that cannot be read carries null again.
\<close>

definition own_error :: "'c libs \<Rightarrow> InboundRequest \<Rightarrow> Response \<Rightarrow> json \<Rightarrow> SafeGateError \<Rightarrow> bool" where
  "own_error ls rq r i error \<longleftrightarrow> r = json_rpc_error_response (lib_sj ls) (status r) i error
     \<and> (i = JNull \<and> status r \<in> {400, 401, 429}
        \<or> i = JNull \<and> status r = 502 \<and> (\<exists>e. error = InternalError (''failed to read upstream response: '' @ e))
        \<or> status r \<in> {403, 502} \<and> (\<exists>body params. read_request ls rq = Inr (body, i, params)))"

definition relayed :: "env \<Rightarrow> 'c Proxy \<Rightarrow> 'c Proxy \<Rightarrow> Response \<Rightarrow> bool" where
  "relayed ev px px' r \<longleftrightarrow> (\<exists>req response bytes. client px' = client px @ [req] \<and> upstream ev req = Inr response
     \<and> up_body response = Inr bytes
     \<and> r = \<lparr>status = up_status response, response_headers = up_headers response, response_body = bytes\<rparr>)"

lemma own_errorI:
  "i = JNull \<and> code \<in> {400, 401, 429}
     \<or> i = JNull \<and> code = 502 \<and> (\<exists>e. error = InternalError (''failed to read upstream response: '' @ e))
     \<or> code \<in> {403, 502} \<and> (\<exists>body params. read_request ls rq = Inr (body, i, params))
     \<Longrightarrow> own_error ls rq (json_rpc_error_response (lib_sj ls) code i error) i error"
  by (auto simp: own_error_def json_rpc_error_response_def)

lemma admit_error: "admit ls ev ctx px = (px1, Inl r) \<Longrightarrow> \<exists>error. own_error ls rq r JNull error"
  by (auto simp: admit_def Let_def split: if_splits prod.splits sum.splits intro!: own_errorI)

lemma read_error: "read_request ls rq = Inl r \<Longrightarrow> \<exists>error. own_error ls rq r JNull error"
  by (auto simp: read_request_def split: if_splits sum.splits intro!: own_errorI)

lemma forward_answer:
  assumes "forward_stage ls ev rq ctx tool i body decision px = (px', r)" and "read_request ls rq = Inr (b, i, params)"
  shows "relayed ev px px' r \<or> (\<exists>i error. own_error ls rq r i error)"
proof (cases "upstream_uri ls (target_base px) (in_uri rq)")
  case (Inl e)
  with assms have "own_error ls rq r i e" by (auto simp: forward_stage_def intro!: own_errorI)
  then show ?thesis by blast
next
  case (Inr u)
  let ?req = "upstream_request rq u body"
  show ?thesis
  proof (cases "upstream ev ?req")
    case (Inl e)
    with Inr assms have "own_error ls rq r i (InternalError (''upstream MCP server is unavailable: '' @ e))"
      by (auto simp: forward_stage_def forward_complete_def Let_def intro!: own_errorI)
    then show ?thesis by blast
  next
    case resp: (Inr response)
    show ?thesis
    proof (cases "up_body response")
      case (Inl e)
      with Inr resp assms have "own_error ls rq r JNull (InternalError (''failed to read upstream response: '' @ e))"
        by (auto simp: forward_stage_def forward_complete_def relay_response_def Let_def intro!: own_errorI)
      then show ?thesis by blast
    next
      case body: (Inr bytes)
      with Inr resp assms have "relayed ev px px' r"
        by (auto simp: relayed_def forward_stage_def forward_complete_def relay_response_def emit_audit_def Let_def)
      then show ?thesis by blast
    qed
  qed
qed

lemma process_answer:
  assumes "process ls ev rq ctx body i params px = (px', Responded r)" and "read_request ls rq = Inr (body, i, params)"
  shows "relayed ev px px' r \<or> (\<exists>i error. own_error ls rq r i error)"
proof -
  obtain body1 params1 pii where red: "redact_stage ls (redactor px) body params = Some (body1, params1, pii)"
    using assms(1) by (cases "redact_stage ls (redactor px) body params") (auto simp: process_def)
  obtain px1 out where ps: "policy_stage ls ev ctx body1 params1 pii px = (px1, out)" by fastforce
  show ?thesis
  proof (cases out)
    case (Forward body2 decision)
    with assms(1) red ps have "forward_stage ls ev rq ctx (tool_name_of params) i body2 decision px1 = (px', r)"
      by (auto simp: process_def Let_def map_prod_def split: prod.splits)
    from forward_answer [OF this assms(2)] policy_stage_frame [OF ps] show ?thesis by (simp add: relayed_def)
  next
    case (Denied reason)
    with assms red ps have "own_error ls rq r i (GuardrailViolation reason)"
      by (auto simp: process_def deny_stage_def Let_def intro!: own_errorI)
    then show ?thesis by blast
  next
    case PolicyPanic
    with assms(1) red ps show ?thesis by (simp add: process_def)
  qed
qed

lemma request_answer:
  assumes "\<not> special_path ls rq" and "handle_request ls ev rq px = (px', Responded r)"
  shows "relayed ev px px' r \<or> (\<exists>i error. own_error ls rq r i error)"
proof -
  obtain px1 x where adm: "admit ls ev (context_of ls rq) px = (px1, x)" by fastforce
  show ?thesis
  proof (cases x)
    case (Inl response)
    with assms adm have "r = response" by (simp add: special_path_def handle_request_def Let_def)
    with Inl adm show ?thesis using admit_error by blast
  next
    case ok: (Inr u)
    show ?thesis
    proof (cases "read_request ls rq")
      case (Inl response)
      with assms adm ok have "r = response" by (simp add: special_path_def handle_request_def Let_def)
      with Inl show ?thesis using read_error by blast
    next
      case (Inr t)
      obtain body i params where t: "t = (body, i, params)" by (cases t)
      with Inr assms adm ok have "process ls ev rq (context_of ls rq) body i params px1 = (px', Responded r)"
        by (simp add: special_path_def handle_request_def Let_def)
      from process_answer [OF this] Inr t admit_frame [of ls ev "context_of ls rq" px px1 x] adm
      show ?thesis by (simp add: relayed_def)
    qed
  qed
qed

lemma error_body_decodes:
  assumes "serde_json sj" and "is_value i" and "exact_numbers sj i" and "json_depth i \<le> RECURSION_LIMIT - 1"
  shows "\<exists>d. json_scan sj (response_body (json_rpc_error_response sj code i error)) = Inr d
    \<and> decode_response (read_value sj (RECURSION_LIMIT - 1)) (read_value sj (RECURSION_LIMIT - 2)) d
        = Inr \<lparr>resp_jsonrpc = ''2.0'', resp_id = i, resp_result = None, resp_error = Some (error_payload error)\<rparr>"
proof -
  have "wf_response sj \<lparr>resp_jsonrpc = ''2.0'', resp_id = i, resp_result = None, resp_error = Some (error_payload error)\<rparr>"
    using assms(2-4)
    by (cases error) (simp_all add: wf_response_def detail_object_def is_value_def exact_numbers_def RECURSION_LIMIT_def)
  from serde_json.response_text_round_trip [OF assms(1) this] show ?thesis
    by (simp add: json_rpc_error_response_def)
qed

lemma read_id_value:
  assumes "serde_json (lib_sj ls)" and "read_request ls rq = Inr (body, i, params)"
  shows "is_value i" and "json_depth i \<le> RECURSION_LIMIT - 1"
  using assms(2) serde_json.decoded_request_values(1,2) [OF assms(1)]
  by (auto simp: read_request_def is_value_def RECURSION_LIMIT_def split: sum.splits if_splits)

text \<open>
  C32. Every answer of a completed request outside the management routes is either the upstream
  server's response as it came, or an error of the gateway's own. The latter has the status
  400, 401 or 429 and the id null, or 403 or 502 and the id that was read from the request
  (null when it is not a POST), or 502 and null when the upstream response breaks off. If the
  numbers in that id are exact, as integers of 64 bits are, the body decodes to a version 2.0
  response with that id, without result and with the code and detail of the error.
\<close>

theorem error_responses_decode:
  assumes "serde_json (lib_sj ls)" and "\<not> special_path ls rq"
    and "handle_request ls ev rq px = (px', Responded r)"
  shows "(\<exists>req response bytes. client px' = client px @ [req] \<and> upstream ev req = Inr response
       \<and> up_body response = Inr bytes
       \<and> r = \<lparr>status = up_status response, response_headers = up_headers response, response_body = bytes\<rparr>)
    \<or> (\<exists>i error. r = json_rpc_error_response (lib_sj ls) (status r) i error
       \<and> (i = JNull \<and> status r \<in> {400, 401, 429}
          \<or> i = JNull \<and> status r = 502 \<and> (\<exists>e. error = InternalError (''failed to read upstream response: '' @ e))
          \<or> status r \<in> {403, 502} \<and> (\<exists>body params. read_request ls rq = Inr (body, i, params)))
       \<and> (exact_numbers (lib_sj ls) i \<longrightarrow> (\<exists>d. json_scan (lib_sj ls) (response_body r) = Inr d
            \<and> decode_response (read_value (lib_sj ls) (RECURSION_LIMIT - 1)) (read_value (lib_sj ls) (RECURSION_LIMIT - 2)) d
                = Inr \<lparr>resp_jsonrpc = ''2.0'', resp_id = i, resp_result = None, resp_error = Some (error_payload error)\<rparr>)))"
  using request_answer [OF assms(2,3)]
proof
  assume "\<exists>i error. own_error ls rq r i error"
  then obtain i error where e: "own_error ls rq r i error" by blast
  then have "is_value i \<and> json_depth i \<le> RECURSION_LIMIT - 1"
    using read_id_value [OF assms(1)] by (auto simp: own_error_def is_value_def RECURSION_LIMIT_def)
  with e error_body_decodes [OF assms(1), of i "status r" error] show ?thesis
    unfolding own_error_def by metis
qed (auto simp: relayed_def)

theorem error_responses_decode_witness:
  "\<exists>px' r i error d. handle_request demo_libs demo_env (demo_request ''POST'' drop_body) demo_proxy = (px', Responded r)
    \<and> json_scan reference_json (response_body r) = Inr d
    \<and> decode_response (read_value reference_json (RECURSION_LIMIT - 1)) (read_value reference_json (RECURSION_LIMIT - 2)) d
        = Inr \<lparr>resp_jsonrpc = ''2.0'', resp_id = i, resp_result = None, resp_error = Some (error_payload error)\<rparr>"
proof -
  let ?rq = "demo_request ''POST'' drop_body"
  have "\<exists>reason. snd (policy_stage demo_libs demo_env bot_context drop_body (Some drop_call) False
      (demo_proxy\<lparr>rate_limiter := \<lparr>requests = [''bot'' \<mapsto> [2]]\<rparr>\<rparr>)) = Denied reason"
    using drop_denied cleared_frame(7) [OF drop_cleared] by (simp add: policy_stage_outcome)
  then obtain px' r where h: "handle_request demo_libs demo_env ?rq demo_proxy = (px', Responded r)"
    using handle_request_cleared [OF drop_cleared] by (auto simp: map_prod_def split: prod.splits)
  have down: "upstream demo_env req = Inl ''down''" for req by (simp add: demo_env_def)
  have "exact_numbers reference_json (JNumber (PosInt 1))" "exact_numbers reference_json JNull"
    by (rule reference_json.exact_integers; simp)+
  moreover have "read_request demo_libs ?rq = Inr (body, i, params) \<Longrightarrow> i = JNumber (PosInt 1)" for body i params
    by (simp add: drop_read)
  ultimately show ?thesis
    using error_responses_decode [OF _ _ h] reference_json.serde_json_axioms h down by (auto 4 4)
qed

end
