(* ===== verification/Proxy_Redaction.thy ===== *)
theory Proxy_Redaction
  imports Proxy_Properties
begin

text \<open>
  Redaction end to end: what the upstream server receives of a tool call whose arguments hold
  secrets. The first part follows the arguments from the bytes of the body through the
  decoded request, the redactor and the rebuilt body; the last part shows the bodies on which
  the redaction is lost between the redactor and the wire.
\<close>

section \<open>Redaction keeps the structure of a value\<close>

lemma depth_shape: "json_depth (shape v) = json_depth v"
proof (induction v rule: shape.induct)
  case (2 vs)
  then show ?case by (simp add: o_def cong: map_cong)
next
  case (3 kvs)
  then have "json_depth (shape (snd x)) = json_depth (snd x)" if "x \<in> set kvs" for x
    using that by (cases x) auto
  then show ?case by (simp add: o_def case_prod_unfold cong: map_cong)
qed auto

lemma all_numbers_shape: "all_numbers P (shape v) \<longleftrightarrow> all_numbers P v"
proof (induction v rule: shape.induct)
  case (3 kvs)
  then have "all_numbers P (shape (snd x)) = all_numbers P (snd x)" if "x \<in> set kvs" for x
    using that by (cases x) auto
  then show ?case by (simp add: case_prod_unfold)
qed auto

lemma sanitize_depth: "json_depth (fst (sanitize_json rx rd v)) = json_depth v"
  using depth_shape [of "fst (sanitize_json rx rd v)"] depth_shape [of v] by (simp add: sanitize_json_shape)

lemma sanitize_numbers: "all_numbers P (fst (sanitize_json rx rd v)) \<longleftrightarrow> all_numbers P v"
  using all_numbers_shape [of P "fst (sanitize_json rx rd v)"] all_numbers_shape [of P v]
  by (simp add: sanitize_json_shape)

lemma sanitize_is_value: "is_value v \<Longrightarrow> is_value (fst (sanitize_json rx rd v))"
  by (simp add: is_value_def sanitize_json_canonical sanitize_numbers)

lemma sanitize_exact: "exact_numbers sj v \<Longrightarrow> exact_numbers sj (fst (sanitize_json rx rd v))"
  by (simp add: exact_numbers_def sanitize_numbers)

text \<open>No string leaf holds a key, a bearer token or an e-mail address.\<close>

definition secret_free :: "json \<Rightarrow> bool" where
  "secret_free v \<longleftrightarrow> (\<forall>s \<in> set (leaves v). \<forall>w. sensitive w \<longrightarrow> \<not> contains s w)"

lemma sanitize_secret_free:
  assumes "pii_regexes rx"
  shows "secret_free (fst (sanitize_json rx pii_redactor_new v))"
  using pii_regexes.no_survivor [OF assms] by (auto simp: secret_free_def sanitize_json_leaves)

lemma clean_secret_free:
  assumes "pii_regexes rx" and "\<not> snd (sanitize_json rx pii_redactor_new v)"
  shows "secret_free v"
  using sanitize_secret_free [OF assms(1), of v] assms(2) by (simp add: sanitize_json_flag)

section \<open>From the body to the arguments\<close>

lemma occurrences_map_of:
  "occurrences k kvs = [v] \<Longrightarrow> map_of (rev (map (\<lambda>(k, v). (k, f v)) kvs)) k = Some (f v)"
proof (induction kvs)
  case (Cons kv kvs)
  obtain k' v' where kv: "kv = (k', v')" by fastforce
  have none: "map_of (rev (map (\<lambda>(k, v). (k, f v)) kvs)) k = None" if "occurrences k kvs = []"
    using that by (auto simp: occurrences_def filter_empty_conv map_of_eq_None_iff)
  with Cons kv show ?case by (auto simp: map_add_def split: if_splits option.splits)
qed simp

lemma occurrences_none: "occurrences k kvs = [] \<Longrightarrow> map_of (rev (map (\<lambda>(k, v). (k, f v)) kvs)) k = None"
  by (auto simp: occurrences_def filter_empty_conv map_of_eq_None_iff)

lemma occurrences_distinct:
  "distinct (map fst kvs) \<Longrightarrow> occurrences k kvs = (case map_of kvs k of None \<Rightarrow> [] | Some v \<Rightarrow> [v])"
proof (induction kvs)
  case (Cons kv kvs)
  obtain k' v' where "kv = (k', v')" by fastforce
  moreover have "map_of kvs k = None" if "k \<notin> fst ` set kvs" using that by (simp add: map_of_eq_None_iff)
  ultimately show ?case using Cons by auto
qed simp

lemma sorted_keys_distinct: "sorted_keys kvs \<Longrightarrow> distinct (map fst kvs)"
  by (induction kvs) auto

text \<open>Distinct names are never refused as duplicates.\<close>

lemma visit_map_distinct:
  assumes "distinct (map fst kvs)" and "\<And>k. k \<in> fst ` set kvs \<Longrightarrow> slots k = None"
    and "\<forall>kv \<in> set kvs. \<forall>rd. field_reader fs (fst kv) = Some rd \<longrightarrow> (\<exists>x. rd (snd kv) = Inr x)"
  shows "\<exists>slots'. visit_map fs slots kvs = Inr slots'"
  using assms
proof (induction kvs arbitrary: slots)
  case (Cons kv kvs)
  obtain k v where kv: "kv = (k, v)" by fastforce
  show ?case
  proof (cases "field_reader fs k")
    case None
    have "\<exists>slots'. visit_map fs slots kvs = Inr slots'"
      using Cons.prems kv by (intro Cons.IH) (auto simp: image_iff)
    with None kv show ?thesis by simp
  next
    case (Some rd)
    with Cons.prems kv obtain x where x: "rd v = Inr x" by fastforce
    have "\<exists>slots'. visit_map fs (slots(k \<mapsto> x)) kvs = Inr slots'"
      using Cons.prems kv by (intro Cons.IH) (auto simp: image_iff)
    with Some x Cons.prems kv show ?thesis by simp
  qed
qed simp

lemma tool_call_decodes:
  assumes "sorted_keys pm" and "obj_get pm ''name'' = Some (JString n)"
  shows "tool_call_params_from_value (JObject pm)
    = Inr \<lparr>tool_name_param = n, arguments = Option.bind (obj_get pm ''arguments'') as_option\<rparr>"
proof -
  note dist = sorted_keys_distinct [OF assms(1)]
  let ?fs = "tool_call_fields Inr"
  have rd: "\<exists>x. rd v = Inr x" if "(k, v) \<in> set pm" "field_reader ?fs k = Some rd" for k v rd
  proof -
    from that(1) dist have "map_of pm k = Some v" by simp
    with that(2) assms(2) show ?thesis
      by (auto simp: field_reader_def tool_call_fields_def obj_get_def read_option_def split: if_splits json.splits)
  qed
  then obtain slots where slots: "visit_map ?fs Map.empty pm = Inr slots"
    using visit_map_distinct [OF dist, of Map.empty ?fs] by (metis prod.collapse)
  have "occurrences ''name'' pm = [JString n]"
    using occurrences_distinct [OF dist] assms(2) by (simp add: obj_get_def)
  then have "slots ''name'' = Some (JString n)"
    using visit_map_field [OF slots, of "''name''" read_string] by (simp add: field_reader_def tool_call_fields_def)
  then obtain p where p: "decode_tool_call_params Inr (JObject pm) = Inr p"
    using slots
    by (cases "slots ''arguments''") (auto simp: decode_tool_call_params_def decode_struct_def tool_call_fields_def)
  have "tool_name_param p = n"
    using decode_tool_call_object(1) [OF p] occurrences_distinct [OF dist] assms(2) by (simp add: obj_get_def)
  moreover have "arguments p = Option.bind (obj_get pm ''arguments'') as_option"
    using decode_tool_call_object(2) [OF p] occurrences_distinct [OF dist, of "''arguments''"]
    by (auto simp: obj_get_def read_option_def split: option.splits json.splits)
  ultimately show ?thesis using p by (simp add: tool_call_params_from_value_def)
qed

lemma object_value:
  assumes "json_scan sj body = Inr d" and "value_from_str sj body = Inr (JObject m)"
  obtains kvs where "d = JObject kvs"
    and "\<And>k. obj_get m k = map_of (rev (map (\<lambda>(k, v). (k, value_of (map_numbers (convert_number sj) v))) kvs)) k"
proof -
  from assms have m: "value_of (map_numbers (convert_number sj) d) = JObject m"
    by (auto simp: value_from_str_def read_value_def split: if_splits)
  then obtain kvs where d: "d = JObject kvs" by (cases d) auto
  with m have "m = obj_of (map (\<lambda>(k, v). (k, value_of (map_numbers (convert_number sj) v))) kvs) []"
    by (simp add: o_def case_prod_unfold)
  then have "obj_get m k = map_of (rev (map (\<lambda>(k, v). (k, value_of (map_numbers (convert_number sj) v))) kvs)) k" for k
    by (simp add: obj_get_def map_of_obj_of)
  with d that show ?thesis by blast
qed

text \<open>What the gateway takes as the parameters of a tool call is what the value of the body holds.\<close>

lemma tool_call_seen:
  assumes body: "value_from_str sj body = Inr (JObject m)" and canon: "sorted_keys pm"
    and meth: "obj_get m ''method'' = Some (JString ''tools/call'')"
    and par: "obj_get m ''params'' = Some (JObject pm)" and nam: "obj_get pm ''name'' = Some (JString n)"
    and req: "request_from_slice sj body = Inr rpc"
  shows "parse_tool_params rpc
    = Some \<lparr>tool_name_param = n, arguments = Option.bind (obj_get pm ''arguments'') as_option\<rparr>"
proof -
  from body obtain d where scan: "json_scan sj body = Inr d" by (auto simp: value_from_str_def split: sum.splits)
  from scan body obtain kvs where d: "d = JObject kvs"
    and get: "\<And>k. obj_get m k = map_of (rev (map (\<lambda>(k, v). (k, value_of (map_numbers (convert_number sj) v))) kvs)) k"
    by (rule object_value) blast
  from req scan d have r: "decode_request (read_value sj (RECURSION_LIMIT - 1)) (JObject kvs) = Inr rpc"
    by (simp add: request_from_slice_def)
  note gets = get [of "''method''"] get [of "''params''"]
  have "req_method rpc = ''tools/call''"
    using decode_request_object(3) [OF r] gets(1) meth
      occurrences_map_of [of "''method''" kvs "JString (req_method rpc)" "\<lambda>v. value_of (map_numbers (convert_number sj) v)"]
    by simp
  moreover obtain p where p: "occurrences ''params'' kvs = [p]"
    using decode_request_object(4) [OF r] gets(2) par
      occurrences_none [of "''params''" kvs "\<lambda>v. value_of (map_numbers (convert_number sj) v)"] by auto
  moreover have v: "value_of (map_numbers (convert_number sj) p) = JObject pm"
    using occurrences_map_of [OF p, of "\<lambda>v. value_of (map_numbers (convert_number sj) v)"] gets(2) par by simp
  then have "p \<noteq> JNull" by auto
  ultimately have "req_params rpc = Some (JObject pm)" and "req_method rpc = ''tools/call''"
    using decode_request_object(4) [OF r] v by (auto simp: read_value_def split: if_splits)
  then show ?thesis using tool_call_decodes [OF canon nam] by (simp add: parse_tool_params_def)
qed

section \<open>The rebuilt body\<close>

lemma obj_get_member: "obj_get m k = Some v \<Longrightarrow> (k, v) \<in> set m"
  by (simp add: obj_get_def map_of_SomeD)

lemma is_value_member: "is_value (JObject m) \<Longrightarrow> obj_get m k = Some v \<Longrightarrow> is_value v"
  using obj_get_member [of m k v] by (auto simp: is_value_def)

lemma exact_member: "exact_numbers sj (JObject m) \<Longrightarrow> obj_get m k = Some v \<Longrightarrow> exact_numbers sj v"
  using obj_get_member [of m k v] by (auto simp: exact_numbers_def)

lemma is_value_sorted: "is_value (JObject m) \<Longrightarrow> sorted_keys m"
  by (simp add: is_value_def)

lemma is_value_insert: "is_value (JObject m) \<Longrightarrow> is_value v \<Longrightarrow> is_value (JObject (obj_insert k v m))"
  using set_obj_insert [of k v m] sorted_obj_insert [of m k v] by (fastforce simp: is_value_def)

lemma exact_insert:
  "exact_numbers sj (JObject m) \<Longrightarrow> exact_numbers sj v \<Longrightarrow> exact_numbers sj (JObject (obj_insert k v m))"
  using set_obj_insert [of k v m] by (fastforce simp: exact_numbers_def)

lemma depth_insert:
  assumes "json_depth (JObject m) \<le> Suc d" and "json_depth v \<le> d"
  shows "json_depth (JObject (obj_insert k v m)) \<le> Suc d"
  using assms set_obj_insert [of k v m] unfolding json_depth_le by fastforce

lemma obj_get_insert [simp]:
  "sorted_keys m \<Longrightarrow> obj_get (obj_insert k v m) k' = (if k' = k then Some v else obj_get m k')"
  by (simp add: obj_get_def map_of_obj_insert)

lemma depth_member:
  assumes "json_depth (JObject m) \<le> Suc d" and "obj_get m k = Some v"
  shows "json_depth v \<le> d"
  using json_depth_member(2) [OF obj_get_member [OF assms(2)]] assms(1) by linarith

lemma value_depth:
  assumes "serde_json sj" and "value_from_str sj s = Inr v"
  shows "json_depth v \<le> Suc (Suc 125)"
  using assms(2) serde_json.read_value_is_value(2) [OF assms(1), of RECURSION_LIMIT _ v]
  by (auto simp: value_from_str_def RECURSION_LIMIT_def split: sum.splits)

text \<open>The body with the arguments of the tool call replaced.\<close>

definition replace_arguments ::
  "(string \<times> json) list \<Rightarrow> (string \<times> json) list \<Rightarrow> json \<Rightarrow> (string \<times> json) list" where
  "replace_arguments m pm a = obj_insert ''params'' (JObject (obj_insert ''arguments'' a pm)) m"

lemma rebuild_object:
  assumes sjl: "serde_json sj" and body: "value_from_str sj body = Inr (JObject m)"
    and ex: "exact_numbers sj (JObject m)" and par: "obj_get m ''params'' = Some (JObject pm)"
    and a: "is_value a" "json_depth a \<le> 125" "exact_numbers sj a"
  shows "rebuild_tool_call_body sj body (json_print sj a) = Rebuilt (json_print sj (JObject (replace_arguments m pm a)))"
    and "value_from_str sj (json_print sj (JObject (replace_arguments m pm a))) = Inr (JObject (replace_arguments m pm a))"
proof -
  have m: "is_value (JObject m)" by (rule serde_json.value_from_str_is_value [OF sjl body])
  have dm: "json_depth (JObject m) \<le> Suc (Suc 125)"
    by (rule value_depth [OF sjl body])
  have "json_depth (JObject (obj_insert ''arguments'' a pm)) \<le> Suc 125"
    by (rule depth_insert [OF depth_member [OF dm par] a(2)])
  from depth_insert [OF dm this] have "json_depth (JObject (replace_arguments m pm a)) \<le> RECURSION_LIMIT"
    by (simp add: replace_arguments_def RECURSION_LIMIT_def del: json_depth.simps)
  moreover have "is_value (JObject (replace_arguments m pm a))"
    unfolding replace_arguments_def by (intro is_value_insert m is_value_member [OF m par] a(1))
  moreover have "exact_numbers sj (JObject (replace_arguments m pm a))"
    unfolding replace_arguments_def by (intro exact_insert ex exact_member [OF ex par] a(3))
  ultimately show "value_from_str sj (json_print sj (JObject (replace_arguments m pm a))) = Inr (JObject (replace_arguments m pm a))"
    by (intro serde_json.value_round_trip [OF sjl])
  have "value_from_str sj (json_print sj a) = Inr a"
    using a by (intro serde_json.value_round_trip [OF sjl]) (simp_all add: RECURSION_LIMIT_def)
  with body par show "rebuild_tool_call_body sj body (json_print sj a) = Rebuilt (json_print sj (JObject (replace_arguments m pm a)))"
    by (simp add: rebuild_tool_call_body_def replace_arguments_def)
qed

text \<open>After the redaction stage the arguments on the wire are free of secrets.\<close>

lemma redact_stage_secret_free:
  assumes sjl: "serde_json (lib_sj ls)" and rx: "pii_regexes (lib_rx ls)"
    and body: "value_from_str (lib_sj ls) body = Inr (JObject m)" and ex: "exact_numbers (lib_sj ls) (JObject m)"
    and par: "obj_get m ''params'' = Some (JObject pm)"
    and p: "p = \<lparr>tool_name_param = n, arguments = Option.bind (obj_get pm ''arguments'') as_option\<rparr>"
    and red: "redact_stage ls pii_redactor_new body (Some p) = Some (body1, params1, pii)"
  shows "\<exists>m2 pm2. value_from_str (lib_sj ls) body1 = Inr (JObject m2) \<and> obj_get m2 ''params'' = Some (JObject pm2)
    \<and> obj_get pm2 ''name'' = obj_get pm ''name''
    \<and> (case obj_get pm2 ''arguments'' of None \<Rightarrow> True | Some a \<Rightarrow> secret_free a)"
proof (cases "Option.bind (obj_get pm ''arguments'') as_option")
  case None
  then have "case obj_get pm ''arguments'' of None \<Rightarrow> True | Some a \<Rightarrow> secret_free a"
    by (cases "obj_get pm ''arguments''"; cases "the (obj_get pm ''arguments'')") (auto simp: secret_free_def)
  moreover have "body1 = body" using None p red by (simp add: redact_stage_def)
  ultimately show ?thesis using body par by blast
next
  case (Some a)
  then have get: "obj_get pm ''arguments'' = Some a"
    by (cases "obj_get pm ''arguments''"; cases "the (obj_get pm ''arguments'')") auto
  obtain a' flag where san: "sanitize_json (lib_rx ls) pii_redactor_new a = (a', flag)" by fastforce
  show ?thesis
  proof (cases flag)
    case False
    with san Some p red have "body1 = body" by (simp add: redact_stage_def)
    moreover have "secret_free a" using clean_secret_free [OF rx, of a] san False by simp
    ultimately show ?thesis using body par get by auto
  next
    case True
    have m: "is_value (JObject m)" by (rule serde_json.value_from_str_is_value [OF sjl body])
    note pm = is_value_member [OF m par]
    have dm: "json_depth (JObject m) \<le> Suc (Suc 125)"
      by (rule value_depth [OF sjl body])
    have "json_depth a' \<le> 125"
      using depth_member [OF depth_member [OF dm par] get] sanitize_depth [of "lib_rx ls" pii_redactor_new a] san by simp
    moreover have "is_value a'"
      using sanitize_is_value [OF is_value_member [OF pm get], of "lib_rx ls" pii_redactor_new] san by simp
    moreover have "exact_numbers (lib_sj ls) a'"
      using sanitize_exact [OF exact_member [OF exact_member [OF ex par] get], of "lib_rx ls" pii_redactor_new] san by simp
    ultimately have "rebuild_tool_call_body (lib_sj ls) body (json_print (lib_sj ls) a')
        = Rebuilt (json_print (lib_sj ls) (JObject (replace_arguments m pm a')))"
      and rt: "value_from_str (lib_sj ls) (json_print (lib_sj ls) (JObject (replace_arguments m pm a')))
        = Inr (JObject (replace_arguments m pm a'))"
      using rebuild_object [OF sjl body ex par] by auto
    with san True Some p red have "body1 = json_print (lib_sj ls) (JObject (replace_arguments m pm a'))"
      by (simp add: redact_stage_def)
    moreover have "secret_free a'" using sanitize_secret_free [OF rx, of a] san by simp
    ultimately show ?thesis
      using rt is_value_sorted [OF m] is_value_sorted [OF pm] by (auto simp: replace_arguments_def)
  qed
qed

text \<open>A tool call that the decoder and the redactor have seen: what is left in its body.\<close>

lemma read_call_redacted:
  assumes sjl: "serde_json (lib_sj ls)" and rx: "pii_regexes (lib_rx ls)"
    and rq: "in_method rq = ''POST''" "in_body rq = Inr body"
    and body: "value_from_str (lib_sj ls) body = Inr (JObject m)" and ex: "exact_numbers (lib_sj ls) (JObject m)"
    and call: "obj_get m ''method'' = Some (JString ''tools/call'')" "obj_get m ''params'' = Some (JObject pm)"
      "obj_get pm ''name'' = Some (JString n)"
    and read: "read_request ls rq = Inr (b, i, params)"
    and red: "redact_stage ls pii_redactor_new b params = Some (body1, params1, pii)"
  shows "\<exists>m2 pm2. value_from_str (lib_sj ls) body1 = Inr (JObject m2) \<and> obj_get m2 ''params'' = Some (JObject pm2)
    \<and> obj_get pm2 ''name'' = Some (JString n)
    \<and> (case obj_get pm2 ''arguments'' of None \<Rightarrow> True | Some a \<Rightarrow> secret_free a)"
proof -
  from read rq obtain rpc where rpc: "request_from_slice (lib_sj ls) body = Inr rpc"
    and params: "params = parse_tool_params rpc" and b: "b = body"
    by (auto simp: read_request_def split: sum.splits)
  have m: "is_value (JObject m)" by (rule serde_json.value_from_str_is_value [OF sjl body])
  have "params = Some \<lparr>tool_name_param = n, arguments = Option.bind (obj_get pm ''arguments'') as_option\<rparr>"
    using tool_call_seen [OF body is_value_sorted [OF is_value_member [OF m call(2)]] call rpc] params by simp
  with red b have "redact_stage ls pii_redactor_new body
      (Some \<lparr>tool_name_param = n, arguments = Option.bind (obj_get pm ''arguments'') as_option\<rparr>) = Some (body1, params1, pii)"
    by simp
  from redact_stage_secret_free [OF sjl rx body ex call(2) refl this] call(3) show ?thesis by simp
qed

section \<open>Properties\<close>

text \<open>
  Redaction end to end: when the body of a \<open>tools/call\<close> is a JSON object within the parser's limits
  and with exact numbers whose \<open>params\<close> is an object, and the policy does not itself rewrite the
  arguments, then what reaches the upstream server parses to an object with the same tool name
  whose arguments hold no API key, bearer token or e-mail address in any string value.
\<close>

theorem forwarded_arguments_redacted:
  assumes "serde_json (lib_sj ls)" and "pii_regexes (lib_rx ls)" and "redactor px = pii_redactor_new"
    and "in_method rq = ''POST''" and "in_body rq = Inr body"
    and "value_from_str (lib_sj ls) body = Inr (JObject m)" and "exact_numbers (lib_sj ls) (JObject m)"
    and "obj_get m ''method'' = Some (JString ''tools/call'')" and "obj_get m ''params'' = Some (JObject pm)"
    and "obj_get pm ''name'' = Some (JString n)"
    and "client (fst (handle_request ls ev rq px)) = client px @ [req]"
    and "\<And>i params body1 p pii a. read_request ls rq = Inr (body, i, params) \<Longrightarrow>
      redact_stage ls (redactor px) body params = Some (body1, Some p, pii) \<Longrightarrow>
      policy_verdict ls ev (context_of ls rq) p px \<noteq> Inr (RedactArgs a)"
  shows "\<exists>m2 pm2. value_from_str (lib_sj ls) (http_body req) = Inr (JObject m2)
    \<and> obj_get m2 ''params'' = Some (JObject pm2) \<and> obj_get pm2 ''name'' = Some (JString n)
    \<and> (case obj_get pm2 ''arguments'' of
         None \<Rightarrow> True
       | Some a \<Rightarrow> \<forall>s w. s \<in> set (leaves a) \<and> (is_api_key w \<or> is_bearer_token w \<or> is_email w) \<longrightarrow> \<not> contains s w)"
proof -
  from assms(11) have "client (fst (handle_request ls ev rq px)) \<noteq> client px" by simp
  then obtain px1 b i params body1 params1 pii px2 body2 decision u where
    c: "cleared ls ev rq px px1 b i params body1 params1 pii"
    and ps: "policy_stage ls ev (context_of ls rq) body1 params1 pii px1 = (px2, Forward body2 decision)"
    and cl: "client (fst (handle_request ls ev rq px)) = client px @ [upstream_request rq u body2]"
    by (rule forwardedE)
  have b: "b = body" using c assms(4,5) by (auto simp: cleared_def read_request_def split: sum.splits)
  have "\<exists>m2 pm2. value_from_str (lib_sj ls) body1 = Inr (JObject m2) \<and> obj_get m2 ''params'' = Some (JObject pm2)
      \<and> obj_get pm2 ''name'' = Some (JString n)
      \<and> (case obj_get pm2 ''arguments'' of None \<Rightarrow> True | Some a \<Rightarrow> secret_free a)"
    using c assms(3) by (intro read_call_redacted [OF assms(1,2,4-10)]) (auto simp: cleared_def)
  moreover have "body2 = body1"
    using policy_stage_outcome [of ls ev "context_of ls rq" body1 params1 pii px1] ps
      assms(12) [of i params body1 _ pii] c b cleared_frame(7) [OF c]
    by (auto simp: cleared_def split: option.splits sum.splits PolicyDecision.splits)
  moreover have "http_body req = body2" using assms(11) cl by (auto simp: upstream_request_def)
  ultimately show ?thesis using assms(10) by (fastforce simp: secret_free_def sensitive_def split: option.splits)
qed

text \<open>A tool call whose only argument holds an API key, and its redacted form.\<close>

definition secret_args :: json where
  "secret_args = JObject [(''q'', JString ''sk-abcdefghijklmnopqrst1'')]"

definition clean_args :: json where
  "clean_args = JObject [(''q'', JString ''[REDACTED_SECRET]'')]"

definition lookup_doc :: "json \<Rightarrow> json" where
  "lookup_doc args = tool_call_doc (JObject [(''arguments'', args), (''name'', JString ''lookup'')])"

definition lookup_call :: "json \<Rightarrow> McpToolCallParams" where
  "lookup_call args = \<lparr>tool_name_param = ''lookup'', arguments = Some args\<rparr>"

lemma secret_sanitized: "sanitize_json reference_rx pii_redactor_new secret_args = (clean_args, True)"
  by code_simp

lemma lookup_params: "tool_call_params_from_value (JObject [(''arguments'', secret_args), (''name'', JString ''lookup'')])
    = Inr (lookup_call secret_args)"
  by code_simp

abbreviation secret_body :: string where
  "secret_body \<equiv> print_json (lookup_doc secret_args)"

abbreviation clean_body :: string where
  "clean_body \<equiv> print_json (lookup_doc clean_args)"

lemma secret_read:
  "read_request demo_libs (demo_request ''POST'' secret_body)
     = Inr (secret_body, JNumber (PosInt 1), Some (lookup_call secret_args))"
proof -
  have "request_from_slice reference_json secret_body = Inr \<lparr>req_jsonrpc = ''2.0'', req_id = JNumber (PosInt 1),
      req_method = ''tools/call'', req_params = Some (JObject [(''arguments'', secret_args), (''name'', JString ''lookup'')])\<rparr>"
    by code_simp
  then show ?thesis by (simp add: read_request_def parse_tool_params_def lookup_params)
qed

lemma secret_redacted:
  "redact_stage demo_libs pii_redactor_new secret_body (Some (lookup_call secret_args))
     = Some (clean_body, Some (lookup_call clean_args), True)"
proof -
  have "rebuild_tool_call_body reference_json secret_body (print_json clean_args) = Rebuilt clean_body" by code_simp
  then show ?thesis
    by (simp add: redact_stage_def lookup_call_def secret_sanitized) (simp add: reference_json_def)
qed

lemma secret_cleared:
  "cleared demo_libs demo_env (demo_request ''POST'' secret_body) demo_proxy
     (demo_proxy\<lparr>rate_limiter := \<lparr>requests = [''bot'' \<mapsto> [2]]\<rparr>\<rparr>) secret_body (JNumber (PosInt 1))
     (Some (lookup_call secret_args)) clean_body (Some (lookup_call clean_args)) True"
  by (simp add: cleared_def demo_admit secret_read secret_redacted)

lemma clean_allowed: "policy_verdict demo_libs demo_env ctx (lookup_call clean_args) demo_proxy = Inr Allow"
proof -
  have "\<not> contains (print_json clean_args) ''secret_key''" by code_simp
  then show ?thesis
    by (simp add: sample_verdict evaluate_request_def lookup_call_def arguments_text_def) (simp add: reference_json_def)
qed

lemma demo_uri_ok:
  "upstream_uri demo_libs demo_base (in_uri (demo_request verb body)) = Inr (demo_base\<lparr>uri_path_and_query := Some ''/mcp''\<rparr>)"
  by (simp add: upstream_uri_def demo_libs_def demo_request_def)

lemma secret_forwarded:
  "client (fst (handle_request demo_libs demo_env (demo_request ''POST'' secret_body) demo_proxy))
     = [upstream_request (demo_request ''POST'' secret_body) (demo_base\<lparr>uri_path_and_query := Some ''/mcp''\<rparr>) clean_body]"
proof -
  have "snd (policy_stage demo_libs demo_env bot_context clean_body (Some (lookup_call clean_args)) True
      (demo_proxy\<lparr>rate_limiter := \<lparr>requests = [''bot'' \<mapsto> [2]]\<rparr>\<rparr>))
    = Forward clean_body (initial_decision demo_libs True (Some (lookup_call clean_args)))"
    using clean_allowed cleared_frame(7) [OF secret_cleared] by (simp add: policy_stage_outcome)
  from cleared_forward(1) [OF secret_cleared] this demo_uri_ok show ?thesis by simp
qed

theorem forwarded_arguments_redacted_witness:
  "\<exists>m2 pm2. value_from_str reference_json clean_body = Inr (JObject m2)
    \<and> obj_get m2 ''params'' = Some (JObject pm2) \<and> obj_get pm2 ''name'' = Some (JString ''lookup'')
    \<and> (case obj_get pm2 ''arguments'' of
         None \<Rightarrow> True
       | Some a \<Rightarrow> \<forall>s w. s \<in> set (leaves a) \<and> (is_api_key w \<or> is_bearer_token w \<or> is_email w) \<longrightarrow> \<not> contains s w)"
proof -
  let ?m = "[(''id'', JNumber (PosInt 1)), (''method'', JString ''tools/call''),
    (''params'', JObject [(''arguments'', secret_args), (''name'', JString ''lookup'')])]"
  let ?req = "upstream_request (demo_request ''POST'' secret_body) (demo_base\<lparr>uri_path_and_query := Some ''/mcp''\<rparr>) clean_body"
  have "\<exists>m2 pm2. value_from_str (lib_sj demo_libs) (http_body ?req) = Inr (JObject m2)
    \<and> obj_get m2 ''params'' = Some (JObject pm2) \<and> obj_get pm2 ''name'' = Some (JString ''lookup'')
    \<and> (case obj_get pm2 ''arguments'' of
         None \<Rightarrow> True
       | Some a \<Rightarrow> \<forall>s w. s \<in> set (leaves a) \<and> (is_api_key w \<or> is_bearer_token w \<or> is_email w) \<longrightarrow> \<not> contains s w)"
  proof (rule forwarded_arguments_redacted [where px = demo_proxy and rq = "demo_request ''POST'' secret_body"
        and m = ?m and ev = demo_env and pm = "[(''arguments'', secret_args), (''name'', JString ''lookup'')]"])
    have "value_from_str reference_json secret_body = Inr (JObject ?m)" by code_simp
    then show "value_from_str (lib_sj demo_libs) secret_body = Inr (JObject ?m)" by simp
    have "all_numbers integer_64 (JObject ?m)" by (simp add: secret_args_def)
    then show "exact_numbers (lib_sj demo_libs) (JObject ?m)" using reference_json.exact_integers by simp
    show "pii_regexes (lib_rx demo_libs)" using reference.pii_regexes_axioms by simp
    show "serde_json (lib_sj demo_libs)" using reference_json.serde_json_axioms by simp
  qed (simp_all add: obj_get_def secret_forwarded secret_read secret_redacted clean_allowed)
  then show ?thesis by (simp add: upstream_request_def)
qed

section \<open>Where redaction is lost\<close>

text \<open>
  C34. Redaction is lost when the body is not a \<open>Value\<close>: derived deserialisers skip unknown fields
  unread, so a request whose extra field nests too deeply (or holds a number out of range)
  is accepted, its secrets are found, but the body cannot be rebuilt; the original bytes are
  forwarded while the audit record says that the arguments were redacted.
\<close>

theorem unparsable_field_bypasses_redaction:
  assumes "\<not> special_path ls rq" and "admit ls ev (context_of ls rq) px = (px1, Inr ())"
    and "read_request ls rq = Inr (body, i, Some p)" and "arguments p = Some a"
    and "sanitize_json (lib_rx ls) (redactor px) a = (a', True)"
    and "value_from_str (lib_sj ls) body = Inl e"
    and "policy_verdict ls ev (context_of ls rq) (p\<lparr>arguments := Some a'\<rparr>) px = Inr Allow"
    and "upstream_uri ls (target_base px) (in_uri rq) = Inr u"
  shows "client (fst (handle_request ls ev rq px)) = client px @ [upstream_request rq u body]
    \<and> audit_logger (fst (handle_request ls ev rq px)) = log_entry (audit_logger px)
        (audit_record ls ev (context_of ls rq) (tool_name_of (Some p)) (AuditRedactArgs (json_print (lib_sj ls) a'))
           (as_micros (duration_since (done_now ev) (request_start ev))) px)"
proof -
  let ?p' = "p\<lparr>arguments := Some a'\<rparr>"
  have c: "cleared ls ev rq px px1 body i (Some p) body (Some ?p') True"
    using assms(1-6) by (simp add: cleared_def redact_stage_def rebuild_tool_call_body_def)
  have "snd (policy_stage ls ev (context_of ls rq) body (Some ?p') True px1)
      = Forward body (AuditRedactArgs (json_print (lib_sj ls) a'))"
    using assms(7) cleared_frame(7) [OF c] by (simp add: policy_stage_outcome initial_decision_def arguments_text_def)
  with cleared_forward [OF c _ assms(8)] show ?thesis by simp
qed

fun nest :: "nat \<Rightarrow> json" where
  "nest 0 = JNull"
| "nest (Suc n) = JArray [nest n]"

definition deep_body :: string where
  "deep_body = print_json (JObject [(''x'', nest 128), (''id'', JNumber (PosInt 1)), (''method'', JString ''tools/call''),
     (''params'', JObject [(''arguments'', secret_args), (''name'', JString ''lookup'')])])"

lemma deep_read:
  "read_request demo_libs (demo_request ''POST'' deep_body)
     = Inr (deep_body, JNumber (PosInt 1), Some (lookup_call secret_args))"
proof -
  have "request_from_slice reference_json deep_body = Inr \<lparr>req_jsonrpc = ''2.0'', req_id = JNumber (PosInt 1),
      req_method = ''tools/call'', req_params = Some (JObject [(''arguments'', secret_args), (''name'', JString ''lookup'')])\<rparr>"
    by code_simp
  then show ?thesis by (simp add: read_request_def parse_tool_params_def lookup_params)
qed

theorem unparsable_field_bypasses_redaction_witness:
  "client (fst (handle_request demo_libs demo_env (demo_request ''POST'' deep_body) demo_proxy))
     = [upstream_request (demo_request ''POST'' deep_body) (demo_base\<lparr>uri_path_and_query := Some ''/mcp''\<rparr>) deep_body]"
proof -
  have "value_from_str reference_json deep_body = Inl RecursionLimitExceeded" by code_simp
  moreover have "(lookup_call secret_args)\<lparr>arguments := Some clean_args\<rparr> = lookup_call clean_args"
    by (simp add: lookup_call_def)
  moreover have "arguments (lookup_call secret_args) = Some secret_args" by (simp add: lookup_call_def)
  ultimately show ?thesis
    using unparsable_field_bypasses_redaction [of demo_libs "demo_request ''POST'' deep_body" demo_env demo_proxy,
        OF _ _ deep_read, of _ secret_args clean_args RecursionLimitExceeded]
      demo_admit secret_sanitized clean_allowed demo_uri_ok by simp
qed

text \<open>
  A policy that asks for redaction with a replacement that is not JSON has no effect: the call is
  forwarded with its arguments unchanged, and the audit record claims the replacement. The
  example policy of the repository answers with such a text.
\<close>

theorem non_json_redaction_ignored:
  assumes "cleared ls ev rq px px1 body i params body1 (Some p) pii"
    and "policy_verdict ls ev (context_of ls rq) p px = Inr (RedactArgs a)"
    and "value_from_str (lib_sj ls) a = Inl e"
    and "upstream_uri ls (target_base px) (in_uri rq) = Inr u"
  shows "client (fst (handle_request ls ev rq px)) = client px @ [upstream_request rq u body1]
    \<and> audit_logger (fst (handle_request ls ev rq px)) = log_entry (audit_logger px)
        (audit_record ls ev (context_of ls rq) (tool_name_of params) (AuditRedactArgs a)
           (as_micros (duration_since (done_now ev) (request_start ev))) px)"
proof -
  have "\<exists>e. rebuild_tool_call_body (lib_sj ls) body1 a = RebuildError e"
    using assms(3) by (simp add: rebuild_tool_call_body_def split: sum.splits)
  then have "snd (policy_stage ls ev (context_of ls rq) body1 (Some p) pii px1) = Forward body1 (AuditRedactArgs a)"
    using assms(2) cleared_frame(7) [OF assms(1)] by (auto simp: policy_stage_outcome)
  with cleared_forward [OF assms(1) _ assms(4)] show ?thesis by blast
qed

definition key_args :: json where
  "key_args = JObject [(''secret_key'', JString ''hunter2'')]"

abbreviation key_body :: string where
  "key_body \<equiv> print_json (lookup_doc key_args)"

lemma key_cleared:
  "cleared demo_libs demo_env (demo_request ''POST'' key_body) demo_proxy
     (demo_proxy\<lparr>rate_limiter := \<lparr>requests = [''bot'' \<mapsto> [2]]\<rparr>\<rparr>) key_body (JNumber (PosInt 1))
     (Some (lookup_call key_args)) key_body (Some (lookup_call key_args)) False"
proof -
  have "request_from_slice reference_json key_body = Inr \<lparr>req_jsonrpc = ''2.0'', req_id = JNumber (PosInt 1),
      req_method = ''tools/call'', req_params = Some (JObject [(''arguments'', key_args), (''name'', JString ''lookup'')])\<rparr>"
    by code_simp
  moreover have "tool_call_params_from_value (JObject [(''arguments'', key_args), (''name'', JString ''lookup'')])
      = Inr (lookup_call key_args)" by code_simp
  moreover have "sanitize_json reference_rx pii_redactor_new key_args = (key_args, False)" by code_simp
  ultimately show ?thesis
    by (simp add: cleared_def demo_admit read_request_def parse_tool_params_def redact_stage_def lookup_call_def)
qed

theorem non_json_redaction_ignored_witness:
  "client (fst (handle_request demo_libs demo_env (demo_request ''POST'' key_body) demo_proxy))
     = [upstream_request (demo_request ''POST'' key_body) (demo_base\<lparr>uri_path_and_query := Some ''/mcp''\<rparr>) key_body]"
proof -
  have "contains (print_json key_args) ''secret_key''" by code_simp
  then have "policy_verdict demo_libs demo_env bot_context (lookup_call key_args) demo_proxy
      = Inr (RedactArgs ''Sensitive arguments were redacted'')"
    by (simp add: sample_verdict evaluate_request_def lookup_call_def arguments_text_def) (simp add: reference_json_def)
  moreover have "value_from_str reference_json ''Sensitive arguments were redacted'' = Inl (Syntax ''expected value'')"
    by code_simp
  ultimately show ?thesis
    using non_json_redaction_ignored [OF key_cleared] demo_uri_ok by simp
qed

text \<open>
  C35. A tool call whose \<open>params\<close> is an array makes the handler panic when its arguments are redacted:
  the decoder accepts the array form of the parameters, but indexing it by name to store the
  redacted arguments does not, and the client gets no response at all.
\<close>

theorem array_params_panic:
  assumes "\<not> special_path ls rq" and "admit ls ev (context_of ls rq) px = (px1, Inr ())"
    and "read_request ls rq = Inr (body, i, Some p)" and "arguments p = Some a"
    and "sanitize_json (lib_rx ls) (redactor px) a = (a', True)"
    and "value_from_str (lib_sj ls) body = Inr (JObject m)" and "obj_get m ''params'' = Some (JArray vs)"
    and "value_from_str (lib_sj ls) (json_print (lib_sj ls) a') = Inr v"
  shows "handle_request ls ev rq px = (px1, Panicked)"
proof -
  have "redactor px1 = redactor px" using admit_frame(6) [OF assms(2)] .
  moreover have "rebuild_tool_call_body (lib_sj ls) body (json_print (lib_sj ls) a') = RebuildPanic"
    using assms(6-8) by (simp add: rebuild_tool_call_body_def)
  ultimately show ?thesis
    using assms(1-5) by (simp add: special_path_def handle_request_def process_def redact_stage_def Let_def)
qed

abbreviation array_body :: string where
  "array_body \<equiv> print_json (tool_call_doc (JArray [JString ''lookup'', secret_args]))"

theorem array_params_panic_witness:
  "snd (handle_request demo_libs demo_env (demo_request ''POST'' array_body) demo_proxy) = Panicked"
proof -
  have "request_from_slice reference_json array_body = Inr \<lparr>req_jsonrpc = ''2.0'', req_id = JNumber (PosInt 1),
      req_method = ''tools/call'', req_params = Some (JArray [JString ''lookup'', secret_args])\<rparr>" by code_simp
  moreover have "tool_call_params_from_value (JArray [JString ''lookup'', secret_args]) = Inr (lookup_call secret_args)"
    by code_simp
  ultimately have "read_request demo_libs (demo_request ''POST'' array_body)
      = Inr (array_body, JNumber (PosInt 1), Some (lookup_call secret_args))"
    by (simp add: read_request_def parse_tool_params_def)
  moreover have "value_from_str reference_json array_body = Inr (JObject [(''id'', JNumber (PosInt 1)),
      (''method'', JString ''tools/call''), (''params'', JArray [JString ''lookup'', secret_args])])" by code_simp
  moreover have "value_from_str reference_json (json_print reference_json clean_args) = Inr clean_args" by code_simp
  moreover have "arguments (lookup_call secret_args) = Some secret_args" by (simp add: lookup_call_def)
  ultimately show ?thesis
    using array_params_panic [of demo_libs "demo_request ''POST'' array_body" demo_env demo_proxy]
      demo_admit secret_sanitized by (simp add: obj_get_def)
qed

end
