(* ===== verification/Gateway.thy ===== *)
theory Gateway
  imports Proxy_Properties
begin

text \<open>
  The gateway as a concurrent system: every connection of \<open>main.rs\<close> runs \<open>handle_request\<close> in a
  task of its own, and all tasks share the proxy. A handler is cut at its calls of shared
  components and at its await points (\<open>hstate\<close>); \<open>handler_step\<close> runs it to its next cut. The
  step relation \<open>gateway_step\<close> interleaves any number of handlers with hot reloads and with the
  audit writer, and drops a handler at an await point when its client disconnects, as hyper
  does. An error of \<open>accept\<close> ends \<open>main\<close> and with it every task.
\<close>

section \<open>Handlers\<close>

datatype hstate =
    Arrived
  | RateChecked
  | Admitted
  | Ready string json string "McpToolCallParams option" bool
  | Evaluated string json string "McpToolCallParams option" bool "duration \<times> (SafeGateError + PolicyDecision)"
  | Decided string json string AuditDecision
  | Denying string json string
  | Sent string json AuditDecision "string + UpstreamResponse"
  | Relaying UpstreamResponse
  | Done outcome
  | Dropped

text \<open>
  A handler with its request. The flags record what it has done: it passed the rate limiter,
  was admitted by the circuit breaker, was denied by the policy, was forwarded, was audited.
\<close>

record handler =
  h_req :: InboundRequest
  h_env :: env
  h_state :: hstate
  passed :: bool
  admitted :: bool
  denied :: bool
  forwarded :: bool
  audited :: bool

definition new_handler :: "InboundRequest \<Rightarrow> env \<Rightarrow> handler" where
  "new_handler rq ev =
     \<lparr>h_req = rq, h_env = ev, h_state = Arrived, passed = False, admitted = False, denied = False,
      forwarded = False, audited = False\<rparr>"

abbreviation h_context :: "'c libs \<Rightarrow> handler \<Rightarrow> AgentContext" where
  "h_context ls h \<equiv> context_of ls (h_req h)"

definition done_with :: "handler \<Rightarrow> outcome \<Rightarrow> handler" where
  "done_with h r = h\<lparr>h_state := Done r\<rparr>"

text \<open>Management routes, authentication and the rate limiter.\<close>

definition step_arrived :: "'c libs \<Rightarrow> handler \<Rightarrow> 'c Proxy \<Rightarrow> 'c Proxy \<times> handler" where
  "step_arrived ls h px =
     (let rq = h_req h; ctx = h_context ls h
      in if lib_uri_path ls (in_uri rq) = ''/metrics''
         then map_prod (\<lambda>px. px) (\<lambda>r. done_with h (Responded r)) (handle_metrics ls px)
         else if lib_uri_path ls (in_uri rq) = ''/healthz''
         then map_prod (\<lambda>px. px) (\<lambda>r. done_with h (Responded r)) (handle_healthz ls px)
         else if \<not> authenticated ctx
         then (px, done_with h (Responded (json_rpc_error_response (lib_sj ls) 401 JNull
                (Unauthorized ''missing or invalid bearer token''))))
         else (case check_rate_limit (rate_limiter px) (agent_id ctx) AGENT_RATE_LIMIT AGENT_RATE_LIMIT_WINDOW
                  (rate_now (h_env h)) of
                 (rl, Inl e) \<Rightarrow>
                   (px\<lparr>rate_limiter := rl\<rparr>,
                    done_with h (Responded (json_rpc_error_response (lib_sj ls) 429 JNull e)))
               | (rl, Inr _) \<Rightarrow> (px\<lparr>rate_limiter := rl\<rparr>, h\<lparr>h_state := RateChecked, passed := True\<rparr>)))"

definition step_breaker :: "'c libs \<Rightarrow> handler \<Rightarrow> 'c Proxy \<Rightarrow> 'c Proxy \<times> handler" where
  "step_breaker ls h px =
     (case check (circuit_breaker px) (agent_id (h_context ls h)) (check_now (h_env h)) of
        (cb, Inl e) \<Rightarrow>
          (px\<lparr>circuit_breaker := cb\<rparr>, done_with h (Responded (json_rpc_error_response (lib_sj ls) 429 JNull e)))
      | (cb, Inr _) \<Rightarrow> (px\<lparr>circuit_breaker := cb\<rparr>, h\<lparr>h_state := Admitted, admitted := True\<rparr>))"

definition step_read :: "'c libs \<Rightarrow> handler \<Rightarrow> 'c Proxy \<Rightarrow> 'c Proxy \<times> handler" where
  "step_read ls h px =
     (case read_request ls (h_req h) of
        Inl r \<Rightarrow> (px, done_with h (Responded r))
      | Inr (body, i, params) \<Rightarrow>
          (case redact_stage ls (redactor px) body params of
             None \<Rightarrow> (px, done_with h Panicked)
           | Some (body1, params1, pii) \<Rightarrow> (px, h\<lparr>h_state := Ready (tool_name_of params) i body1 params1 pii\<rparr>)))"

text \<open>The registry is read once, before the evaluation; its result is used after it.\<close>

definition step_evaluate ::
  "'c libs \<Rightarrow> handler \<Rightarrow> string \<Rightarrow> json \<Rightarrow> string \<Rightarrow> McpToolCallParams option \<Rightarrow> bool \<Rightarrow> 'c Proxy \<Rightarrow> 'c Proxy \<times> handler" where
  "step_evaluate ls h tool i body params pii px =
     (count_redaction pii px,
      (case params of
         None \<Rightarrow> h\<lparr>h_state := Decided tool i body (initial_decision ls pii params)\<rparr>
       | Some p \<Rightarrow> h\<lparr>h_state := Evaluated tool i body params pii (evaluate_call ls (h_env h) (h_context ls h) p px)\<rparr>))"

definition step_decide ::
  "'c libs \<Rightarrow> handler \<Rightarrow> string \<Rightarrow> json \<Rightarrow> string \<Rightarrow> McpToolCallParams option \<Rightarrow> bool
   \<Rightarrow> duration \<times> (SafeGateError + PolicyDecision) \<Rightarrow> 'c Proxy \<Rightarrow> 'c Proxy \<times> handler" where
  "step_decide ls h tool i body params pii evaluation px =
     (case policy_apply ls (h_env h) (h_context ls h) body params pii evaluation px of
        (px, PolicyPanic) \<Rightarrow> (px, done_with h Panicked)
      | (px, Denied reason) \<Rightarrow> (px, h\<lparr>h_state := Denying tool i reason, denied := True\<rparr>)
      | (px, Forward body2 decision) \<Rightarrow> (px, h\<lparr>h_state := Decided tool i body2 decision\<rparr>))"

definition step_deny :: "'c libs \<Rightarrow> handler \<Rightarrow> string \<Rightarrow> json \<Rightarrow> string \<Rightarrow> 'c Proxy \<Rightarrow> 'c Proxy \<times> handler" where
  "step_deny ls h tool i reason px =
     map_prod (\<lambda>px. px) (\<lambda>r. (done_with h (Responded r))\<lparr>audited := True\<rparr>)
       (deny_stage ls (h_env h) (h_context ls h) tool i reason px)"

definition step_send ::
  "'c libs \<Rightarrow> handler \<Rightarrow> string \<Rightarrow> json \<Rightarrow> string \<Rightarrow> AuditDecision \<Rightarrow> 'c Proxy \<Rightarrow> 'c Proxy \<times> handler" where
  "step_send ls h tool i body decision px =
     (case upstream_uri ls (target_base px) (in_uri (h_req h)) of
        Inl e \<Rightarrow> (px, done_with h (Responded (json_rpc_error_response (lib_sj ls) 502 i e)))
      | Inr u \<Rightarrow>
          (let req = upstream_request (h_req h) u body
           in (px\<lparr>client := client px @ [req]\<rparr>,
               h\<lparr>h_state := Sent tool i decision (upstream (h_env h) req), forwarded := True\<rparr>)))"

definition step_complete ::
  "'c libs \<Rightarrow> handler \<Rightarrow> string \<Rightarrow> json \<Rightarrow> AuditDecision \<Rightarrow> string + UpstreamResponse \<Rightarrow> 'c Proxy \<Rightarrow> 'c Proxy \<times> handler" where
  "step_complete ls h tool i decision result px =
     map_prod (\<lambda>px. px)
       (\<lambda>r. (case result of Inl e \<Rightarrow> done_with h (Responded r) | Inr response \<Rightarrow> h\<lparr>h_state := Relaying response\<rparr>)
              \<lparr>audited := True\<rparr>)
       (forward_complete ls (h_env h) (h_context ls h) tool i decision result px)"

text \<open>The body of the upstream response is awaited after the request was audited and counted.\<close>

definition step_relay :: "'c libs \<Rightarrow> handler \<Rightarrow> UpstreamResponse \<Rightarrow> 'c Proxy \<Rightarrow> 'c Proxy \<times> handler" where
  "step_relay ls h response px = (px, done_with h (Responded (relay_response (lib_sj ls) response)))"

definition handler_step :: "'c libs \<Rightarrow> handler \<Rightarrow> 'c Proxy \<Rightarrow> 'c Proxy \<times> handler" where
  "handler_step ls h px =
     (case h_state h of
        Arrived \<Rightarrow> step_arrived ls h px
      | RateChecked \<Rightarrow> step_breaker ls h px
      | Admitted \<Rightarrow> step_read ls h px
      | Ready tool i body params pii \<Rightarrow> step_evaluate ls h tool i body params pii px
      | Evaluated tool i body params pii evaluation \<Rightarrow> step_decide ls h tool i body params pii evaluation px
      | Decided tool i body decision \<Rightarrow> step_send ls h tool i body decision px
      | Denying tool i reason \<Rightarrow> step_deny ls h tool i reason px
      | Sent tool i decision result \<Rightarrow> step_complete ls h tool i decision result px
      | Relaying response \<Rightarrow> step_relay ls h response px
      | Done r \<Rightarrow> (px, h)
      | Dropped \<Rightarrow> (px, h))"

fun at_await :: "hstate \<Rightarrow> bool" where
  "at_await Admitted = True"
| "at_await (Evaluated tool i body params pii evaluation) = True"
| "at_await (Sent tool i decision result) = True"
| "at_await (Relaying response) = True"
| "at_await s = False"

section \<open>The system\<close>

text \<open>
  \<open>rate_events\<close> and \<open>breaker_events\<close> are the histories of the calls of the rate limiter and of
  the circuit breaker; \<open>running\<close> holds until \<open>main\<close> returns.
\<close>

record 'c gateway =
  gw_proxy :: "'c Proxy"
  handlers :: "handler list"
  rate_events :: "(string \<times> instant) list"
  breaker_events :: "breaker_event list"
  running :: bool

definition gateway_new :: "'c Proxy \<Rightarrow> 'c gateway" where
  "gateway_new px = \<lparr>gw_proxy = px, handlers = [], rate_events = [], breaker_events = [], running = True\<rparr>"

definition rate_event_of :: "'c libs \<Rightarrow> handler \<Rightarrow> (string \<times> instant) list" where
  "rate_event_of ls h =
     (if h_state h = Arrived \<and> \<not> special_path ls (h_req h) \<and> authenticated (h_context ls h)
      then [(agent_id (h_context ls h), rate_now (h_env h))] else [])"

definition breaker_event_of :: "'c libs \<Rightarrow> handler \<Rightarrow> breaker_event list" where
  "breaker_event_of ls h =
     (case h_state h of
        RateChecked \<Rightarrow> [Check (agent_id (h_context ls h)) (check_now (h_env h))]
      | Evaluated tool i body params pii evaluation \<Rightarrow>
          (case snd evaluation of
             Inr (Deny reason) \<Rightarrow> [Failure (agent_id (h_context ls h)) (failure_now (h_env h))]
           | _ \<Rightarrow> [])
      | _ \<Rightarrow> [])"

text \<open>
  Start-up: \<open>main\<close> up to the accept loop. \<open>vars\<close> are the environment variables, \<open>bind\<close> is the
  error of binding the listen address if there is one, \<open>fs\<close>, \<open>is_dir\<close> and \<open>listing\<close> describe the
  files as the registry finds them.
\<close>

datatype 'c startup_result = StartPanic string | StartFailed string | Listening SocketAddr "'c gateway"

definition startup ::
  "'c libs \<Rightarrow> (string \<Rightarrow> SocketAddr option) \<Rightarrow> (string \<rightharpoonup> string) \<Rightarrow> (SocketAddr \<Rightarrow> string option)
   \<Rightarrow> files \<Rightarrow> (string \<Rightarrow> bool) \<Rightarrow> (string \<Rightarrow> string list option) \<Rightarrow> 'c startup_result" where
  "startup ls parse_addr vars bind fs is_dir listing =
     (let config = from_env parse_addr vars
      in case policy_engine_new (lib_wl ls) of
           Inl e \<Rightarrow> StartPanic (''failed to initialise WASM policy engine: '' @ error_to_string e)
         | Inr eng \<Rightarrow>
             (let watcher = policy_watcher_new (policy_dir config) eng;
                  dir = tenant_policy_dir config;
                  reg = registry_new (lib_wl ls) fs (is_dir dir) (listing dir) dir (shared watcher);
                  secret = (case vars ''SAFEGATE_AUDIT_HMAC_SECRET'' of None \<Rightarrow> ''change-me-in-production'' | Some s \<Rightarrow> s);
                  logger = audit_logger_new Stdout secret
              in case bind (listen_addr config) of
                   Some e \<Rightarrow> StartFailed e
                 | None \<Rightarrow>
                     (case proxy_new ls config reg logger metrics_initial of
                        Inl e \<Rightarrow> StartFailed (error_to_string e)
                      | Inr px \<Rightarrow> Listening (listen_addr config) (gateway_new px))))"

inductive gateway_step :: "'c libs \<Rightarrow> 'c gateway \<Rightarrow> 'c gateway \<Rightarrow> bool" for ls where
  accept: "running gw \<Longrightarrow> gateway_step ls gw (gw\<lparr>handlers := handlers gw @ [new_handler rq ev]\<rparr>)"
| accept_error: "running gw \<Longrightarrow> gateway_step ls gw (gw\<lparr>running := False\<rparr>)"
| advance: "running gw \<Longrightarrow> i < length (handlers gw) \<Longrightarrow>
    handler_step ls (handlers gw ! i) (gw_proxy gw) = (px, h) \<Longrightarrow>
    gateway_step ls gw
      (gw\<lparr>gw_proxy := px, handlers := (handlers gw)[i := h],
          rate_events := rate_events gw @ rate_event_of ls (handlers gw ! i),
          breaker_events := breaker_events gw @ breaker_event_of ls (handlers gw ! i)\<rparr>)"
| disconnect: "running gw \<Longrightarrow> i < length (handlers gw) \<Longrightarrow> at_await (h_state (handlers gw ! i)) \<Longrightarrow>
    gateway_step ls gw (gw\<lparr>handlers := (handlers gw)[i := (handlers gw ! i)\<lparr>h_state := Dropped\<rparr>]\<rparr>)"
| tenant_reload: "running gw \<Longrightarrow>
    gateway_step ls gw (gw\<lparr>gw_proxy := (gw_proxy gw)\<lparr>policy_registry :=
      handle_registry_event (lib_wl ls) fs (policy_registry (gw_proxy gw)) e\<rparr>\<rparr>)"
| default_reload: "running gw \<Longrightarrow>
    gateway_step ls gw (gw\<lparr>gw_proxy := (gw_proxy gw)\<lparr>policy_registry :=
      (policy_registry (gw_proxy gw))\<lparr>default_engine :=
         reload_policy (lib_wl ls) fs path (default_engine (policy_registry (gw_proxy gw)))\<rparr>\<rparr>\<rparr>)"
| writer_start: "running gw \<Longrightarrow> phase (audit_logger (gw_proxy gw)) = Starting \<Longrightarrow>
    gateway_step ls gw (gw\<lparr>gw_proxy := (gw_proxy gw)\<lparr>audit_logger := open_sink (audit_logger (gw_proxy gw)) opened\<rparr>\<rparr>)"
| writer_recv: "running gw \<Longrightarrow> phase (audit_logger (gw_proxy gw)) = Running \<Longrightarrow>
    queue (audit_logger (gw_proxy gw)) \<noteq> [] \<Longrightarrow>
    gateway_step ls gw (gw\<lparr>gw_proxy := (gw_proxy gw)\<lparr>audit_logger :=
      recv_entry (lib_sj ls) (lib_al ls) (audit_logger (gw_proxy gw)) r\<rparr>\<rparr>)"

inductive_cases gateway_stepE: "gateway_step ls gw gw'"

inductive gateway_reachable :: "'c libs \<Rightarrow> 'c gateway \<Rightarrow> 'c gateway \<Rightarrow> bool" for ls gw0 where
  initial: "gateway_reachable ls gw0 gw0"
| step: "gateway_reachable ls gw0 gw \<Longrightarrow> gateway_step ls gw gw' \<Longrightarrow> gateway_reachable ls gw0 gw'"

lemma gateway_reachable_trans:
  "gateway_reachable ls gw1 gw2 \<Longrightarrow> gateway_reachable ls gw0 gw1 \<Longrightarrow> gateway_reachable ls gw0 gw2"
  by (induction rule: gateway_reachable.induct) (auto intro: gateway_reachable.step)

end
