(* ===== verification/Gateway_Handlers.thy ===== *)
theory Gateway_Handlers
  imports Gateway
begin

text \<open>
  What one handler of the concurrent gateway does: the effect of each of its steps on the
  shared components and on its flags, its state after each step, and its run from arrival to
  end, which is \<open>handle_request\<close> when nothing else interferes.
\<close>

section \<open>What a step of a handler does\<close>

lemmas step_defs = step_arrived_def step_breaker_def step_read_def step_evaluate_def step_decide_def
  step_deny_def step_send_def step_complete_def step_relay_def done_with_def map_prod_def case_prod_unfold

lemmas stage_defs = handle_metrics_def handle_healthz_def count_redaction_def policy_apply_def deny_stage_def
  forward_complete_def emit_audit_def

lemmas step_splits = sum.splits option.splits if_splits PolicyDecision.splits rebuild.splits

abbreviation rate_check :: "'c Proxy \<Rightarrow> string \<times> instant \<Rightarrow> RateLimiter \<times> (SafeGateError + unit)" where
  "rate_check px e \<equiv> rate_step AGENT_RATE_LIMIT AGENT_RATE_LIMIT_WINDOW (rate_limiter px) e"

lemma handler_step_request:
  assumes "handler_step ls h px = (px', h')"
  shows "h_req h' = h_req h \<and> h_env h' = h_env h"
  using assms
  by (cases "h_state h") (auto simp: handler_step_def step_defs Let_def split: step_splits policy_outcome.splits)

lemma handler_step_rate:
  assumes "handler_step ls h px = (px', h')"
  shows "rate_limiter px' = fst (run_trace (rate_step AGENT_RATE_LIMIT AGENT_RATE_LIMIT_WINDOW) (rate_limiter px) (rate_event_of ls h))"
    and "passed h' \<longleftrightarrow> passed h \<or> (\<exists>e \<in> set (rate_event_of ls h). is_ok (snd (rate_check px e)))"
proof -
  have "rate_limiter px' = fst (run_trace (rate_step AGENT_RATE_LIMIT AGENT_RATE_LIMIT_WINDOW) (rate_limiter px) (rate_event_of ls h))
    \<and> (passed h' \<longleftrightarrow> passed h \<or> (\<exists>e \<in> set (rate_event_of ls h). is_ok (snd (rate_check px e))))"
  proof (cases "h_state h = Arrived")
    case True
    with assms show ?thesis
      by (auto simp: handler_step_def step_defs stage_defs rate_event_of_def special_path_def rate_step_def Let_def
          split: step_splits)
  next
    case False
    with assms show ?thesis
      by (cases "h_state h"; auto simp: handler_step_def step_defs stage_defs rate_event_of_def Let_def
          split: step_splits)
  qed
  then show "rate_limiter px' = fst (run_trace (rate_step AGENT_RATE_LIMIT AGENT_RATE_LIMIT_WINDOW) (rate_limiter px) (rate_event_of ls h))"
    and "passed h' \<longleftrightarrow> passed h \<or> (\<exists>e \<in> set (rate_event_of ls h). is_ok (snd (rate_check px e)))" by auto
qed

lemma handler_step_breaker:
  assumes "handler_step ls h px = (px', h')"
  shows "circuit_breaker px' = fst (run_trace breaker_step (circuit_breaker px) (breaker_event_of ls h))"
    and "admitted h' \<longleftrightarrow> admitted h \<or> (h_state h = RateChecked
      \<and> is_ok (snd (check (circuit_breaker px) (agent_id (h_context ls h)) (check_now (h_env h)))))"
    and "denied h' \<longleftrightarrow> denied h \<or> (\<exists>a t. Failure a t \<in> set (breaker_event_of ls h))"
  using assms
  by (cases "h_state h"; auto simp: handler_step_def step_defs stage_defs breaker_event_of_def Let_def
      split: step_splits policy_outcome.splits)+

lemma handler_step_registry: "handler_step ls h px = (px', h') \<Longrightarrow> policy_registry px' = policy_registry px"
  by (cases "h_state h"; auto simp: handler_step_def step_defs stage_defs Let_def
      split: step_splits policy_outcome.splits)

text \<open>What a handler has done by each of its states.\<close>

fun handler_ok :: "handler \<Rightarrow> hstate \<Rightarrow> bool" where
  "handler_ok h Arrived \<longleftrightarrow> \<not> passed h \<and> \<not> admitted h \<and> \<not> denied h \<and> \<not> forwarded h \<and> \<not> audited h"
| "handler_ok h RateChecked \<longleftrightarrow> passed h \<and> \<not> admitted h \<and> \<not> denied h \<and> \<not> forwarded h \<and> \<not> audited h"
| "handler_ok h (Denying tool i reason) \<longleftrightarrow> passed h \<and> admitted h \<and> denied h \<and> \<not> forwarded h \<and> \<not> audited h"
| "handler_ok h (Sent tool i decision result) \<longleftrightarrow> passed h \<and> admitted h \<and> \<not> denied h \<and> forwarded h \<and> \<not> audited h"
| "handler_ok h (Relaying response) \<longleftrightarrow> passed h \<and> admitted h \<and> \<not> denied h \<and> forwarded h \<and> audited h"
| "handler_ok h (Done r) \<longleftrightarrow> (admitted h \<longrightarrow> passed h) \<and> (audited h \<longleftrightarrow> forwarded h \<or> denied h)
     \<and> (audited h \<longrightarrow> admitted h) \<and> \<not> (forwarded h \<and> denied h)"
| "handler_ok h Dropped \<longleftrightarrow> passed h \<and> admitted h \<and> \<not> denied h \<and> (audited h \<longrightarrow> forwarded h)"
| "handler_ok h s \<longleftrightarrow> passed h \<and> admitted h \<and> \<not> denied h \<and> \<not> forwarded h \<and> \<not> audited h"

abbreviation h_ok :: "handler \<Rightarrow> bool" where
  "h_ok h \<equiv> handler_ok h (h_state h)"

lemma h_ok_facts:
  assumes "h_ok h"
  shows "admitted h \<Longrightarrow> passed h" "forwarded h \<Longrightarrow> admitted h" "denied h \<Longrightarrow> admitted h" "audited h \<Longrightarrow> admitted h"
    "\<not> (forwarded h \<and> denied h)"
  using assms by (cases "h_state h"; auto)+

lemma handler_step_ok:
  assumes "handler_step ls h px = (px', h')" and "h_ok h"
  shows "h_ok h'"
  using assms
  by (cases "h_state h"; auto simp: handler_step_def step_defs Let_def split: step_splits policy_outcome.splits)

lemma handler_step_effects:
  assumes "handler_step ls h px = (px', h')" and "h_ok h"
  shows "length (client px') + of_bool (forwarded h) = length (client px) + of_bool (forwarded h')"
    and "phase (audit_logger px') = phase (audit_logger px)"
    and "phase (audit_logger px) \<noteq> Stopped \<Longrightarrow>
      length (sent (audit_logger px')) + of_bool (audited h) = length (sent (audit_logger px)) + of_bool (audited h')"
  using assms
  by (cases "h_state h"; auto simp: handler_step_def step_defs stage_defs log_entry_def Let_def
      split: step_splits policy_outcome.splits)+

text \<open>The writer's side: a step of a handler logs at most one record, made for its request.\<close>

definition record_of :: "'c libs \<Rightarrow> string \<Rightarrow> handler \<Rightarrow> AuditLogEntry \<Rightarrow> bool" where
  "record_of ls secret h e \<longleftrightarrow>
     (\<exists>tool decision latency. e = entry_new (lib_sj ls) (lib_al ls) (wall_now (h_env h)) (trace_id (h_env h))
        (Some (tenant_id (h_context ls h))) (agent_id (h_context ls h)) tool decision latency secret)"

lemma record_of_fields:
  "record_of ls secret h e \<Longrightarrow>
     entry_trace_id e = trace_id (h_env h) \<and> entry_timestamp e = wall_now (h_env h)
     \<and> entry_agent_id e = agent_id (h_context ls h) \<and> entry_tenant_id e = Some (tenant_id (h_context ls h))"
  by (auto simp: record_of_def entry_new_def Let_def)

lemma record_of_emitted:
  "\<exists>e. audit_logger (emit_audit ls (h_env h) (h_context ls h) tool d latency px) = log_entry (audit_logger px) e
     \<and> record_of ls (hmac_secret (audit_logger px)) h e"
  by (auto simp: emit_audit_def record_of_def)

lemma handler_step_log:
  assumes "handler_step ls h px = (px', h')" and "h_ok h"
  shows "audit_logger px' = audit_logger px \<and> audited h' = audited h
    \<or> (\<exists>e. audit_logger px' = log_entry (audit_logger px) e \<and> record_of ls (hmac_secret (audit_logger px)) h e)"
proof -
  have deny: "audit_logger (fst (deny_stage ls ev ctx tool i reason px)) = audit_logger
      (emit_audit ls ev ctx tool (AuditDeny reason) (as_micros (duration_since (deny_now ev) (request_start ev))) px)"
    for ev ctx tool i reason by (simp add: deny_stage_def emit_audit_def Let_def)
  have complete: "audit_logger (fst (forward_complete ls ev ctx tool i d r px)) = audit_logger
      (emit_audit ls ev ctx tool d (as_micros (duration_since (done_now ev) (request_start ev))) px)"
    for ev ctx tool i d r by (simp add: forward_complete_def emit_audit_def Let_def split: sum.splits)
  show ?thesis
  proof (cases "h_state h")
    case (Denying tool i reason)
    with assms(1) have px: "px' = fst (deny_stage ls (h_env h) (h_context ls h) tool i reason px)"
      by (auto simp: handler_step_def step_deny_def map_prod_def case_prod_unfold)
    show ?thesis using record_of_emitted unfolding px deny by blast
  next
    case (Sent tool i d r)
    with assms(1) have px: "px' = fst (forward_complete ls (h_env h) (h_context ls h) tool i d r px)"
      by (auto simp: handler_step_def step_complete_def map_prod_def case_prod_unfold)
    show ?thesis using record_of_emitted unfolding px complete by blast
  qed (use assms(1) in \<open>auto simp: handler_step_def step_defs handle_metrics_def handle_healthz_def
      count_redaction_def policy_apply_def Let_def split: step_splits policy_outcome.splits\<close>)
qed

text \<open>The metrics: a step counts at most one response, and exactly when it audits.\<close>

lemma handler_step_metrics:
  assumes "handler_step ls h px = (px', h')" and "h_ok h"
  shows "policy_decisions_total (metrics px') ''deny'' + of_bool (denied h)
      = policy_decisions_total (metrics px) ''deny'' + of_bool (denied h')"
    and "length (proxy_latency_seconds (metrics px')) + of_bool (audited h)
      = length (proxy_latency_seconds (metrics px)) + of_bool (audited h')"
    and "http_requests_total (metrics px') = http_requests_total (metrics px) \<and> audited h' = audited h
      \<or> \<not> audited h \<and> audited h' \<and> (\<exists>status. http_requests_total (metrics px')
           = bump (status, tenant_id (h_context ls h)) (http_requests_total (metrics px)))"
  using assms
  by (cases "h_state h"; auto simp: handler_step_def step_defs stage_defs Let_def
      split: step_splits policy_outcome.splits)+

section \<open>An uninterrupted handler is \<open>handle_request\<close>\<close>

fun handler_run :: "'c libs \<Rightarrow> nat \<Rightarrow> handler \<Rightarrow> 'c Proxy \<Rightarrow> 'c Proxy \<times> handler" where
  "handler_run ls 0 h px = (px, h)"
| "handler_run ls (Suc n) h px = (case handler_step ls h px of (px', h') \<Rightarrow> handler_run ls n h' px')"

definition ends_as :: "'c Proxy \<times> handler \<Rightarrow> 'c Proxy \<times> outcome \<Rightarrow> bool" where
  "ends_as r out \<longleftrightarrow> fst r = fst out \<and> h_state (snd r) = Done (snd out)"

lemma ends_done: "h_state h = Done r \<Longrightarrow> ends_as (handler_run ls n h px) (px, r)"
  by (induction n) (auto simp: ends_as_def handler_step_def)

declare handler_run.simps(2) [simp del]

text \<open>The rest of the run from each state, with what it needs of the handler made explicit.\<close>

lemma ends_sent:
  assumes "h_state h = Sent tool i d result" and "h_env h = ev" and "h_req h = rq"
  shows "ends_as (handler_run ls (Suc (Suc n)) h px)
     (map_prod (\<lambda>px. px) Responded (forward_complete ls ev (context_of ls rq) tool i d result px))"
proof (cases result)
  case (Inl e)
  with assms show ?thesis
    by (simp add: handler_run.simps(2) [of ls "Suc n"] handler_step_def step_complete_def done_with_def case_prod_unfold
        map_prod_def ends_done)
next
  case (Inr response)
  with assms show ?thesis
    by (simp add: handler_run.simps(2) handler_step_def step_complete_def step_relay_def forward_complete_def done_with_def
        case_prod_unfold map_prod_def ends_done Let_def)
qed

lemma ends_denying:
  assumes "h_state h = Denying tool i reason" and "h_env h = ev" and "h_req h = rq"
  shows "ends_as (handler_run ls (Suc n) h px)
     (map_prod (\<lambda>px. px) Responded (deny_stage ls ev (context_of ls rq) tool i reason px))"
  using assms
  by (simp add: handler_run.simps(2) handler_step_def step_deny_def done_with_def case_prod_unfold map_prod_def ends_done)

lemma ends_decided:
  assumes "h_state h = Decided tool i body d" and "h_env h = ev" and "h_req h = rq"
  shows "ends_as (handler_run ls (Suc (Suc (Suc n))) h px)
     (map_prod (\<lambda>px. px) Responded (forward_stage ls ev rq (context_of ls rq) tool i body d px))"
proof (cases "upstream_uri ls (target_base px) (in_uri rq)")
  case (Inl e)
  with assms show ?thesis
    by (simp add: handler_run.simps(2) [of ls "Suc (Suc n)"] handler_step_def step_send_def forward_stage_def done_with_def ends_done)
next
  case (Inr u)
  with assms show ?thesis
    by (simp add: handler_run.simps(2) [of ls "Suc (Suc n)"] handler_step_def step_send_def forward_stage_def Let_def ends_sent)
qed

lemma ends_evaluated:
  assumes "h_state h = Evaluated tool i body params pii evaluation" and "h_env h = ev" and "h_req h = rq"
  shows "ends_as (handler_run ls (Suc (Suc (Suc (Suc n)))) h px)
     (case policy_apply ls ev (context_of ls rq) body params pii evaluation px of
        (px, PolicyPanic) \<Rightarrow> (px, Panicked)
      | (px, Denied reason) \<Rightarrow> map_prod (\<lambda>px. px) Responded (deny_stage ls ev (context_of ls rq) tool i reason px)
      | (px, Forward body decision) \<Rightarrow>
          map_prod (\<lambda>px. px) Responded (forward_stage ls ev rq (context_of ls rq) tool i body decision px))"
  using assms
  by (cases "policy_apply ls ev (context_of ls rq) body params pii evaluation px"; cases "snd (policy_apply ls ev (context_of ls rq) body params pii evaluation px)")
    (simp_all add: handler_run.simps(2) [of ls "Suc (Suc (Suc n))"] handler_step_def step_decide_def done_with_def
      ends_done ends_decided ends_denying)

lemma ends_ready:
  assumes "h_state h = Ready tool i body params pii" and "h_env h = ev" and "h_req h = rq"
  shows "ends_as (handler_run ls (Suc (Suc (Suc (Suc (Suc n))))) h px)
     (case policy_stage ls ev (context_of ls rq) body params pii px of
        (px, PolicyPanic) \<Rightarrow> (px, Panicked)
      | (px, Denied reason) \<Rightarrow> map_prod (\<lambda>px. px) Responded (deny_stage ls ev (context_of ls rq) tool i reason px)
      | (px, Forward body decision) \<Rightarrow>
          map_prod (\<lambda>px. px) Responded (forward_stage ls ev rq (context_of ls rq) tool i body decision px))"
  using assms
  by (cases params)
    (simp_all add: handler_run.simps(2) [of ls "Suc (Suc (Suc (Suc n)))"] handler_step_def step_evaluate_def policy_stage_def
      ends_decided ends_evaluated)

lemma ends_admitted:
  assumes "h_state h = Admitted" and "h_env h = ev" and "h_req h = rq"
  shows "ends_as (handler_run ls (Suc (Suc (Suc (Suc (Suc (Suc n)))))) h px)
     (case read_request ls rq of
        Inl response \<Rightarrow> (px, Responded response)
      | Inr (body, i, params) \<Rightarrow> process ls ev rq (context_of ls rq) body i params px)"
proof (cases "read_request ls rq")
  case (Inl r)
  with assms show ?thesis
    by (simp add: handler_run.simps(2) [of ls "Suc (Suc (Suc (Suc (Suc n))))"] handler_step_def step_read_def done_with_def ends_done)
next
  case (Inr x)
  obtain body i params where x: "x = (body, i, params)" by (cases x)
  with Inr assms show ?thesis
    by (cases "redact_stage ls (redactor px) body params")
      (auto simp add: handler_run.simps(2) [of ls "Suc (Suc (Suc (Suc (Suc n))))"] handler_step_def step_read_def done_with_def
        process_def Let_def ends_done ends_ready)
qed

lemma ends_rate_checked:
  assumes "h_state h = RateChecked" and "h_env h = ev" and "h_req h = rq"
    and "check (circuit_breaker px) (agent_id (context_of ls rq)) (check_now ev) = (cb, r)"
  shows "ends_as (handler_run ls (Suc (Suc (Suc (Suc (Suc (Suc (Suc n))))))) h px)
     (case r of
        Inl e \<Rightarrow> (px\<lparr>circuit_breaker := cb\<rparr>, Responded (json_rpc_error_response (lib_sj ls) 429 JNull e))
      | Inr _ \<Rightarrow>
          (case read_request ls rq of
             Inl response \<Rightarrow> (px\<lparr>circuit_breaker := cb\<rparr>, Responded response)
           | Inr (body, i, params) \<Rightarrow>
               process ls ev rq (context_of ls rq) body i params (px\<lparr>circuit_breaker := cb\<rparr>)))"
  using assms
  by (cases r)
    (simp_all add: handler_run.simps(2) [of ls "Suc (Suc (Suc (Suc (Suc (Suc n)))))"] handler_step_def step_breaker_def
      done_with_def ends_done ends_admitted)

lemma ends_arrived:
  "ends_as (handler_run ls (Suc (Suc (Suc (Suc (Suc (Suc (Suc (Suc n)))))))) (new_handler rq ev) px) (handle_request ls ev rq px)"
proof -
  let ?h = "new_handler rq ev" and ?ctx = "context_of ls rq"
  note run = handler_run.simps(2) [of ls "Suc (Suc (Suc (Suc (Suc (Suc (Suc n))))))"]
  have h: "h_state ?h = Arrived" "h_req ?h = rq" "h_env ?h = ev" by (simp_all add: new_handler_def)
  show ?thesis
  proof (cases "special_path ls rq \<or> \<not> authenticated ?ctx")
    case True
    then show ?thesis
      by (auto simp: run handler_step_def step_arrived_def h special_path_def handle_request_def admit_def done_with_def
          case_prod_unfold map_prod_def ends_done Let_def)
  next
    case False
    obtain rl r where rl: "check_rate_limit (rate_limiter px) (agent_id ?ctx) AGENT_RATE_LIMIT AGENT_RATE_LIMIT_WINDOW
        (rate_now ev) = (rl, r)" by fastforce
    obtain cb c where cb: "check (circuit_breaker px) (agent_id ?ctx) (check_now ev) = (cb, c)" by fastforce
    show ?thesis
    proof (cases r)
      case (Inl e)
      with False rl show ?thesis
        by (simp add: run handler_step_def step_arrived_def h special_path_def handle_request_def admit_def done_with_def
            ends_done Let_def)
    next
      case (Inr u)
      with False rl cb ends_rate_checked [of "?h\<lparr>h_state := RateChecked, passed := True\<rparr>" ev rq "px\<lparr>rate_limiter := rl\<rparr>" ls cb c n]
      show ?thesis
        by (auto simp: run handler_step_def step_arrived_def h special_path_def handle_request_def admit_def Let_def
            split: sum.splits)
    qed
  qed
qed

section \<open>Every handler ends\<close>

text \<open>The number of steps a handler needs at most from each of its states.\<close>

fun rank :: "hstate \<Rightarrow> nat" where
  "rank Arrived = 8"
| "rank RateChecked = 7"
| "rank Admitted = 6"
| "rank (Ready tool i body params pii) = 5"
| "rank (Evaluated tool i body params pii evaluation) = 4"
| "rank (Decided tool i body decision) = 3"
| "rank (Denying tool i reason) = 1"
| "rank (Sent tool i decision result) = 2"
| "rank (Relaying response) = 1"
| "rank (Done r) = 0"
| "rank Dropped = 0"

lemma handler_step_rank:
  assumes "handler_step ls h px = (px', h')"
  shows "rank (h_state h') \<le> rank (h_state h) - 1" and "h_state h' = Dropped \<longleftrightarrow> h_state h = Dropped"
  using assms
  by (cases "h_state h"; auto simp: handler_step_def step_defs Let_def split: step_splits policy_outcome.splits)+

lemma handler_run_rank:
  "rank (h_state (snd (handler_run ls n h px))) \<le> rank (h_state h) - n
   \<and> (h_state (snd (handler_run ls n h px)) = Dropped \<longleftrightarrow> h_state h = Dropped)"
proof (induction n arbitrary: h px)
  case (Suc n)
  obtain px' h' where st: "handler_step ls h px = (px', h')" by fastforce
  with Suc.IH [of h' px'] handler_step_rank [OF st] show ?case by (simp add: handler_run.simps(2)) arith
qed simp

lemma handler_run_ends:
  assumes "h_state h \<noteq> Dropped"
  shows "\<exists>r. h_state (snd (handler_run ls 8 h px)) = Done r"
proof -
  let ?s = "h_state (snd (handler_run ls 8 h px))"
  have "rank (h_state h) \<le> 8" by (cases "h_state h") auto
  with handler_run_rank [of ls 8 h px] assms have "rank ?s = 0" "?s \<noteq> Dropped" by auto
  then show ?thesis by (cases ?s) auto
qed

text \<open>A handler that is past the rate limiter never comes back to it.\<close>

lemma handler_step_departed:
  assumes "handler_step ls h px = (px', h')" and "h_state h \<noteq> Arrived"
  shows "h_state h' \<noteq> Arrived"
  using assms
  by (cases "h_state h") (auto simp: handler_step_def step_defs Let_def split: step_splits policy_outcome.splits)

end
