(* ===== verification/Gateway_Invariants.thy ===== *)
theory Gateway_Invariants
  imports Gateway_Handlers
begin

text \<open>
  The invariants of the concurrent gateway, one for each shared component: the component's
  state is the run of its own model on the history of its calls, and its counts agree with
  what the handlers have done. Each is shown for a step of a handler, then all of them
  together for every step and every reachable state of a started gateway.
\<close>

section \<open>The invariants\<close>

abbreviation agent_of :: "'c libs \<Rightarrow> handler \<Rightarrow> string" where
  "agent_of ls h \<equiv> agent_id (h_context ls h)"

abbreviation tenant_of_handler :: "'c libs \<Rightarrow> handler \<Rightarrow> string" where
  "tenant_of_handler ls h \<equiv> tenant_id (h_context ls h)"

abbreviation rate_log :: "(string \<times> instant) list \<Rightarrow> RateLimiter \<times> (SafeGateError + unit) list" where
  "rate_log es \<equiv> rate_run AGENT_RATE_LIMIT AGENT_RATE_LIMIT_WINDOW es"

abbreviation breaker_log :: "breaker_event list \<Rightarrow> CircuitBreaker \<times> (SafeGateError + unit) list" where
  "breaker_log es \<equiv> run_trace breaker_step circuit_breaker_new es"

definition through :: "'c libs \<Rightarrow> string \<Rightarrow> (instant \<Rightarrow> bool) \<Rightarrow> handler \<Rightarrow> bool" where
  "through ls a Q h \<longleftrightarrow> passed h \<and> agent_of ls h = a \<and> Q (rate_now (h_env h))"

definition rate_invariant :: "'c libs \<Rightarrow> 'c gateway \<Rightarrow> bool" where
  "rate_invariant ls gw \<longleftrightarrow>
     rate_limiter (gw_proxy gw) = fst (rate_log (rate_events gw))
     \<and> (\<forall>a Q. length (filter (through ls a Q) (handlers gw))
          = length (filter Q (admitted_for a (rate_events gw) (snd (rate_log (rate_events gw))))))"

definition breaker_invariant :: "'c libs \<Rightarrow> 'c gateway \<Rightarrow> bool" where
  "breaker_invariant ls gw \<longleftrightarrow>
     circuit_breaker (gw_proxy gw) = fst (breaker_log (breaker_events gw))
     \<and> (\<forall>a. length (filter (\<lambda>h. admitted h \<and> agent_of ls h = a) (handlers gw))
          = checks_passed a (breaker_events gw) (map is_ok (snd (breaker_log (breaker_events gw)))))
     \<and> (\<forall>a. length (filter (\<lambda>h. denied h \<and> agent_of ls h = a) (handlers gw))
          = length (filter (failure_of a) (breaker_events gw)))"

definition handlers_invariant :: "'c gateway \<Rightarrow> bool" where
  "handlers_invariant gw \<longleftrightarrow>
     (\<forall>h \<in> set (handlers gw). h_ok h)
     \<and> length (client (gw_proxy gw)) = length (filter forwarded (handlers gw))"

definition log_invariant :: "'c libs \<Rightarrow> string \<Rightarrow> 'c gateway \<Rightarrow> bool" where
  "log_invariant ls secret gw \<longleftrightarrow>
     senders (audit_logger (gw_proxy gw)) \<and> hmac_secret (audit_logger (gw_proxy gw)) = secret
     \<and> (phase (audit_logger (gw_proxy gw)) = Stopped \<longrightarrow> io_failed (audit_logger (gw_proxy gw)))
     \<and> (phase (audit_logger (gw_proxy gw)) \<noteq> Stopped \<longrightarrow>
          length (sent (audit_logger (gw_proxy gw))) = length (filter audited (handlers gw))
          \<and> (\<forall>h \<in> set (handlers gw). audited h \<longrightarrow>
               (\<exists>e \<in> set (sent (audit_logger (gw_proxy gw))). record_of ls secret h e)))"

definition metrics_invariant :: "'c libs \<Rightarrow> 'c gateway \<Rightarrow> bool" where
  "metrics_invariant ls gw \<longleftrightarrow>
     metrics_finite (metrics (gw_proxy gw))
     \<and> (\<forall>t. tenant_requests (metrics (gw_proxy gw)) t
          = length (filter (\<lambda>h. audited h \<and> tenant_of_handler ls h = t) (handlers gw)))
     \<and> policy_decisions_total (metrics (gw_proxy gw)) ''deny'' = length (filter denied (handlers gw))
     \<and> length (proxy_latency_seconds (metrics (gw_proxy gw))) = length (filter audited (handlers gw))"

definition policy_invariant :: "'c gateway \<Rightarrow> bool" where
  "policy_invariant gw \<longleftrightarrow>
     loaded (engines (policy_registry (gw_proxy gw)))
     \<and> sandbox (default_engine (policy_registry (gw_proxy gw))) = default_sandbox"

definition gateway_invariant :: "'c libs \<Rightarrow> string \<Rightarrow> 'c gateway \<Rightarrow> bool" where
  "gateway_invariant ls secret gw \<longleftrightarrow>
     rate_invariant ls gw \<and> breaker_invariant ls gw \<and> handlers_invariant gw \<and> log_invariant ls secret gw
     \<and> metrics_invariant ls gw \<and> policy_invariant gw"

lemmas invariant_defs = gateway_invariant_def rate_invariant_def breaker_invariant_def handlers_invariant_def
  log_invariant_def metrics_invariant_def policy_invariant_def

section \<open>A step of a handler\<close>

abbreviation advanced :: "'c libs \<Rightarrow> 'c gateway \<Rightarrow> nat \<Rightarrow> 'c Proxy \<Rightarrow> handler \<Rightarrow> 'c gateway" where
  "advanced ls gw i px h \<equiv>
     gw\<lparr>gw_proxy := px, handlers := (handlers gw)[i := h],
        rate_events := rate_events gw @ rate_event_of ls (handlers gw ! i),
        breaker_events := breaker_events gw @ breaker_event_of ls (handlers gw ! i)\<rparr>"

lemma rate_advance:
  assumes "rate_invariant ls gw" and "h_ok (handlers gw ! i)"
    and "i < length (handlers gw)" and "handler_step ls (handlers gw ! i) (gw_proxy gw) = (px, h)"
  shows "rate_invariant ls (advanced ls gw i px h)"
proof -
  let ?h = "handlers gw ! i" and ?es = "rate_events gw"
  note rate = handler_step_rate [OF assms(4)]
  have req: "h_req h = h_req ?h" "h_env h = h_env ?h" using handler_step_request [OF assms(4)] by auto
  have inv: "rate_limiter (gw_proxy gw) = fst (rate_log ?es)"
    "\<And>a Q. length (filter (through ls a Q) (handlers gw)) = length (filter Q (admitted_for a ?es (snd (rate_log ?es))))"
    using assms(1) by (auto simp: rate_invariant_def)
  have count: "length (filter (through ls a Q) ((handlers gw)[i := h])) + of_bool (through ls a Q ?h)
      = length (filter Q (admitted_for a ?es (snd (rate_log ?es)))) + of_bool (through ls a Q h)" for a Q
    using count_update [OF assms(3), of "through ls a Q" h] inv(2) by simp
  show ?thesis
  proof (cases "rate_event_of ls ?h")
    case Nil
    then have "through ls a Q h = through ls a Q ?h" for a Q using rate(2) req by (simp add: through_def)
    with Nil rate(1) inv(1) count show ?thesis by (simp add: rate_invariant_def)
  next
    case (Cons e es)
    then have e: "rate_event_of ls ?h = [e]" "h_state ?h = Arrived"
      "e = (agent_id (h_context ls ?h), rate_now (h_env ?h))"
      by (auto simp: rate_event_of_def split: if_splits)
    then have "\<not> passed ?h" using assms(2) by simp
    with e rate(2) req inv(1) have "through ls a Q h \<longleftrightarrow> is_ok (snd (rate_check (gw_proxy gw) e)) \<and> fst e = a \<and> Q (snd e)"
      "\<not> through ls a Q ?h" for a Q
      by (auto simp: through_def)
    with e(1) rate(1) inv(1) count show ?thesis by (simp add: rate_invariant_def admitted_for_snoc)
  qed
qed

lemma breaker_event_cases:
  assumes "h_ok h"
  shows "breaker_event_of ls h = [] \<and> h_state h \<noteq> RateChecked
    \<or> h_state h = RateChecked \<and> breaker_event_of ls h = [Check (agent_of ls h) (check_now (h_env h))]
    \<or> breaker_event_of ls h = [Failure (agent_of ls h) (failure_now (h_env h))]
        \<and> h_state h \<noteq> RateChecked \<and> \<not> denied h"
  using assms by (cases "h_state h") (auto simp: breaker_event_of_def split: sum.splits PolicyDecision.splits)

lemma breaker_advance:
  assumes "breaker_invariant ls gw" and "h_ok (handlers gw ! i)"
    and "i < length (handlers gw)" and "handler_step ls (handlers gw ! i) (gw_proxy gw) = (px, h)"
  shows "breaker_invariant ls (advanced ls gw i px h)"
proof -
  let ?h = "handlers gw ! i" and ?es = "breaker_events gw"
  let ?adm = "\<lambda>a h. admitted h \<and> agent_of ls h = a" and ?den = "\<lambda>a h. denied h \<and> agent_of ls h = a"
  note step = handler_step_breaker [OF assms(4)]
  have req: "h_req h = h_req ?h" "h_env h = h_env ?h" using handler_step_request [OF assms(4)] by auto
  have inv: "circuit_breaker (gw_proxy gw) = fst (breaker_log ?es)"
    "\<And>a. length (filter (?adm a) (handlers gw)) = checks_passed a ?es (map is_ok (snd (breaker_log ?es)))"
    "\<And>a. length (filter (?den a) (handlers gw)) = length (filter (failure_of a) ?es)"
    using assms(1) by (auto simp: breaker_invariant_def)
  have adm: "length (filter (?adm a) ((handlers gw)[i := h])) + of_bool (?adm a ?h)
      = checks_passed a ?es (map is_ok (snd (breaker_log ?es))) + of_bool (?adm a h)" for a
    using count_update [OF assms(3), of "?adm a" h] inv(2) by simp
  have den: "length (filter (?den a) ((handlers gw)[i := h])) + of_bool (?den a ?h)
      = length (filter (failure_of a) ?es) + of_bool (?den a h)" for a
    using count_update [OF assms(3), of "?den a" h] inv(3) by simp
  consider "breaker_event_of ls ?h = []" "h_state ?h \<noteq> RateChecked"
    | "h_state ?h = RateChecked" "breaker_event_of ls ?h = [Check (agent_of ls ?h) (check_now (h_env ?h))]"
    | "breaker_event_of ls ?h = [Failure (agent_of ls ?h) (failure_now (h_env ?h))]" "h_state ?h \<noteq> RateChecked" "\<not> denied ?h"
    using breaker_event_cases [OF assms(2)] by blast
  then show ?thesis
  proof cases
    case 1
    with step req inv(1) adm den show ?thesis by (simp add: breaker_invariant_def)
  next
    case 2
    then have "\<not> admitted ?h" using assms(2) by simp
    with 2 step req inv(1) adm den show ?thesis by (auto simp: breaker_invariant_def)
  next
    case 3
    with step req inv(1) adm den show ?thesis by (simp add: breaker_invariant_def)
  qed
qed

lemma handlers_advance:
  assumes "handlers_invariant gw" and "i < length (handlers gw)"
    and "handler_step ls (handlers gw ! i) (gw_proxy gw) = (px, h)"
  shows "handlers_invariant (advanced ls gw i px h)"
proof -
  have ok: "h_ok (handlers gw ! i)" using assms(1,2) by (simp add: handlers_invariant_def)
  have "\<forall>h \<in> set ((handlers gw)[i := h]). h_ok h"
    using assms(1) handler_step_ok [OF assms(3) ok] set_update_subset_insert [of "handlers gw" i h]
    by (auto simp: handlers_invariant_def)
  with handler_step_effects(1) [OF assms(3) ok] count_update [OF assms(2), of forwarded h] assms(1)
  show ?thesis by (simp add: handlers_invariant_def)
qed

lemma log_advance:
  assumes "log_invariant ls secret gw" and "h_ok (handlers gw ! i)" and "i < length (handlers gw)"
    and "handler_step ls (handlers gw ! i) (gw_proxy gw) = (px, h)"
  shows "log_invariant ls secret (advanced ls gw i px h)"
proof -
  let ?h = "handlers gw ! i" and ?l = "audit_logger (gw_proxy gw)"
  have req: "h_req h = h_req ?h" "h_env h = h_env ?h" using handler_step_request [OF assms(4)] by auto
  then have same: "record_of ls secret h = record_of ls secret ?h" by (simp add: record_of_def fun_eq_iff)
  have phase: "phase (audit_logger px) = phase ?l" by (rule handler_step_effects(2) [OF assms(4,2)])
  have fields: "senders (audit_logger px) = senders ?l" "hmac_secret (audit_logger px) = hmac_secret ?l"
      "io_failed (audit_logger px) = io_failed ?l"
    and grows: "set (sent ?l) \<subseteq> set (sent (audit_logger px))"
    using handler_step_log [OF assms(4,2)] by (auto simp: log_entry_def split: if_splits)
  have rec: "\<exists>e \<in> set (sent (audit_logger px)). record_of ls secret h e" if "audited h" "phase ?l \<noteq> Stopped"
    using handler_step_log [OF assms(4,2)] that assms(1,3) same by (fastforce simp: log_invariant_def log_entry_def)
  have "\<exists>e \<in> set (sent (audit_logger px)). record_of ls secret x e"
    if x: "phase ?l \<noteq> Stopped" "x \<in> set ((handlers gw)[i := h])" "audited x" for x
  proof (cases "x = h")
    case True
    with x rec show ?thesis by simp
  next
    case False
    with x(2) have "x \<in> set (handlers gw)" using set_update_subset_insert [of "handlers gw" i h] by blast
    with x assms(1) grows show ?thesis unfolding log_invariant_def by blast
  qed
  with fields phase handler_step_effects(3) [OF assms(4,2)] count_update [OF assms(3), of audited h] assms(1)
  show ?thesis by (auto simp: log_invariant_def)
qed

lemma metrics_advance:
  assumes "metrics_invariant ls gw" and "h_ok (handlers gw ! i)" and "i < length (handlers gw)"
    and "handler_step ls (handlers gw ! i) (gw_proxy gw) = (px, h)"
  shows "metrics_invariant ls (advanced ls gw i px h)"
proof -
  let ?h = "handlers gw ! i" and ?m = "metrics (gw_proxy gw)"
  note step = handler_step_metrics [OF assms(4,2)]
  have req: "h_req h = h_req ?h" using handler_step_request [OF assms(4)] by auto
  have fin: "metrics_finite ?m" using assms(1) by (simp add: metrics_invariant_def)
  have "metrics_finite (metrics px)
    \<and> tenant_requests (metrics px) t + of_bool (audited ?h \<and> tenant_of_handler ls ?h = t)
      = tenant_requests ?m t + of_bool (audited h \<and> tenant_of_handler ls h = t)" for t
    using step(3)
  proof (elim disjE conjE exE)
    assume "http_requests_total (metrics px) = http_requests_total ?m" "audited h = audited ?h"
    with fin req show ?thesis by (simp add: metrics_finite_def tenant_requests_def)
  next
    fix s assume "\<not> audited ?h" "audited h"
      and "http_requests_total (metrics px) = bump (s, tenant_of_handler ls ?h) (http_requests_total ?m)"
    with tenant_requests_bump [OF fin] req show ?thesis by auto
  qed
  note tenants = this
  have "tenant_requests (metrics px) t
      = length (filter (\<lambda>h. audited h \<and> tenant_of_handler ls h = t) ((handlers gw)[i := h]))" for t
    using tenants [of t] assms(1) count_update [OF assms(3), of "\<lambda>h. audited h \<and> tenant_of_handler ls h = t" h]
    by (simp add: metrics_invariant_def)
  with tenants step(1,2) assms(1) count_update [OF assms(3), of denied h] count_update [OF assms(3), of audited h]
  show ?thesis by (simp add: metrics_invariant_def)
qed

section \<open>Every step\<close>

lemma advance_invariant:
  assumes "gateway_invariant ls secret gw" and "i < length (handlers gw)"
    and "handler_step ls (handlers gw ! i) (gw_proxy gw) = (px, h)"
  shows "gateway_invariant ls secret (advanced ls gw i px h)"
proof -
  have inv: "rate_invariant ls gw" "breaker_invariant ls gw" "handlers_invariant gw" "log_invariant ls secret gw"
    "metrics_invariant ls gw" "policy_invariant gw"
    using assms(1) by (auto simp: gateway_invariant_def)
  then have ok: "h_ok (handlers gw ! i)" using assms(2) by (simp add: handlers_invariant_def)
  have "policy_invariant (advanced ls gw i px h)"
    using inv(6) handler_step_registry [OF assms(3)] by (simp add: policy_invariant_def)
  with rate_advance [OF inv(1) ok assms(2,3)] breaker_advance [OF inv(2) ok assms(2,3)]
    handlers_advance [OF inv(3) assms(2,3)] log_advance [OF inv(4) ok assms(2,3)]
    metrics_advance [OF inv(5) ok assms(2,3)]
  show ?thesis by (simp add: gateway_invariant_def)
qed

lemma accept_invariant:
  assumes "gateway_invariant ls secret gw"
  shows "gateway_invariant ls secret (gw\<lparr>handlers := handlers gw @ [new_handler rq ev]\<rparr>)"
  using assms by (auto simp: invariant_defs new_handler_def through_def)

lemma disconnect_invariant:
  assumes "gateway_invariant ls secret gw" and "i < length (handlers gw)" and "at_await (h_state (handlers gw ! i))"
  shows "gateway_invariant ls secret (gw\<lparr>handlers := (handlers gw)[i := (handlers gw ! i)\<lparr>h_state := Dropped\<rparr>]\<rparr>)"
proof -
  let ?h = "handlers gw ! i"
  let ?d = "?h\<lparr>h_state := Dropped\<rparr>"
  let ?hs = "(handlers gw)[i := ?d]"
  have mem: "?h \<in> set (handlers gw)" using assms(2) by simp
  then have ok: "h_ok ?h" using assms(1) by (simp add: invariant_defs)
  have sub: "set ?hs \<subseteq> insert ?d (set (handlers gw))" by (rule set_update_subset_insert)
  have "h_ok ?d" using ok assms(3) by (cases "h_state ?h") auto
  then have "\<forall>h \<in> set ?hs. h_ok h" using assms(1) sub by (auto simp: invariant_defs)
  moreover have counts: "length (filter P ?hs) = length (filter P (handlers gw))"
    if "\<And>h s. P (h\<lparr>h_state := s\<rparr>) = P h" for P
    using count_update [OF assms(2), of P ?d] that by simp
  moreover have "record_of ls secret ?d = record_of ls secret ?h" by (simp add: record_of_def fun_eq_iff)
  with sub mem have "(\<forall>h \<in> set ?hs. audited h \<longrightarrow> (\<exists>e \<in> E. record_of ls secret h e))"
    if "\<forall>h \<in> set (handlers gw). audited h \<longrightarrow> (\<exists>e \<in> E. record_of ls secret h e)" for E
    using that by (fastforce simp: subset_iff)
  ultimately show ?thesis
    using assms(1) by (simp add: invariant_defs through_def)
qed

lemma writer_invariant:
  assumes "gateway_invariant ls secret gw"
  shows "phase (audit_logger (gw_proxy gw)) = Starting \<Longrightarrow> gateway_invariant ls secret (gw\<lparr>gw_proxy := (gw_proxy gw)\<lparr>audit_logger :=
      open_sink (audit_logger (gw_proxy gw)) opened\<rparr>\<rparr>)"
    and "phase (audit_logger (gw_proxy gw)) = Running \<Longrightarrow> gateway_invariant ls secret (gw\<lparr>gw_proxy := (gw_proxy gw)\<lparr>audit_logger :=
      recv_entry sj al (audit_logger (gw_proxy gw)) r\<rparr>\<rparr>)"
  using assms
  by (auto simp: invariant_defs open_sink_def recv_entry_def split: AuditSink.splits list.splits prod.splits)

lemma reload_sandbox: "sandbox (reload_policy wl fs path eng) = sandbox eng"
  by (auto simp: reload_policy_def with_sandbox_config_def load_component_from_file_def
      split: sum.splits option.splits)

lemma reload_invariant:
  assumes "gateway_invariant ls secret gw"
  shows "gateway_invariant ls secret (gw\<lparr>gw_proxy := (gw_proxy gw)\<lparr>policy_registry :=
      handle_registry_event wl fs (policy_registry (gw_proxy gw)) e\<rparr>\<rparr>)"
    and "gateway_invariant ls secret (gw\<lparr>gw_proxy := (gw_proxy gw)\<lparr>policy_registry :=
      (policy_registry (gw_proxy gw))\<lparr>default_engine :=
         reload_policy wl fs path (default_engine (policy_registry (gw_proxy gw)))\<rparr>\<rparr>\<rparr>)"
proof -
  have "default_engine (handle_registry_event wl fs (policy_registry (gw_proxy gw)) e)
      = default_engine (policy_registry (gw_proxy gw))"
    by (auto simp: handle_registry_event_def upsert_tenant_def remove_tenant_def split: RegistryEvent.splits option.splits)
  with assms show "gateway_invariant ls secret (gw\<lparr>gw_proxy := (gw_proxy gw)\<lparr>policy_registry :=
      handle_registry_event wl fs (policy_registry (gw_proxy gw)) e\<rparr>\<rparr>)"
    by (simp add: invariant_defs loaded_handle)
  from assms show "gateway_invariant ls secret (gw\<lparr>gw_proxy := (gw_proxy gw)\<lparr>policy_registry :=
      (policy_registry (gw_proxy gw))\<lparr>default_engine :=
         reload_policy wl fs path (default_engine (policy_registry (gw_proxy gw)))\<rparr>\<rparr>\<rparr>)"
    by (simp add: invariant_defs reload_sandbox)
qed

lemma gateway_step_invariant:
  assumes "gateway_step ls gw gw'" and "gateway_invariant ls secret gw"
  shows "gateway_invariant ls secret gw'"
  using assms(1)
proof cases
  case accept_error
  with assms(2) show ?thesis by (simp add: invariant_defs)
qed (use assms(2) in \<open>auto intro: accept_invariant advance_invariant disconnect_invariant writer_invariant reload_invariant\<close>)

lemma startup_invariant:
  assumes "startup ls parse_addr vars bind fs is_dir listing = Listening addr gw"
  shows "\<exists>secret. gateway_invariant ls secret gw \<and> audit_logger (gw_proxy gw) = audit_logger_new Stdout secret \<and> running gw"
proof -
  obtain eng dir secret config px where
    eng: "policy_engine_new (lib_wl ls) = Inr eng"
    and px: "proxy_new ls config (registry_new (lib_wl ls) fs (is_dir dir) (listing dir) dir eng)
        (audit_logger_new Stdout secret) metrics_initial = Inr px"
    and gw: "gw = gateway_new px"
    using assms by (auto simp: startup_def Let_def policy_watcher_new_def split: sum.splits option.splits)
  have fields: "client px = []" "rate_limiter px = rate_limiter_new" "circuit_breaker px = circuit_breaker_new"
    "audit_logger px = audit_logger_new Stdout secret" "metrics px = metrics_initial"
    "policy_registry px = registry_new (lib_wl ls) fs (is_dir dir) (listing dir) dir eng"
    using px by (auto simp: proxy_new_def split: sum.splits if_splits)
  have "sandbox eng = default_sandbox"
    using eng by (auto simp: policy_engine_new_def with_sandbox_usable)
  then have "gateway_invariant ls secret gw"
    by (simp add: gw invariant_defs gateway_new_def fields admitted_for_def audit_logger_new_def metrics_initial_def
        metrics_finite_def tenant_requests_def total_count_def loaded_new) (simp add: registry_new_def)
  then show ?thesis using fields gw by (auto simp: gateway_new_def)
qed

lemma gateway_reachable_invariant:
  assumes "gateway_reachable ls gw0 gw" and "gateway_invariant ls secret gw0"
  shows "gateway_invariant ls secret gw"
  using assms by induction (auto intro: gateway_step_invariant)

text \<open>The logger of a running gateway is a run of the writer's own step relation.\<close>

lemma gateway_audit_step:
  assumes "gateway_step ls gw gw'" and "gateway_invariant ls secret gw"
  shows "audit_logger (gw_proxy gw') = audit_logger (gw_proxy gw)
    \<or> audit_step (lib_sj ls) (lib_al ls) (audit_logger (gw_proxy gw)) (audit_logger (gw_proxy gw'))"
  using assms(1)
proof cases
  case (advance i px h)
  then have "h_ok (handlers gw ! i)" and "senders (audit_logger (gw_proxy gw))"
    using assms(2) by (auto simp: invariant_defs)
  with handler_step_log advance show ?thesis by (fastforce intro: audit_step.log)
qed (auto intro: audit_step.intros)

lemma gateway_audit_reachable:
  assumes "gateway_reachable ls gw0 gw" and "gateway_invariant ls secret gw0"
  shows "audit_reachable (lib_sj ls) (lib_al ls) (audit_logger (gw_proxy gw0)) (audit_logger (gw_proxy gw))"
  using assms(1)
proof induction
  case initial
  show ?case by (rule audit_reachable.initial)
next
  case (step gw gw')
  from gateway_audit_step [OF step.hyps(2) gateway_reachable_invariant [OF step.hyps(1) assms(2)]] step.IH
  show ?case by (auto intro: audit_reachable.step)
qed

end
