(* ===== verification/Gateway_Runs.thy ===== *)
theory Gateway_Runs
  imports Gateway_Invariants
begin

text \<open>
  Runs of the concurrent gateway: one handler that runs among the others, a request that is
  accepted and served, what an open circuit keeps out of every continuation; and the concrete
  runs of the witnesses, a request that is forwarded and an agent that is denied five times.
\<close>

section \<open>Runs of one handler among the others\<close>

abbreviation own_events :: "handler \<Rightarrow> breaker_event list \<Rightarrow> bool" where
  "own_events h es \<equiv> breaker_time ` set es \<subseteq> {check_now (h_env h), failure_now (h_env h)}"

lemma run_handler:
  assumes "running gw" and "i < length (handlers gw)"
  shows "\<exists>gw'. gateway_reachable ls gw gw'
    \<and> gw_proxy gw' = fst (handler_run ls n (handlers gw ! i) (gw_proxy gw))
    \<and> handlers gw' = (handlers gw)[i := snd (handler_run ls n (handlers gw ! i) (gw_proxy gw))]
    \<and> rate_events gw' = rate_events gw @ (if n = 0 then [] else rate_event_of ls (handlers gw ! i))
    \<and> (\<exists>new. breaker_events gw' = breaker_events gw @ new
        \<and> own_events (handlers gw ! i) new)
    \<and> running gw'"
  using assms
proof (induction n arbitrary: gw)
  case 0
  then show ?case by (auto intro!: exI [of _ gw] gateway_reachable.initial)
next
  case (Suc n)
  let ?h = "handlers gw ! i"
  obtain px h where st: "handler_step ls ?h (gw_proxy gw) = (px, h)" by fastforce
  let ?gw = "advanced ls gw i px h"
  have reach: "gateway_reachable ls gw ?gw"
    using gateway_step.advance [OF Suc.prems st] by (rule gateway_reachable.step [OF gateway_reachable.initial])
  have arrived: "rate_event_of ls h = []"
  proof (cases "h_state ?h = Arrived")
    case True
    then show ?thesis using handler_step_rank(1) [OF st] by (cases "h_state h") (auto simp: rate_event_of_def)
  next
    case False
    then show ?thesis using handler_step_departed [OF st] by (simp add: rate_event_of_def)
  qed
  have own: "own_events ?h (breaker_event_of ls ?h)"
    by (auto simp: breaker_event_of_def split: hstate.splits sum.splits PolicyDecision.splits)
  have env: "h_env h = h_env ?h" using handler_step_request [OF st] by simp
  have "running ?gw" "i < length (handlers ?gw)" using Suc.prems by auto
  from Suc.IH [OF this] obtain gw' new where gw': "gateway_reachable ls ?gw gw'"
    "gw_proxy gw' = fst (handler_run ls n h px)" "handlers gw' = (handlers gw)[i := snd (handler_run ls n h px)]"
    "rate_events gw' = rate_events gw @ rate_event_of ls ?h" "running gw'"
    "breaker_events gw' = breaker_events gw @ breaker_event_of ls ?h @ new" "own_events h new"
    using Suc.prems(2) arrived by auto
  have "own_events ?h (breaker_event_of ls ?h @ new)" using own gw'(7) env by (simp add: image_Un)
  moreover have "gateway_reachable ls gw gw'" by (rule gateway_reachable_trans [OF gw'(1) reach])
  ultimately show ?case using st gw'(2-6) by (intro exI [of _ gw']) (auto simp: handler_run.simps(2))
qed

lemma handler_run_request:
  "h_req (snd (handler_run ls n h px)) = h_req h \<and> h_env (snd (handler_run ls n h px)) = h_env h"
proof (induction n arbitrary: h px)
  case (Suc n)
  obtain px' h' where st: "handler_step ls h px = (px', h')" by fastforce
  with Suc.IH handler_step_request [OF st] show ?case by (simp add: handler_run.simps(2))
qed simp

text \<open>A request that is accepted and handled before anything else happens.\<close>

lemma serve:
  assumes "running gw"
  obtains gw' h new where "gateway_reachable ls gw gw'" "running gw'" "handlers gw' = handlers gw @ [h]"
    "gw_proxy gw' = fst (handle_request ls ev rq (gw_proxy gw))" "h_req h = rq"
    "h_state h = Done (snd (handle_request ls ev rq (gw_proxy gw)))"
    "breaker_events gw' = breaker_events gw @ new" "breaker_time ` set new \<subseteq> {check_now ev, failure_now ev}"
proof -
  let ?gw = "gw\<lparr>handlers := handlers gw @ [new_handler rq ev]\<rparr>"
  let ?r = "handler_run ls 8 (new_handler rq ev) (gw_proxy gw)"
  have a: "gateway_reachable ls gw ?gw"
    by (rule gateway_reachable.step [OF gateway_reachable.initial gateway_step.accept [OF assms]])
  obtain gw' new where gw': "gateway_reachable ls ?gw gw'" "gw_proxy gw' = fst ?r" "handlers gw' = handlers gw @ [snd ?r]"
    "running gw'" "breaker_events gw' = breaker_events gw @ new" "own_events (new_handler rq ev) new"
    using run_handler [of ?gw "length (handlers gw)" ls 8] assms by auto
  have "ends_as ?r (handle_request ls ev rq (gw_proxy gw))"
    using ends_arrived [of ls 0 rq ev "gw_proxy gw"] by (simp add: eval_nat_numeral)
  with gw'(2,6) handler_run_request [of ls 8 "new_handler rq ev" "gw_proxy gw"]
  show ?thesis
    by (intro that [OF gateway_reachable_trans [OF gw'(1) a] gw'(4,3) _ _ _ gw'(5)]) (auto simp: ends_as_def new_handler_def)
qed

text \<open>A dropped handler stays dropped.\<close>

lemma dropped_stays:
  assumes "gateway_reachable ls gw gw'" and "i < length (handlers gw)" and "h_state (handlers gw ! i) = Dropped"
  shows "i < length (handlers gw') \<and> handlers gw' ! i = handlers gw ! i"
  using assms(1)
proof induction
  case (step gw1 gw2)
  from step.hyps(2) show ?case
  proof cases
    case (advance j px h)
    then show ?thesis using step.IH assms(3) by (cases "j = i") (auto simp: handler_step_def)
  next
    case (disconnect j)
    then show ?thesis using step.IH assms(3) by (cases "j = i") auto
  qed (use step.IH in \<open>auto simp: nth_append\<close>)
qed (use assms in auto)

section \<open>A concrete run\<close>

text \<open>A gateway that was started with an empty policy directory, and a \<open>GET\<close> request that it forwards.\<close>

definition demo_start :: "timed_policy gateway" where
  "demo_start = gateway_new (demo_proxy\<lparr>policy_registry :=
     \<lparr>tenant_dir = ''./policies/tenants'', engines = Map.empty,
      default_engine = \<lparr>component = None, sandbox = default_sandbox\<rparr>\<rparr>\<rparr>)"

lemma demo_startup:
  "startup demo_libs (\<lambda>s. None) [''SAFEGATE_AUDIT_HMAC_SECRET'' \<mapsto> ''k''] (\<lambda>a. None) (\<lambda>path. None) (\<lambda>d. True) (\<lambda>d. Some [])
     = Listening (SocketAddrV4 [0, 0, 0, 0] 8080) demo_start"
  by (simp add: startup_def Let_def policy_engine_new_def with_sandbox_config_def timed_runtime_def demo_libs_def
      demo_base_def proxy_new_def registry_new_def load_all_from_dir_def demo_start_def demo_proxy_def from_env_def
      default_config_def policy_watcher_new_def)

abbreviation demo_px :: "timed_policy Proxy" where
  "demo_px \<equiv> gw_proxy demo_start"

lemma demo_px_fields [simp]:
  "client demo_px = []" "target_base demo_px = demo_base" "redactor demo_px = pii_redactor_new"
  "rate_limiter demo_px = rate_limiter_new" "circuit_breaker demo_px = circuit_breaker_new"
  "audit_logger demo_px = audit_logger_new Stdout ''k''" "handlers demo_start = []" "rate_events demo_start = []"
  "running demo_start"
  by (simp_all add: demo_start_def gateway_new_def demo_proxy_def)

definition demo_get :: handler where
  "demo_get = new_handler (demo_request ''GET'' ''x'') demo_env"

definition demo_sent :: handler where
  "demo_sent = demo_get\<lparr>h_state := Sent ''<non-tool>'' JNull AuditAllow (Inl ''down''), passed := True, admitted := True,
     forwarded := True\<rparr>"

abbreviation demo_limited :: "timed_policy Proxy" where
  "demo_limited \<equiv> demo_px\<lparr>rate_limiter := \<lparr>requests = [''bot'' \<mapsto> [2]]\<rparr>\<rparr>"

lemma demo_get_fields [simp]:
  "h_req demo_get = demo_request ''GET'' ''x''" "h_env demo_get = demo_env" "h_state demo_get = Arrived"
  by (simp_all add: demo_get_def new_handler_def)

lemma demo_not_managed:
  "lib_uri_path demo_libs (in_uri (demo_request verb body)) \<noteq> ''/metrics''"
  "lib_uri_path demo_libs (in_uri (demo_request verb body)) \<noteq> ''/healthz''"
  using demo_simps(1) [of verb body] by (auto simp: special_path_def)

lemma demo_rate:
  "check_rate_limit (rate_limiter demo_px) ''bot'' AGENT_RATE_LIMIT AGENT_RATE_LIMIT_WINDOW (rate_now demo_env)
     = (\<lparr>requests = [''bot'' \<mapsto> [2]]\<rparr>, Inr ())"
  by (simp add: demo_env_def check_rate_limit_def rate_limiter_new_def timestamps_of_def
      AGENT_RATE_LIMIT_def Let_def)

lemma demo_check: "check (circuit_breaker demo_px) ''bot'' (check_now demo_env) = (circuit_breaker demo_px, Inr ())"
  by (simp add: check_def circuit_breaker_new_def with_params_def Let_def)

lemma demo_step1:
  "handler_step demo_libs demo_get demo_px = (demo_limited, demo_get\<lparr>h_state := RateChecked, passed := True\<rparr>)"
  using demo_rate by (simp add: handler_step_def step_arrived_def demo_not_managed bot_context_def)

lemma demo_step2:
  "handler_step demo_libs (demo_get\<lparr>h_state := RateChecked, passed := True\<rparr>) demo_limited
     = (demo_limited, demo_get\<lparr>h_state := Admitted, passed := True, admitted := True\<rparr>)"
  using demo_check by (simp add: handler_step_def step_breaker_def bot_context_def)

lemma demo_step3:
  "handler_step demo_libs (demo_get\<lparr>h_state := Admitted, passed := True, admitted := True\<rparr>) demo_limited
     = (demo_limited, demo_get\<lparr>h_state := Ready ''<non-tool>'' JNull ''x'' None False, passed := True, admitted := True\<rparr>)"
  by (simp add: handler_step_def step_read_def read_request_def redact_stage_def tool_name_of_def)

lemma demo_step4:
  "handler_step demo_libs (demo_get\<lparr>h_state := Ready ''<non-tool>'' JNull ''x'' None False, passed := True, admitted := True\<rparr>) demo_limited
     = (demo_limited, demo_get\<lparr>h_state := Decided ''<non-tool>'' JNull ''x'' AuditAllow, passed := True, admitted := True\<rparr>)"
  by (simp add: handler_step_def step_evaluate_def count_redaction_def initial_decision_def)

lemma demo_step5:
  "handler_step demo_libs (demo_get\<lparr>h_state := Decided ''<non-tool>'' JNull ''x'' AuditAllow, passed := True, admitted := True\<rparr>) demo_limited
     = (demo_limited\<lparr>client := [upstream_request (demo_request ''GET'' ''x'')
          (demo_base\<lparr>uri_path_and_query := Some ''/mcp''\<rparr>) ''x'']\<rparr>, demo_sent)"
proof -
  have "upstream_uri demo_libs demo_base (in_uri (demo_request ''GET'' ''x'')) = Inr (demo_base\<lparr>uri_path_and_query := Some ''/mcp''\<rparr>)"
    by (simp add: upstream_uri_def demo_libs_def demo_request_def)
  then show ?thesis by (simp add: handler_step_def step_send_def demo_sent_def demo_env_def Let_def)
qed

lemma demo_run_sent:
  "handler_run demo_libs 5 demo_get demo_px
     = (demo_limited\<lparr>client := [upstream_request (demo_request ''GET'' ''x'')
          (demo_base\<lparr>uri_path_and_query := Some ''/mcp''\<rparr>) ''x'']\<rparr>, demo_sent)"
proof -
  have five: "(5::nat) = Suc (Suc (Suc (Suc (Suc 0))))" by simp
  show ?thesis unfolding five handler_run.simps demo_step1 demo_step2 demo_step3 demo_step4 demo_step5 prod.case ..
qed

text \<open>The gateway after the request was accepted, and after its handler has run \<open>n\<close> steps.\<close>

lemma demo_reachable:
  "\<exists>gw. gateway_reachable demo_libs demo_start gw
     \<and> gw_proxy gw = fst (handler_run demo_libs (Suc n) demo_get demo_px)
     \<and> handlers gw = [snd (handler_run demo_libs (Suc n) demo_get demo_px)]
     \<and> rate_events gw = [(''bot'', 2)] \<and> running gw"
proof -
  let ?gw = "demo_start\<lparr>handlers := [demo_get]\<rparr>"
  have "gateway_step demo_libs demo_start ?gw"
    using gateway_step.accept [of demo_start demo_libs "demo_request ''GET'' ''x''" demo_env] by (simp add: demo_get_def)
  then have reach: "gateway_reachable demo_libs demo_start ?gw"
    by (rule gateway_reachable.step [OF gateway_reachable.initial])
  have "rate_event_of demo_libs demo_get = [(''bot'', 2)]"
    by (simp add: rate_event_of_def) (simp add: bot_context_def demo_env_def)
  with run_handler [of ?gw 0 demo_libs "Suc n"] gateway_reachable_trans [OF _ reach] show ?thesis by fastforce
qed

lemma demo_sent_fields [simp]:
  "h_state demo_sent = Sent ''<non-tool>'' JNull AuditAllow (Inl ''down'')" "passed demo_sent" "admitted demo_sent"
  "\<not> denied demo_sent" "forwarded demo_sent" "\<not> audited demo_sent"
  "h_req demo_sent = demo_request ''GET'' ''x''" "h_env demo_sent = demo_env"
  by (simp_all add: demo_sent_def demo_get_def new_handler_def)

lemma demo_reachable_sent:
  obtains gw where "gateway_reachable demo_libs demo_start gw" "handlers gw = [demo_sent]" "rate_events gw = [(''bot'', 2)]"
    "length (client (gw_proxy gw)) = 1" "running gw"
  using demo_reachable [of 4] demo_run_sent by (auto simp: eval_nat_numeral)

lemma demo_reachable_done:
  obtains gw h r where "gateway_reachable demo_libs demo_start gw" "handlers gw = [h]" "h_state h = Done r"
    "forwarded h" "h_req h = demo_request ''GET'' ''x''" "h_env h = demo_env" "\<not> io_failed (audit_logger (gw_proxy gw))"
proof -
  obtain gw0 where gw0: "gateway_reachable demo_libs demo_start gw0" "handlers gw0 = [demo_sent]" "running gw0"
    "gw_proxy gw0 = fst (handler_run demo_libs 5 demo_get demo_px)"
    using demo_reachable [of 4] demo_run_sent by (auto simp: eval_nat_numeral)
  obtain px h where st: "handler_step demo_libs demo_sent (gw_proxy gw0) = (px, h)" by fastforce
  have "gateway_reachable demo_libs demo_start (advanced demo_libs gw0 0 px h)"
    using gateway_step.advance [of gw0 0 demo_libs px h] gw0 st by (auto intro: gateway_reachable.step)
  moreover have "h_state h = Done (Responded (snd (forward_complete demo_libs demo_env bot_context ''<non-tool>'' JNull
      AuditAllow (Inl ''down'') (gw_proxy gw0))))" "forwarded h"
    using st by (auto simp: handler_step_def step_complete_def done_with_def map_prod_def case_prod_unfold)
  moreover have "h_req h = demo_request ''GET'' ''x''" "h_env h = demo_env"
    using handler_step_request [OF st] by simp_all
  moreover have "\<not> io_failed (audit_logger px)"
    using handler_step_log [OF st] gw0(4) demo_run_sent by (auto simp: log_entry_def audit_logger_new_def)
  ultimately show ?thesis using gw0(2) by (intro that) auto
qed

section \<open>Quarantine in the system\<close>

lemma breaker_cooldown:
  "gateway_invariant ls secret gw \<Longrightarrow> cooldown (circuit_breaker (gw_proxy gw)) = from_secs 30"
  by (simp add: invariant_defs circuit_breaker_new_def COOLDOWN_PERIOD_def)

lemma quarantine_advance:
  assumes "handler_step ls h px = (px', h')"
    and "circuit_of (circuit_breaker px) a = Open t"
    and "\<And>e. e \<in> set (breaker_event_of ls h) \<Longrightarrow> duration_since (breaker_time e) t < cooldown (circuit_breaker px)"
  shows "circuit_of (circuit_breaker px') a = Open t" and "admitted h' \<Longrightarrow> agent_of ls h' = a \<Longrightarrow> admitted h"
proof -
  show "circuit_of (circuit_breaker px') a = Open t"
    using handler_step_breaker(1) [OF assms(1)] assms(2,3) by (simp add: open_stays_open_run)
  assume adm: "admitted h'" and a: "agent_of ls h' = a"
  have "agent_of ls h = a" using handler_step_request [OF assms(1)] a by simp
  moreover have "breaker_event_of ls h = [Check (agent_of ls h) (check_now (h_env h))]" if "h_state h = RateChecked"
    using that by (simp add: breaker_event_of_def)
  ultimately show "admitted h"
    using adm handler_step_breaker(2) [OF assms(1)] assms(2,3) by (auto simp: check_ok_iff)
qed

text \<open>What a continuation adds to the history of the breaker, and whom it admits meanwhile.\<close>

definition quarantined_since :: "'c libs \<Rightarrow> string \<Rightarrow> instant \<Rightarrow> 'c gateway \<Rightarrow> 'c gateway \<Rightarrow> bool" where
  "quarantined_since ls a t gw gw' \<longleftrightarrow>
     (\<exists>new. breaker_events gw' = breaker_events gw @ new
       \<and> ((\<forall>e \<in> set new. duration_since (breaker_time e) t < from_secs 30) \<longrightarrow>
            circuit_of (circuit_breaker (gw_proxy gw')) a = Open t
            \<and> (\<forall>j < length (handlers gw'). admitted (handlers gw' ! j) \<and> agent_of ls (handlers gw' ! j) = a \<longrightarrow>
                 j < length (handlers gw) \<and> admitted (handlers gw ! j))))"

lemma quarantine_step:
  assumes "quarantined_since ls a t gw gw1" and "gateway_step ls gw1 gw2" and "gateway_invariant ls secret gw1"
  shows "quarantined_since ls a t gw gw2"
proof -
  obtain new where new: "breaker_events gw1 = breaker_events gw @ new"
    and q: "\<forall>e \<in> set new. duration_since (breaker_time e) t < from_secs 30 \<Longrightarrow>
        circuit_of (circuit_breaker (gw_proxy gw1)) a = Open t
        \<and> (\<forall>j < length (handlers gw1). admitted (handlers gw1 ! j) \<and> agent_of ls (handlers gw1 ! j) = a \<longrightarrow>
             j < length (handlers gw) \<and> admitted (handlers gw ! j))"
    using assms(1) by (auto simp: quarantined_since_def)
  from assms(2) show ?thesis
  proof cases
    case (advance i px h)
    let ?h = "handlers gw1 ! i"
    have "circuit_of (circuit_breaker px) a = Open t
        \<and> (\<forall>j < length (handlers gw1). admitted ((handlers gw1)[i := h] ! j) \<and> agent_of ls ((handlers gw1)[i := h] ! j) = a \<longrightarrow>
             j < length (handlers gw) \<and> admitted (handlers gw ! j))"
      if within: "\<forall>e \<in> set (new @ breaker_event_of ls ?h). duration_since (breaker_time e) t < from_secs 30"
    proof -
      have o: "circuit_of (circuit_breaker (gw_proxy gw1)) a = Open t"
        and adm: "\<And>j. j < length (handlers gw1) \<Longrightarrow> admitted (handlers gw1 ! j) \<Longrightarrow> agent_of ls (handlers gw1 ! j) = a \<Longrightarrow>
             j < length (handlers gw) \<and> admitted (handlers gw ! j)"
        using q within by auto
      have ev: "\<And>e. e \<in> set (breaker_event_of ls ?h) \<Longrightarrow>
          duration_since (breaker_time e) t < cooldown (circuit_breaker (gw_proxy gw1))"
        using within breaker_cooldown [OF assms(3)] by simp
      note st = quarantine_advance [OF advance(4) o ev]
      have "agent_of ls h = agent_of ls ?h" using handler_step_request [OF advance(4)] by simp
      with st adm advance(3) show ?thesis by (auto simp: nth_list_update)
    qed
    with new advance(1) show ?thesis
      by (auto simp: quarantined_since_def intro!: exI [of _ "new @ breaker_event_of ls ?h"])
  next
    case (accept rq ev)
    with new q show ?thesis
      by (auto simp: quarantined_since_def nth_append new_handler_def intro!: exI [of _ new])
  next
    case (disconnect i)
    with new q show ?thesis
      by (auto simp: quarantined_since_def nth_list_update intro!: exI [of _ new])
  qed (use new q in \<open>auto simp: quarantined_since_def intro!: exI [of _ new]\<close>)
qed

lemma quarantine_run:
  assumes "gateway_reachable ls gw gw'" and "gateway_invariant ls secret gw"
    and "circuit_of (circuit_breaker (gw_proxy gw)) a = Open t"
  shows "quarantined_since ls a t gw gw'"
  using assms(1)
proof induction
  case initial
  show ?case using assms(3) by (simp add: quarantined_since_def)
next
  case (step gw1 gw2)
  from quarantine_step [OF step.IH step.hyps(2) gateway_reachable_invariant [OF step.hyps(1) assms(2)]]
  show ?case .
qed

lemma breaker_parameters:
  "threshold circuit_breaker_new = 5" "window circuit_breaker_new = from_secs 10" "cooldown circuit_breaker_new = from_secs 30"
  "circuit_of circuit_breaker_new a = Closed []"
  by (simp_all add: circuit_breaker_new_def FAILURE_THRESHOLD_def FAILURE_WINDOW_def COOLDOWN_PERIOD_def)

section \<open>An offender\<close>

text \<open>
  An agent that calls a forbidden tool again and again: the default policy was hot-loaded, and
  \<open>k\<close> calls were denied. The fifth denial opens the circuit.
\<close>

abbreviation sample_engine :: "timed_policy WasmPolicyEngine" where
  "sample_engine \<equiv> \<lparr>component = Some (Some 1000, sample_policy_evaluate), sandbox = default_sandbox\<rparr>"

definition offended :: "nat \<Rightarrow> timed_policy Proxy \<Rightarrow> bool" where
  "offended k px \<longleftrightarrow>
     registry_get (policy_registry px) ''default_tenant'' = sample_engine \<and> redactor px = pii_redactor_new
     \<and> timestamps_of (rate_limiter px) ''bot'' = replicate k 2
     \<and> circuit_of (circuit_breaker px) ''bot'' = (if k < 5 then Closed (replicate k 5) else Open 5)
     \<and> threshold (circuit_breaker px) = 5 \<and> window (circuit_breaker px) = from_secs 10
     \<and> cooldown (circuit_breaker px) = from_secs 30"

text \<open>The host state that grants nothing but clocks and random numbers and limits the memory of the guest to 16 MiB.\<close>

definition sandboxed :: WasiState where
  "sandboxed =
     \<lparr>wasi_ctx = \<lparr>wasi_env = [], wasi_args = [], preopened_dirs = [], inherited_streams = [],
        reachable_sockets = [], host_services = [''clocks'', ''random'']\<rparr>,
      resource_table = [], store_limits = \<lparr>memory_size = Some 16777216, trap_on_grow_failure = True\<rparr>\<rparr>"

text \<open>A runtime that obeys a policy only in the sandbox.\<close>

definition lax_runtime :: "timed_policy wasm_lib" where
  "lax_runtime = timed_runtime\<lparr>call_evaluate := \<lambda>c state.
     if state = sandboxed then call_evaluate timed_runtime c state else (\<lambda>x r d. (0, Inr Allow))\<rparr>"

lemma bot_fields: "agent_id bot_context = ''bot''" "tenant_id bot_context = ''default_tenant''" "authenticated bot_context"
  by (simp_all add: bot_context_def)

lemma offended_verdict:
  assumes "offended k px"
  shows "policy_verdict demo_libs demo_env bot_context drop_call px = Inr (Deny ''Unsafe action blocked by WASM policy'')"
  using assms
  by (simp add: offended_def policy_verdict_def evaluate_call_def bot_fields evaluate_policy_def demo_libs_def demo_env_def
      timed_runtime_def timed_call_def default_sandbox_def epoch_budget_def EXECUTION_TIMEOUT_def from_millis_def
      sample_policy_evaluate_def evaluate_request_def drop_call_def Let_def)

lemma offended_rate:
  assumes "offended k px" and "k < 60"
  obtains rl where "check_rate_limit (rate_limiter px) ''bot'' AGENT_RATE_LIMIT AGENT_RATE_LIMIT_WINDOW (rate_now demo_env)
    = (rl, Inr ())" and "timestamps_of rl ''bot'' = replicate (Suc k) 2"
  using assms
  by (simp add: offended_def check_rate_limit_def demo_env_def AGENT_RATE_LIMIT_def AGENT_RATE_LIMIT_WINDOW_def
      from_secs_def Let_def timestamps_of_def filter_replicate replicate_append_same)

lemma offended_step:
  assumes "offended k px" and "k < 5"
  shows "offended (Suc k) (fst (handle_request demo_libs demo_env (demo_request ''POST'' drop_body) px))"
proof -
  obtain rl where rl: "check_rate_limit (rate_limiter px) ''bot'' AGENT_RATE_LIMIT AGENT_RATE_LIMIT_WINDOW (rate_now demo_env)
      = (rl, Inr ())" "timestamps_of rl ''bot'' = replicate (Suc k) 2"
    using offended_rate [OF assms(1)] assms(2) by auto
  let ?cb = "fst (check (circuit_breaker px) ''bot'' (check_now demo_env))"
  let ?px1 = "px\<lparr>rate_limiter := rl, circuit_breaker := ?cb\<rparr>"
  have closed: "circuit_of (circuit_breaker px) ''bot'' = Closed (replicate k 5)" using assms by (simp add: offended_def)
  then have "is_ok (snd (check (circuit_breaker px) ''bot'' (check_now demo_env)))" by (simp add: check_ok_iff)
  with rl(1) have "admit demo_libs demo_env bot_context px = (?px1, Inr ())"
    by (cases "check (circuit_breaker px) ''bot'' (check_now demo_env)")
      (auto simp: admit_def bot_fields Let_def split: sum.splits)
  then have c: "cleared demo_libs demo_env (demo_request ''POST'' drop_body) px ?px1 drop_body (JNumber (PosInt 1))
      (Some drop_call) drop_body (Some drop_call) False"
    using assms(1) by (simp add: cleared_def offended_def drop_read redact_stage_def drop_call_def)
  obtain px2 r where st: "policy_stage demo_libs demo_env bot_context drop_body (Some drop_call) False ?px1 = (px2, r)"
    by fastforce
  then have r: "r = Denied ''Unsafe action blocked by WASM policy''"
    using policy_stage_denied_iff [of demo_libs demo_env bot_context drop_body "Some drop_call" False ?px1]
      offended_verdict [OF assms(1)] cleared_frame(7) [OF c]
    by auto
  note ps = st [unfolded r]
  have "circuit_breaker px2 = record_failure ?cb ''bot'' 5"
    using policy_stage_denied_effect(1) [OF ps] by (simp add: bot_fields) (simp add: demo_env_def)
  moreover have "circuit_of (record_failure ?cb ''bot'' 5) ''bot'' = (if Suc k < 5 then Closed (replicate (Suc k) 5) else Open 5)"
    using assms closed
    by (auto simp: circuit_of_record_failure circuit_of_check offended_def spec_count_def filter_replicate replicate_append_same
        Let_def)
  ultimately show ?thesis
    using assms(1) handle_request_cleared [OF c] ps policy_stage_frame [OF ps] rl(2)
    by (simp add: offended_def deny_stage_simps) (simp add: deny_stage_def emit_audit_def Let_def)
qed

lemma offender_reachable:
  assumes "k \<le> 5"
  shows "\<exists>gw. gateway_reachable demo_libs demo_start gw \<and> offended k (gw_proxy gw) \<and> running gw"
  using assms
proof (induction k)
  case 0
  let ?gw = "demo_start\<lparr>gw_proxy := demo_px\<lparr>policy_registry := (policy_registry demo_px)\<lparr>default_engine :=
     reload_policy (lib_wl demo_libs) [''./policies/default.wasm'' \<mapsto> ''sample''] ''./policies/default.wasm''
       (default_engine (policy_registry demo_px))\<rparr>\<rparr>\<rparr>"
  have "gateway_reachable demo_libs demo_start ?gw"
    by (rule gateway_reachable.step [OF gateway_reachable.initial gateway_step.default_reload]) simp
  moreover have "offended 0 (gw_proxy ?gw)"
    by (simp add: offended_def breaker_parameters)
      (simp add: demo_start_def gateway_new_def demo_proxy_def registry_get_def reload_policy_def with_sandbox_config_def
        demo_libs_def timed_runtime_def load_component_from_file_def component_from_file_def timed_compile_def)
  ultimately show ?case by (intro exI [of _ ?gw]) simp
next
  case (Suc k)
  then obtain gw where gw: "gateway_reachable demo_libs demo_start gw" "offended k (gw_proxy gw)" "running gw" by auto
  obtain gw' where gw': "gateway_reachable demo_libs gw gw'" "running gw'"
    "gw_proxy gw' = fst (handle_request demo_libs demo_env (demo_request ''POST'' drop_body) (gw_proxy gw))"
    by (rule serve [OF gw(3)])
  have "offended (Suc k) (gw_proxy gw')" unfolding gw'(3) using offended_step [OF gw(2)] Suc.prems by simp
  with gateway_reachable_trans [OF gw'(1) gw(1)] gw'(2) show ?case by blast
qed

end
