(* ===== verification/Gateway_Properties.thy ===== *)
theory Gateway_Properties
  imports Gateway_Runs
begin

text \<open>
  What the started gateway guarantees in every interleaving: the quota, the quarantine of
  offenders, the audit trail and its agreement with the metrics, the limits under which
  policies run, that every handler can finish, and how a record goes missing.
\<close>

section \<open>Properties\<close>

lemma started_invariant:
  assumes "startup ls parse_addr vars bind fs is_dir listing = Listening addr gw0" and "gateway_reachable ls gw0 gw"
  obtains secret where "gateway_invariant ls secret gw"
    and "audit_reachable (lib_sj ls) (lib_al ls) (audit_logger_new Stdout secret) (audit_logger (gw_proxy gw))"
proof -
  obtain secret where s: "gateway_invariant ls secret gw0" "audit_logger (gw_proxy gw0) = audit_logger_new Stdout secret"
    using startup_invariant [OF assms(1)] by blast
  from gateway_reachable_invariant [OF assms(2) s(1)] gateway_audit_reachable [OF assms(2) s(1)] s(2)
  show ?thesis by (intro that) auto
qed

lemma started_handler:
  assumes "gateway_invariant ls secret gw" and "h \<in> set (handlers gw)"
  shows "h_ok h"
  using assms by (simp add: invariant_defs)

lemma started_log:
  assumes "gateway_invariant ls secret gw"
    and "audit_reachable (lib_sj ls) (lib_al ls) (audit_logger_new Stdout secret) (audit_logger (gw_proxy gw))"
    and "\<not> io_failed (audit_logger (gw_proxy gw))"
  defines "l \<equiv> audit_logger (gw_proxy gw)"
  shows "taken l @ queue l = sent l" and "length (sent l) = length (filter audited (handlers gw))"
    and "bw_out (writer l) = log_text (lib_sj ls) (lib_al ls) (taken l)"
    and "h \<in> set (handlers gw) \<Longrightarrow> audited h \<Longrightarrow> \<exists>e \<in> set (sent l). record_of ls secret h e"
  using audit_inv_reachable [OF assms(2) audit_inv_new] assms(1,3)
  by (auto simp: audit_inv_def gateway_invariant_def log_invariant_def l_def)

text \<open>
  C2. The quota of the whole gateway: however the handlers of any number of connections, hot
  reloads, client disconnects and the audit writer are interleaved after start-up, of the
  requests of an agent that were forwarded to the upstream server at most 60 passed the rate
  limiter within any interval of 60 seconds, by the limiter's clock readings, as long as it
  is called in the order of those readings. The limit is on the instants of admission: requests
  whose bodies arrive late may be sent closer together.
\<close>

theorem gateway_rate_bound:
  assumes "startup ls parse_addr vars bind fs is_dir listing = Listening addr gw0"
    and "gateway_reachable ls gw0 gw"
    and "sorted (map snd (rate_events gw))"
  shows "length (filter (\<lambda>h. forwarded h \<and> agent_id (context_of ls (h_req h)) = a
      \<and> s \<le> rate_now (h_env h) \<and> rate_now (h_env h) < s + from_secs 60) (handlers gw)) \<le> 60"
proof -
  let ?Q = "\<lambda>t. s \<le> t \<and> t < s + from_secs 60"
  obtain secret where inv: "gateway_invariant ls secret gw" using started_invariant [OF assms(1,2)] by blast
  have ok: "\<And>h. h \<in> set (handlers gw) \<Longrightarrow> forwarded h \<Longrightarrow> passed h"
    using started_handler [OF inv] h_ok_facts(1,2) by blast
  have "length (filter (\<lambda>h. forwarded h \<and> agent_id (context_of ls (h_req h)) = a \<and> ?Q (rate_now (h_env h))) (handlers gw))
      \<le> length (filter (through ls a ?Q) (handlers gw))"
    using ok by (intro filter_subset_length) (auto simp: through_def)
  also have "\<dots> = length (filter ?Q (admitted_for a (rate_events gw) (snd (rate_log (rate_events gw)))))"
    using inv by (simp add: gateway_invariant_def rate_invariant_def)
  also have "\<dots> \<le> 60"
    using rate_window_bound [OF assms(3), of s AGENT_RATE_LIMIT_WINDOW a AGENT_RATE_LIMIT]
    by (simp add: AGENT_RATE_LIMIT_def AGENT_RATE_LIMIT_WINDOW_def)
  finally show ?thesis .
qed

theorem gateway_rate_bound_witness:
  "\<exists>gw. length (filter forwarded (handlers gw)) = 1 \<and> gateway_reachable demo_libs demo_start gw
     \<and> length (filter (\<lambda>h. forwarded h \<and> agent_id (context_of demo_libs (h_req h)) = ''bot''
         \<and> 1 \<le> rate_now (h_env h) \<and> rate_now (h_env h) < 1 + from_secs 60) (handlers gw)) \<le> 60"
proof -
  obtain gw where gw: "gateway_reachable demo_libs demo_start gw" "handlers gw = [demo_sent]" "rate_events gw = [(''bot'', 2)]"
    by (rule demo_reachable_sent)
  from gateway_rate_bound [OF demo_startup gw(1), of "''bot''" 1] gw show ?thesis by (intro exI [of _ gw]) simp
qed

text \<open>
  C5. The circuit breaker of the whole gateway implements its abstract machine: with 5 failures
  in 10 seconds and 30 seconds of quarantine, each agent's circuit in the shared breaker is the
  state of the machine after the agent's checks and failures, as many requests of the agent
  were admitted as the machine let pass, and every denial by a policy was reported to it. A
  forwarded request was admitted and not denied.
\<close>

theorem gateway_breaker_refines_spec:
  assumes "startup ls parse_addr vars bind fs is_dir listing = Listening addr gw0"
    and "gateway_reachable ls gw0 gw"
  shows "let spec = run_trace (spec_step 5 (from_secs 10) (from_secs 30) a) (Closed []) (breaker_events gw)
    in circuit_of (circuit_breaker (gw_proxy gw)) a = fst spec
     \<and> length (filter (\<lambda>h. admitted h \<and> agent_id (context_of ls (h_req h)) = a) (handlers gw))
         = checks_passed a (breaker_events gw) (snd spec)
     \<and> length (filter (\<lambda>h. denied h \<and> agent_id (context_of ls (h_req h)) = a) (handlers gw))
         = length (filter (failure_of a) (breaker_events gw))
     \<and> (\<forall>h \<in> set (handlers gw). forwarded h \<longrightarrow> admitted h \<and> \<not> denied h)"
proof -
  obtain secret where inv: "gateway_invariant ls secret gw" using started_invariant [OF assms] by blast
  have "\<forall>h \<in> set (handlers gw). forwarded h \<longrightarrow> admitted h \<and> \<not> denied h"
    using started_handler [OF inv] h_ok_facts(2,5) by blast
  with inv breaker_run_refines [of circuit_breaker_new "breaker_events gw" a]
    checks_passed_spec [of a "breaker_events gw" circuit_breaker_new]
  show ?thesis by (simp add: gateway_invariant_def breaker_invariant_def breaker_parameters Let_def)
qed

theorem gateway_breaker_refines_spec_witness:
  "\<exists>gw. gateway_reachable demo_libs demo_start gw \<and> length (filter admitted (handlers gw)) = 1
     \<and> circuit_of (circuit_breaker (gw_proxy gw)) ''bot''
       = fst (run_trace (spec_step 5 (from_secs 10) (from_secs 30) ''bot'') (Closed []) (breaker_events gw))"
proof -
  obtain gw where gw: "gateway_reachable demo_libs demo_start gw" "handlers gw = [demo_sent]" by (rule demo_reachable_sent)
  from gateway_breaker_refines_spec [OF demo_startup gw(1), of "''bot''"] gw show ?thesis
    by (intro exI [of _ gw]) (simp add: Let_def)
qed

text \<open>
  C3. Quarantine: from any reachable state in which the circuit of an agent is open since \<open>t\<close>,
  as long as the breaker is called within 30 seconds of \<open>t\<close>, the circuit stays open and no
  request of the agent is forwarded except one that was admitted before, whatever the handlers
  of this and other agents, the reloads and the writer do.
\<close>

theorem gateway_quarantine:
  assumes "startup ls parse_addr vars bind fs is_dir listing = Listening addr gw0"
    and "gateway_reachable ls gw0 gw"
    and "circuit_of (circuit_breaker (gw_proxy gw)) a = Open t"
    and "gateway_reachable ls gw gw'"
    and "\<forall>e \<in> set (drop (length (breaker_events gw)) (breaker_events gw')). duration_since (breaker_time e) t < from_secs 30"
  shows "circuit_of (circuit_breaker (gw_proxy gw')) a = Open t
    \<and> (\<forall>j < length (handlers gw'). agent_id (context_of ls (h_req (handlers gw' ! j))) = a \<and> forwarded (handlers gw' ! j) \<longrightarrow>
         j < length (handlers gw) \<and> admitted (handlers gw ! j))"
proof -
  obtain secret where inv: "gateway_invariant ls secret gw" using started_invariant [OF assms(1,2)] by blast
  have inv': "gateway_invariant ls secret gw'" by (rule gateway_reachable_invariant [OF assms(4) inv])
  have "forwarded h \<longrightarrow> admitted h" if "h \<in> set (handlers gw')" for h
    using started_handler [OF inv' that] h_ok_facts(2) by blast
  with quarantine_run [OF assms(4) inv assms(3)] assms(5) show ?thesis by (auto simp: quarantined_since_def)
qed

theorem gateway_quarantine_witness:
  "\<exists>gw gw'. gateway_reachable demo_libs demo_start gw \<and> circuit_of (circuit_breaker (gw_proxy gw)) ''bot'' = Open 5
     \<and> gateway_reachable demo_libs gw gw' \<and> length (handlers gw') = Suc (length (handlers gw))
     \<and> (\<exists>r. h_state (last (handlers gw')) = Done r) \<and> \<not> forwarded (last (handlers gw'))"
proof -
  obtain gw where gw: "gateway_reachable demo_libs demo_start gw" "offended 5 (gw_proxy gw)" "running gw"
    using offender_reachable [of 5] by auto
  have opened: "circuit_of (circuit_breaker (gw_proxy gw)) ''bot'' = Open 5" using gw(2) by (simp add: offended_def)
  obtain gw' h new where gw': "gateway_reachable demo_libs gw gw'" "handlers gw' = handlers gw @ [h]"
    "h_req h = demo_request ''GET'' ''x''" "\<exists>r. h_state h = Done r"
    "breaker_events gw' = breaker_events gw @ new" "breaker_time ` set new \<subseteq> {check_now demo_env, failure_now demo_env}"
    using serve [OF gw(3), of demo_libs demo_env "demo_request ''GET'' ''x''"] by metis
  have "duration_since (breaker_time e) 5 < from_secs 30" if "e \<in> set new" for e
  proof -
    have "breaker_time e = 3 \<or> breaker_time e = 5" using gw'(6) that by (auto simp: demo_env_def)
    then show ?thesis by (auto simp: duration_since_def from_secs_def)
  qed
  with gateway_quarantine [OF demo_startup gw(1) opened gw'(1)] gw(1) opened gw'(1-5)
  show ?thesis by (intro exI [of _ gw] exI [of _ gw']) (auto simp: bot_fields)
qed

text \<open>
  C9. Metrics and audit trail agree in every reachable state: the requests counted for a tenant
  over all status codes, and the latencies observed, are as many as its handlers that were
  audited; the denials counted are as many as the handlers denied; and while no write has
  failed, the records written or queued are as many as the latencies observed.
\<close>

theorem gateway_metrics_match_audit:
  assumes "startup ls parse_addr vars bind fs is_dir listing = Listening addr gw0"
    and "gateway_reachable ls gw0 gw"
  shows "let m = metrics (gw_proxy gw); logger = audit_logger (gw_proxy gw)
    in tenant_requests m t = length (filter (\<lambda>h. audited h \<and> tenant_id (context_of ls (h_req h)) = t) (handlers gw))
     \<and> policy_decisions_total m ''deny'' = length (filter denied (handlers gw))
     \<and> length (proxy_latency_seconds m) = length (filter audited (handlers gw))
     \<and> (\<not> io_failed logger \<longrightarrow> length (taken logger @ queue logger) = length (proxy_latency_seconds m))"
proof -
  obtain secret where inv: "gateway_invariant ls secret gw"
    and r: "audit_reachable (lib_sj ls) (lib_al ls) (audit_logger_new Stdout secret) (audit_logger (gw_proxy gw))"
    using started_invariant [OF assms] by blast
  let ?l = "audit_logger (gw_proxy gw)"
  have "length (taken ?l @ queue ?l) = length (filter audited (handlers gw))" if "\<not> io_failed ?l"
    using started_log [OF inv r that] by simp
  with inv show ?thesis by (simp add: gateway_invariant_def metrics_invariant_def Let_def)
qed

theorem gateway_metrics_match_audit_witness:
  "\<exists>gw. gateway_reachable demo_libs demo_start gw
     \<and> length (filter (\<lambda>h. audited h \<and> tenant_id (context_of demo_libs (h_req h)) = ''default_tenant'') (handlers gw)) = 1
     \<and> tenant_requests (metrics (gw_proxy gw)) ''default_tenant'' = 1
     \<and> length (taken (audit_logger (gw_proxy gw)) @ queue (audit_logger (gw_proxy gw))) = 1"
proof -
  obtain gw h r where gw: "gateway_reachable demo_libs demo_start gw" "handlers gw = [h]" "h_state h = Done r" "forwarded h"
    "h_req h = demo_request ''GET'' ''x''" "\<not> io_failed (audit_logger (gw_proxy gw))"
    by (rule demo_reachable_done)
  obtain secret where inv: "gateway_invariant demo_libs secret gw" using started_invariant [OF demo_startup gw(1)] by blast
  then have "audited h" using started_handler [of demo_libs secret gw h] gw(2-4) by simp
  with gateway_metrics_match_audit [OF demo_startup gw(1), of "''default_tenant''"] gw show ?thesis
    by (intro exI [of _ gw]) (simp add: Let_def bot_context_def)
qed

text \<open>
  C6. No forwarded request escapes the audit log while its client waits: in every reachable
  state in which no write has failed, each handler that has finished after forwarding its
  request has a record with its own trace id, agent, tenant and time among the records
  written or queued; there is exactly one record per audited handler, and the sink holds
  exactly the lines of the records the writer took.
\<close>

theorem gateway_forwards_are_audited:
  assumes "startup ls parse_addr vars bind fs is_dir listing = Listening addr gw0"
    and "gateway_reachable ls gw0 gw"
    and "\<not> io_failed (audit_logger (gw_proxy gw))"
  shows "let logger = audit_logger (gw_proxy gw)
    in (\<forall>h \<in> set (handlers gw). forwarded h \<and> (\<exists>r. h_state h = Done r) \<longrightarrow>
          (\<exists>e \<in> set (taken logger @ queue logger).
             entry_trace_id e = trace_id (h_env h) \<and> entry_timestamp e = wall_now (h_env h)
             \<and> entry_agent_id e = agent_id (context_of ls (h_req h))
             \<and> entry_tenant_id e = Some (tenant_id (context_of ls (h_req h)))))
      \<and> length (taken logger @ queue logger) = length (filter audited (handlers gw))
      \<and> bw_out (writer logger) = log_text (lib_sj ls) (lib_al ls) (taken logger)"
proof -
  obtain secret where inv: "gateway_invariant ls secret gw"
    and r: "audit_reachable (lib_sj ls) (lib_al ls) (audit_logger_new Stdout secret) (audit_logger (gw_proxy gw))"
    using started_invariant [OF assms(1,2)] by blast
  note log = started_log [OF inv r assms(3)]
  have "\<exists>e \<in> set (sent (audit_logger (gw_proxy gw))). record_of ls secret h e"
    if "h \<in> set (handlers gw)" "forwarded h" "h_state h = Done r" for h r
    using log(4) started_handler [OF inv that(1)] that by simp
  then show ?thesis unfolding Let_def log(1) using log(2,3) record_of_fields by blast
qed

theorem gateway_forwards_are_audited_witness:
  "\<exists>gw. gateway_reachable demo_libs demo_start gw
     \<and> (\<exists>e \<in> set (taken (audit_logger (gw_proxy gw)) @ queue (audit_logger (gw_proxy gw))).
          entry_trace_id e = ''t'' \<and> entry_agent_id e = ''bot'')"
proof -
  obtain gw h r where gw: "gateway_reachable demo_libs demo_start gw" "handlers gw = [h]" "h_state h = Done r" "forwarded h"
    "h_req h = demo_request ''GET'' ''x''" "h_env h = demo_env" "\<not> io_failed (audit_logger (gw_proxy gw))"
    by (rule demo_reachable_done)
  from gateway_forwards_are_audited [OF demo_startup gw(1) gw(7)] gw show ?thesis
    by (force simp: Let_def demo_env_def bot_context_def)
qed

text \<open>
  C36. A client that disconnects while the upstream server is answering erases the audit record
  of its request: the handler is dropped at that await, the request stays sent, and in no
  continuation is the handler ever audited.
\<close>

theorem disconnect_loses_audit_record:
  assumes "startup ls parse_addr vars bind fs is_dir listing = Listening addr gw0"
    and "gateway_reachable ls gw0 gw" and "running gw"
    and "i < length (handlers gw)" and "h_state (handlers gw ! i) = Sent tool i' d result"
  shows "\<exists>gw'. gateway_step ls gw gw' \<and> client (gw_proxy gw') = client (gw_proxy gw)
    \<and> forwarded (handlers gw' ! i)
    \<and> (\<forall>gw''. gateway_reachable ls gw' gw'' \<longrightarrow> forwarded (handlers gw'' ! i) \<and> \<not> audited (handlers gw'' ! i))"
proof -
  let ?gw = "gw\<lparr>handlers := (handlers gw)[i := (handlers gw ! i)\<lparr>h_state := Dropped\<rparr>]\<rparr>"
  obtain secret where inv: "gateway_invariant ls secret gw" using started_invariant [OF assms(1,2)] by blast
  then have h: "forwarded (handlers gw ! i)" "\<not> audited (handlers gw ! i)"
    using started_handler [OF inv nth_mem [OF assms(4)]] assms(5) by auto
  have "gateway_step ls gw ?gw" using assms(3,4,5) by (intro gateway_step.disconnect) auto
  moreover have "forwarded (handlers gw'' ! i) \<and> \<not> audited (handlers gw'' ! i)" if "gateway_reachable ls ?gw gw''" for gw''
    using dropped_stays [OF that, of i] assms(4) h by simp
  ultimately show ?thesis using assms(4) h by (intro exI [of _ ?gw]) simp
qed

theorem disconnect_loses_audit_record_witness:
  "\<exists>gw gw'. gateway_reachable demo_libs demo_start gw \<and> gateway_step demo_libs gw gw'
     \<and> length (client (gw_proxy gw')) = 1 \<and> \<not> audited (handlers gw' ! 0)"
proof -
  obtain gw where gw: "gateway_reachable demo_libs demo_start gw" "handlers gw = [demo_sent]"
    "length (client (gw_proxy gw)) = 1" "running gw"
    by (rule demo_reachable_sent)
  with disconnect_loses_audit_record [OF demo_startup gw(1) gw(4), of 0] show ?thesis
    by (metis (no_types, lifting) demo_sent_fields(1) gateway_reachable.initial length_Cons nth_Cons_0 zero_less_Suc)
qed

text \<open>
  C11. A handler that is not interleaved with anything else ends within eight steps, and does to
  the proxy and answers exactly what \<open>handle_request\<close> does.
\<close>

theorem handler_runs_handle_request:
  "fst (handler_run ls (8 + n) (new_handler rq ev) px) = fst (handle_request ls ev rq px)
   \<and> h_state (snd (handler_run ls (8 + n) (new_handler rq ev) px)) = Done (snd (handle_request ls ev rq px))"
  using ends_arrived [of ls n rq ev px] by (simp add: ends_as_def eval_nat_numeral)

text \<open>
  C12. No handler is ever stuck: from whatever state a running gateway is in, each handler whose
  client is still there can go on, with its request and its environment, to an answer (or a
  panic of its task) by steps that leave every other handler as it is.
\<close>

theorem handlers_can_finish:
  assumes "running gw" and "i < length (handlers gw)" and "h_state (handlers gw ! i) \<noteq> Dropped"
  shows "\<exists>gw' h r. gateway_reachable ls gw gw' \<and> handlers gw' = (handlers gw)[i := h] \<and> h_state h = Done r
    \<and> h_req h = h_req (handlers gw ! i) \<and> h_env h = h_env (handlers gw ! i) \<and> running gw'"
proof -
  let ?h = "snd (handler_run ls 8 (handlers gw ! i) (gw_proxy gw))"
  obtain gw' where "gateway_reachable ls gw gw'" "handlers gw' = (handlers gw)[i := ?h]" "running gw'"
    using run_handler [OF assms(1,2), of ls 8] by blast
  moreover obtain r where "h_state ?h = Done r" using handler_run_ends [OF assms(3)] by blast
  ultimately show ?thesis using handler_run_request [of ls 8 "handlers gw ! i" "gw_proxy gw"] by blast
qed

theorem handlers_can_finish_witness:
  "\<exists>gw gw' r. gateway_reachable demo_libs demo_start gw \<and> h_state (handlers gw ! 0) \<noteq> Done r
     \<and> gateway_reachable demo_libs gw gw' \<and> h_state (handlers gw' ! 0) = Done r
     \<and> h_req (handlers gw' ! 0) = h_req (handlers gw ! 0)"
proof -
  obtain gw where gw: "gateway_reachable demo_libs demo_start gw" "handlers gw = [demo_sent]" "running gw"
    by (rule demo_reachable_sent)
  with handlers_can_finish [OF gw(3), of 0 demo_libs] obtain gw' h r where "gateway_reachable demo_libs gw gw'"
    "handlers gw' = [h]" "h_state h = Done r" "h_req h = h_req demo_sent" by auto
  with gw show ?thesis by (intro exI [of _ gw] exI [of _ gw'] exI [of _ r]) simp
qed

text \<open>The accept loop ends \<open>main\<close> at the first error of \<open>accept\<close>, and with it every handler.\<close>

lemma stopped_gateway_is_stuck: "\<not> running gw \<Longrightarrow> \<not> gateway_step ls gw gw'"
  by (auto elim: gateway_stepE)

text \<open>
  C10. Every policy runs in the sandbox: in every reachable state, whatever files were loaded at
  start-up or by hot reload, the evaluation of a tool call depends on the WebAssembly runtime
  only through what the runtime does in a host state without environment, arguments, directories,
  streams or sockets (clocks and random numbers are left) and with at most 16 MiB of memory; a
  runtime that differs in any other host state gives the same result.
  The epoch deadline is one tick, and a tenant with an engine of its own has a policy in it.
\<close>

theorem gateway_policies_sandboxed:
  assumes "startup ls parse_addr vars bind fs is_dir listing = Listening addr gw0"
    and "gateway_reachable ls gw0 gw"
    and "\<And>c d. instantiate wl c sandboxed d = instantiate (lib_wl ls) c sandboxed d"
    and "\<And>c x r d. call_evaluate wl c sandboxed x r d = call_evaluate (lib_wl ls) c sandboxed x r d"
  shows "let reg = policy_registry (gw_proxy gw); eng = registry_get reg (tenant_id ctx)
    in evaluate_call (ls\<lparr>lib_wl := wl\<rparr>) ev ctx p (gw_proxy gw) = evaluate_call ls ev ctx p (gw_proxy gw)
     \<and> epoch_deadlines (sandbox eng) = 1
     \<and> (tenant_id ctx \<in> tenant_ids reg \<longrightarrow> component eng \<noteq> None)"
proof -
  obtain secret where inv: "gateway_invariant ls secret gw" using started_invariant [OF assms(1,2)] by blast
  let ?reg = "policy_registry (gw_proxy gw)"
  have sb: "sandbox (registry_get ?reg (tenant_id ctx)) = default_sandbox"
    and own: "tenant_id ctx \<in> tenant_ids ?reg \<Longrightarrow> component (registry_get ?reg (tenant_id ctx)) \<noteq> None"
    using inv by (auto simp: invariant_defs loaded_def registry_get_def tenant_ids_def split: option.splits)
  have "wasi_state_new default_sandbox = sandboxed"
    by (simp add: wasi_state_new_def default_sandbox_def sandboxed_def built_ctx_def)
  with sb assms(3,4) have "evaluate_call (ls\<lparr>lib_wl := wl\<rparr>) ev ctx p (gw_proxy gw) = evaluate_call ls ev ctx p (gw_proxy gw)"
    by (simp add: evaluate_call_def evaluate_policy_def Let_def split: option.splits)
  with sb own show ?thesis by (simp add: default_sandbox_def Let_def)
qed

theorem gateway_policies_sandboxed_witness:
  "\<exists>gw. gateway_reachable demo_libs demo_start gw
     \<and> snd (evaluate_call (demo_libs\<lparr>lib_wl := lax_runtime\<rparr>) demo_env bot_context drop_call (gw_proxy gw))
         = Inr (Deny ''Unsafe action blocked by WASM policy'')"
proof -
  obtain gw where gw: "gateway_reachable demo_libs demo_start gw" "offended 0 (gw_proxy gw)"
    using offender_reachable [of 0] by auto
  have "evaluate_call (demo_libs\<lparr>lib_wl := lax_runtime\<rparr>) demo_env bot_context drop_call (gw_proxy gw)
      = evaluate_call demo_libs demo_env bot_context drop_call (gw_proxy gw)"
    using gateway_policies_sandboxed [OF demo_startup gw(1), of lax_runtime bot_context demo_env drop_call]
    by (simp add: Let_def demo_libs_def lax_runtime_def)
  with offended_verdict [OF gw(2)] gw(1) show ?thesis by (auto simp: policy_verdict_def)
qed

end
