(* ===== verification/Gateway_Clearance.thy ===== *)
theory Gateway_Clearance
  imports Gateway_Properties Proxy_Redaction
begin

text \<open>
  Why each handler of the concurrent gateway is where it is: what was read and redacted, which
  policy judged it and when, what was sent upstream and what was answered. The invariant holds
  of every handler in every reachable state, and with it: only cleared requests reach the
  upstream server, each from a handler of its own, and every answer has its reason. The last
  part follows the default policy along a run.
\<close>

section \<open>The history of a handler\<close>

text \<open>The body and parameters after decoding and redaction.\<close>

definition prepared ::
  "'c libs \<Rightarrow> InboundRequest \<Rightarrow> string \<Rightarrow> json \<Rightarrow> string \<Rightarrow> McpToolCallParams option \<Rightarrow> bool \<Rightarrow> bool" where
  "prepared ls rq tool i body1 params1 pii \<longleftrightarrow>
     (\<exists>body params. read_request ls rq = Inr (body, i, params) \<and> tool = tool_name_of params
        \<and> redact_stage ls pii_redactor_new body params = Some (body1, params1, pii))"

text \<open>
  The policy stage had this outcome in one of the states \<open>P\<close> that the gateway went through, when
  handler \<open>k\<close> was ready for it.
\<close>

definition ready_at :: "nat \<Rightarrow> 'c gateway \<Rightarrow> hstate \<Rightarrow> bool" where
  "ready_at k gw s \<longleftrightarrow> k < length (handlers gw) \<and> h_state (handlers gw ! k) = s"

definition judged ::
  "'c libs \<Rightarrow> 'c gateway list \<Rightarrow> nat \<Rightarrow> InboundRequest \<Rightarrow> env \<Rightarrow> string \<Rightarrow> json \<Rightarrow> policy_outcome \<Rightarrow> bool" where
  "judged ls P k rq ev tool i out \<longleftrightarrow>
     (\<exists>body1 params1 pii. \<exists>gw1 \<in> set P. prepared ls rq tool i body1 params1 pii
        \<and> ready_at k gw1 (Ready tool i body1 params1 pii)
        \<and> snd (policy_stage ls ev (context_of ls rq) body1 params1 pii (gw_proxy gw1)) = out)"

text \<open>A request to the upstream server with what was decided for it.\<close>

definition dispatched ::
  "'c libs \<Rightarrow> Uri \<Rightarrow> 'c gateway list \<Rightarrow> nat \<Rightarrow> InboundRequest \<Rightarrow> env \<Rightarrow> string \<Rightarrow> json \<Rightarrow> AuditDecision \<Rightarrow> HttpRequest \<Rightarrow> bool" where
  "dispatched ls base P k rq ev tool i decision req \<longleftrightarrow>
     (\<exists>body2 u. judged ls P k rq ev tool i (Forward body2 decision)
        \<and> upstream_uri ls (base) (in_uri rq) = Inr u \<and> req = upstream_request rq u body2)"

text \<open>What a forwarded request is answered with.\<close>

definition upstream_answer :: "'c libs \<Rightarrow> json \<Rightarrow> string + UpstreamResponse \<Rightarrow> Response" where
  "upstream_answer ls i result =
     (case result of
        Inr response \<Rightarrow> relay_response (lib_sj ls) response
      | Inl e \<Rightarrow> json_rpc_error_response (lib_sj ls) 502 i
                   (InternalError (''upstream MCP server is unavailable: '' @ e)))"

text \<open>
  The answers to a request that is not forwarded, by what has happened to its handler. Those to
  a forwarded request are \<open>replies\<close>, below.
\<close>

definition answered :: "'c libs \<Rightarrow> Uri \<Rightarrow> 'c gateway list \<Rightarrow> nat \<Rightarrow> handler \<Rightarrow> outcome \<Rightarrow> bool" where
  "answered ls base P k h r \<longleftrightarrow>
     (let rq = h_req h; ev = h_env h; ctx = h_context ls h; reply = json_rpc_error_response (lib_sj ls)
      in if forwarded h then True
         else if denied h
         then \<exists>tool i reason. judged ls P k rq ev tool i (Denied reason)
                \<and> r = Responded (reply 403 i (GuardrailViolation reason))
         else if admitted h
         then (\<exists>e. read_request ls rq = Inl e \<and> r = Responded e)
              \<or> r = Panicked \<and> (\<exists>body i params. read_request ls rq = Inr (body, i, params)
                   \<and> redact_stage ls pii_redactor_new body params = None)
              \<or> r = Panicked \<and> (\<exists>tool i. judged ls P k rq ev tool i PolicyPanic)
              \<or> (\<exists>tool i body2 decision e. judged ls P k rq ev tool i (Forward body2 decision)
                   \<and> upstream_uri ls (base) (in_uri rq) = Inl e \<and> r = Responded (reply 502 i e))
         else if passed h then \<exists>msg. r = Responded (reply 429 JNull (CircuitOpen msg))
         else if special_path ls rq then \<exists>response. r = Responded response \<and> status response \<in> {200, 500}
         else if \<not> authenticated ctx
         then r = Responded (reply 401 JNull (Unauthorized ''missing or invalid bearer token''))
         else r = Responded (reply 429 JNull RateLimitExceeded))"

fun clearance :: "'c libs \<Rightarrow> Uri \<Rightarrow> 'c gateway list \<Rightarrow> nat \<Rightarrow> handler \<Rightarrow> hstate \<Rightarrow> bool" where
  "clearance ls base P k h (Ready tool i body params pii) \<longleftrightarrow> prepared ls (h_req h) tool i body params pii"
| "clearance ls base P k h (Evaluated tool i body params pii evaluation) \<longleftrightarrow>
     prepared ls (h_req h) tool i body params pii
     \<and> (\<exists>p. \<exists>gw1 \<in> set P. params = Some p \<and> ready_at k gw1 (Ready tool i body params pii)
          \<and> evaluation = evaluate_call ls (h_env h) (h_context ls h) p (gw_proxy gw1))"
| "clearance ls base P k h (Decided tool i body decision) \<longleftrightarrow> judged ls P k (h_req h) (h_env h) tool i (Forward body decision)"
| "clearance ls base P k h (Denying tool i reason) \<longleftrightarrow> judged ls P k (h_req h) (h_env h) tool i (Denied reason)"
| "clearance ls base P k h (Done r) \<longleftrightarrow> answered ls base P k h r"
| "clearance ls base P k h s \<longleftrightarrow> True"

abbreviation identified :: "'c libs \<Rightarrow> handler \<Rightarrow> bool" where
  "identified ls h \<equiv> passed h \<longrightarrow> authenticated (h_context ls h) \<and> \<not> special_path ls (h_req h)"

section \<open>A step keeps the history\<close>

lemma policy_outcome_at:
  "snd (policy_apply ls ev ctx body (Some p) pii (evaluate_call ls ev ctx p px1) px)
     = snd (policy_stage ls ev ctx body (Some p) pii px1)"
  by (auto simp: policy_stage_def policy_apply_def Let_def split: sum.splits PolicyDecision.splits rebuild.splits)

lemma check_errors:
  "check cb a now = (cb', Inl e) \<Longrightarrow> \<exists>msg. e = CircuitOpen msg"
  "check_rate_limit rl a limit w now = (rl', Inl e) \<Longrightarrow> e = RateLimitExceeded"
  by (auto simp: check_def check_rate_limit_def Let_def split: if_splits option.splits)

lemma clearance_arrived:
  assumes "step_arrived ls h px = (px', h')" and "h_state h = Arrived" and "h_ok h"
  shows "clearance ls base P k h' (h_state h') \<and> identified ls h'"
  using assms
  by (auto simp: step_arrived_def answered_def done_with_def special_path_def handle_metrics_def handle_healthz_def Let_def
      map_prod_def dest!: check_errors(2) split: if_splits prod.splits sum.splits)

lemma clearance_breaker:
  assumes "step_breaker ls h px = (px', h')" and "h_state h = RateChecked" and "h_ok h"
  shows "clearance ls base P k h' (h_state h')"
  using assms
  by (auto simp: step_breaker_def answered_def done_with_def dest!: check_errors(1) split: prod.splits sum.splits)

lemma clearance_read:
  assumes "step_read ls h px = (px', h')" and "h_state h = Admitted" and "h_ok h" and "redactor px = pii_redactor_new"
  shows "clearance ls base P k h' (h_state h')"
  using assms
  by (auto simp: step_read_def answered_def done_with_def prepared_def split: prod.splits sum.splits option.splits)

lemma clearance_evaluate:
  assumes "step_evaluate ls h tool i body params pii (gw_proxy gw) = (px', h')"
    and "gw \<in> set P" and "ready_at k gw (Ready tool i body params pii)"
    and "clearance ls base P k h (Ready tool i body params pii)"
  shows "clearance ls base P k h' (h_state h')"
proof (cases params)
  case None
  have "snd (policy_stage ls ev ctx body None pii (gw_proxy gw)) = Forward body (initial_decision ls pii None)" for ev ctx
    by (simp add: policy_stage_def)
  with None assms show ?thesis by (fastforce simp: step_evaluate_def judged_def)
next
  case (Some p)
  with assms show ?thesis by (auto simp: step_evaluate_def)
qed

lemma clearance_decide:
  assumes "step_decide ls h tool i body params pii evaluation px = (px', h')"
    and "h_state h = Evaluated tool i body params pii evaluation" and "h_ok h"
    and "clearance ls base P k h (Evaluated tool i body params pii evaluation)"
  shows "clearance ls base P k h' (h_state h')"
proof -
  obtain p gw1 where p: "params = Some p" "gw1 \<in> set P" "ready_at k gw1 (Ready tool i body params pii)"
    "evaluation = evaluate_call ls (h_env h) (h_context ls h) p (gw_proxy gw1)"
    and prep: "prepared ls (h_req h) tool i body params pii" using assms(4) by auto
  obtain px2 out where out: "policy_apply ls (h_env h) (h_context ls h) body params pii evaluation px = (px2, out)"
    by fastforce
  have "judged ls P k (h_req h) (h_env h) tool i out"
    using p prep out policy_outcome_at [of ls "h_env h" "h_context ls h" body p pii "gw_proxy gw1" px]
    by (auto simp: judged_def)
  with out assms(1-3) show ?thesis by (cases out) (auto simp: step_decide_def answered_def done_with_def Let_def)
qed

lemma clearance_deny:
  assumes "step_deny ls h tool i reason px = (px', h')" and "h_state h = Denying tool i reason" and "h_ok h"
    and "clearance ls base P k h (Denying tool i reason)"
  shows "clearance ls base P k h' (h_state h')"
  using assms
  by (auto simp: step_deny_def answered_def done_with_def deny_stage_simps case_prod_unfold map_prod_def Let_def) blast

lemma clearance_send:
  assumes "step_send ls h tool i body decision px = (px', h')" and "h_state h = Decided tool i body decision" and "h_ok h"
    and "clearance ls base P k h (Decided tool i body decision)" and "target_base px = base"
  shows "clearance ls base P k h' (h_state h')"
  using assms
  by (fastforce simp: step_send_def answered_def done_with_def Let_def split: sum.splits)

lemma clearance_forwarded:
  assumes "handler_step ls h px = (px', h')" and "forwarded h" and "clearance ls base P k h (h_state h)" and "h_ok h"
  shows "clearance ls base P k h' (h_state h')"
  using assms
  by (cases "h_state h")
    (auto simp: handler_step_def step_complete_def step_relay_def answered_def done_with_def case_prod_unfold map_prod_def
      split: sum.splits)

text \<open>No step of a handler changes the redactor or the origin of the upstream server.\<close>

lemma handler_step_config:
  "handler_step ls h px = (px', h') \<Longrightarrow> redactor px' = redactor px \<and> target_base px' = target_base px"
  by (cases "h_state h"; auto simp: handler_step_def step_defs stage_defs Let_def
      split: step_splits policy_outcome.splits)

lemma handler_step_passed: "handler_step ls h px = (px', h') \<Longrightarrow> h_state h \<noteq> Arrived \<Longrightarrow> passed h' = passed h"
  using handler_step_rate(2) [of ls h px px' h'] by (simp add: rate_event_of_def)

lemma handler_step_clearance:
  assumes "handler_step ls h (gw_proxy gw) = (px', h')"
    and "gw \<in> set P" "k < length (handlers gw)" "handlers gw ! k = h" and "h_ok h"
    and "clearance ls base P k h (h_state h)" and "identified ls h"
    and "redactor (gw_proxy gw) = pii_redactor_new" and "target_base (gw_proxy gw) = base"
  shows "clearance ls base P k h' (h_state h') \<and> identified ls h'"
proof (cases "h_state h = Arrived")
  case True
  with assms(1,5) show ?thesis by (intro clearance_arrived) (auto simp: handler_step_def)
next
  case False
  have "identified ls h'" using handler_step_passed [OF assms(1) False] handler_step_request [OF assms(1)] assms(7) by simp
  moreover have "clearance ls base P k h' (h_state h')"
  proof (cases "h_state h")
    case (Ready tool i body params pii)
    with assms show ?thesis
      by (intro clearance_evaluate [of ls h tool i body params pii gw px' h' P k base]) (auto simp: handler_step_def ready_at_def)
  next
    case Admitted
    with assms show ?thesis by (auto simp: handler_step_def intro: clearance_read)
  next
    case (Sent tool i decision result)
    with assms show ?thesis by (intro clearance_forwarded [OF assms(1)]) auto
  next
    case (Relaying response)
    with assms show ?thesis by (intro clearance_forwarded [OF assms(1)]) auto
  qed (use assms False in \<open>auto simp: handler_step_def simp del: clearance.simps intro: clearance_breaker clearance_decide
      clearance_deny clearance_send\<close>)
  ultimately show ?thesis by simp
qed

section \<open>The history of the gateway\<close>

text \<open>The states that a gateway goes through, the newest first.\<close>

inductive gateway_run :: "'c libs \<Rightarrow> 'c gateway \<Rightarrow> 'c gateway list \<Rightarrow> bool" for ls gw0 where
  begin_run: "gateway_run ls gw0 [gw0]"
| extend_run: "gateway_run ls gw0 (gw # past) \<Longrightarrow> gateway_step ls gw gw' \<Longrightarrow> gateway_run ls gw0 (gw' # gw # past)"

inductive_cases gateway_runE: "gateway_run ls gw0 (gw # past)"

lemma run_reachable: "gateway_run ls gw0 gws \<Longrightarrow> gateway_reachable ls gw0 (hd gws)"
  by (induction rule: gateway_run.induct) (auto intro: gateway_reachable.intros)

lemma reachable_run: "gateway_reachable ls gw0 gw \<Longrightarrow> \<exists>past. gateway_run ls gw0 (gw # past)"
  by (induction rule: gateway_reachable.induct) (auto intro: gateway_run.intros)

text \<open>
  The request that was sent for a handler is the one whose response the handler waits for,
  relays or has answered with.
\<close>

definition replies :: "'c libs \<Rightarrow> string \<Rightarrow> json \<Rightarrow> AuditDecision \<Rightarrow> HttpRequest \<Rightarrow> handler \<Rightarrow> bool" where
  "replies ls tool i decision req h \<longleftrightarrow>
     (case h_state h of
        Sent tool' i' decision' result \<Rightarrow>
          tool' = tool \<and> i' = i \<and> decision' = decision \<and> upstream (h_env h) req = result
      | Relaying response \<Rightarrow> upstream (h_env h) req = Inr response
      | Done r \<Rightarrow> r = Responded (upstream_answer ls i (upstream (h_env h) req))
      | Dropped \<Rightarrow> True
      | _ \<Rightarrow> False)"

definition sent_by :: "'c libs \<Rightarrow> Uri \<Rightarrow> 'c gateway list \<Rightarrow> handler list \<Rightarrow> nat \<Rightarrow> HttpRequest \<Rightarrow> bool" where
  "sent_by ls base P hs k req \<longleftrightarrow>
     (\<exists>tool i decision. dispatched ls base P k (h_req (hs ! k)) (h_env (hs ! k)) tool i decision req
        \<and> replies ls tool i decision req (hs ! k))"

text \<open>The requests sent upstream, in the order of sending, belong one to one to the handlers that forwarded.\<close>

definition dispatch_log :: "'c libs \<Rightarrow> Uri \<Rightarrow> 'c gateway list \<Rightarrow> handler list \<Rightarrow> HttpRequest list \<Rightarrow> bool" where
  "dispatch_log ls base P hs reqs \<longleftrightarrow>
     (\<exists>ks. distinct ks \<and> set ks = {k. k < length hs \<and> forwarded (hs ! k)} \<and> list_all2 (sent_by ls base P hs) ks reqs)"

definition history :: "'c libs \<Rightarrow> Uri \<Rightarrow> 'c gateway list \<Rightarrow> 'c gateway \<Rightarrow> bool" where
  "history ls base P gw \<longleftrightarrow>
     redactor (gw_proxy gw) = pii_redactor_new \<and> target_base (gw_proxy gw) = base
     \<and> (\<forall>k < length (handlers gw). clearance ls base P k (handlers gw ! k) (h_state (handlers gw ! k))
          \<and> identified ls (handlers gw ! k))
     \<and> dispatch_log ls base P (handlers gw) (client (gw_proxy gw))"

text \<open>A longer past has at least the same histories.\<close>

lemma judged_mono: "judged ls P k rq ev tool i out \<Longrightarrow> set P \<subseteq> set Q \<Longrightarrow> judged ls Q k rq ev tool i out"
  unfolding judged_def by blast

lemma dispatched_mono:
  "dispatched ls base P k rq ev tool i d req \<Longrightarrow> set P \<subseteq> set Q \<Longrightarrow> dispatched ls base Q k rq ev tool i d req"
  unfolding dispatched_def using judged_mono by blast

lemma answered_mono:
  assumes "answered ls base P k h r" and "set P \<subseteq> set Q"
  shows "answered ls base Q k h r"
proof -
  note mono = judged_mono [OF _ assms(2)] dispatched_mono [OF _ assms(2)]
  show ?thesis
  proof (cases "forwarded h \<or> denied h \<or> admitted h")
    case True
    with assms(1) show ?thesis
      unfolding answered_def Let_def
      by (cases "forwarded h"; cases "denied h"; simp) (blast intro: mono)+
  next
    case False
    with assms(1) show ?thesis by (simp add: answered_def Let_def)
  qed
qed

lemma clearance_mono:
  assumes "clearance ls base P k h s" and "set P \<subseteq> set Q"
  shows "clearance ls base Q k h s"
proof -
  note mono = judged_mono [OF _ assms(2)] dispatched_mono [OF _ assms(2)] answered_mono [OF _ assms(2)]
  show ?thesis using assms by (cases s; simp; blast intro: mono)
qed

lemma sent_by_mono: "sent_by ls base P hs k req \<Longrightarrow> set P \<subseteq> set Q \<Longrightarrow> sent_by ls base Q hs k req"
  unfolding sent_by_def using dispatched_mono by blast

lemma dispatch_log_mono:
  assumes "dispatch_log ls base P hs reqs"
    and "\<And>k. k < length hs' \<and> forwarded (hs' ! k) \<longleftrightarrow> k < length hs \<and> forwarded (hs ! k)"
    and "\<And>k req. k < length hs \<Longrightarrow> forwarded (hs ! k) \<Longrightarrow> sent_by ls base P hs k req \<Longrightarrow> sent_by ls base Q hs' k req"
  shows "dispatch_log ls base Q hs' reqs"
proof -
  obtain ks where ks: "distinct ks" "set ks = {k. k < length hs \<and> forwarded (hs ! k)}"
    "list_all2 (sent_by ls base P hs) ks reqs"
    using assms(1) by (auto simp: dispatch_log_def)
  have "list_all2 (sent_by ls base Q hs') ks reqs"
  proof (rule list_all2_all_nthI)
    show "length ks = length reqs" by (rule list_all2_lengthD [OF ks(3)])
    fix n assume n: "n < length ks"
    then have "ks ! n \<in> set ks" by simp
    with ks(2) show "sent_by ls base Q hs' (ks ! n) (reqs ! n)"
      using assms(3) [OF _ _ list_all2_nthD [OF ks(3) n]] by simp
  qed
  with ks(1,2) assms(2) show ?thesis unfolding dispatch_log_def by auto
qed

lemma history_mono:
  assumes "history ls base P gw" and "set P \<subseteq> set Q"
  shows "history ls base Q gw"
  using assms(1) clearance_mono [OF _ assms(2)]
  by (auto simp: history_def intro: dispatch_log_mono sent_by_mono [OF _ assms(2)])

text \<open>What a step of a handler adds to the requests sent.\<close>

lemma handler_step_replies:
  assumes "handler_step ls h px = (px', h')" and "replies ls tool i decision req h"
  shows "replies ls tool i decision req h'"
proof -
  have answer: "snd (forward_complete ls ev ctx tool i d result px) = upstream_answer ls i result" for ev ctx d result
    by (simp add: forward_complete_def upstream_answer_def Let_def split: sum.splits)
  show ?thesis
  proof (cases "h_state h")
    case (Sent tool' i' d' result)
    with assms answer show ?thesis
      by (cases result)
        (auto simp: replies_def handler_step_def step_complete_def done_with_def case_prod_unfold map_prod_def)
  qed (use assms in \<open>auto simp: replies_def handler_step_def step_relay_def done_with_def upstream_answer_def\<close>)
qed

lemma handler_step_client:
  assumes "handler_step ls h px = (px', h')" and "h_ok h" and "clearance ls base P k h (h_state h)"
    and "target_base px = base"
  shows "client px' = client px \<and> forwarded h' = forwarded h
    \<or> (\<exists>tool i decision req. client px' = client px @ [req] \<and> \<not> forwarded h \<and> forwarded h'
         \<and> dispatched ls base P k (h_req h) (h_env h) tool i decision req \<and> replies ls tool i decision req h')"
proof (cases "h_state h")
  case (Decided tool i body decision)
  show ?thesis
  proof (cases "upstream_uri ls base (in_uri (h_req h))")
    case (Inl e)
    with Decided assms(1,4) show ?thesis by (auto simp: handler_step_def step_send_def done_with_def)
  next
    case (Inr u)
    let ?req = "upstream_request (h_req h) u body"
    have "dispatched ls base P k (h_req h) (h_env h) tool i decision ?req"
      using Decided Inr assms(3) by (auto simp: dispatched_def)
    moreover have "client px' = client px @ [?req]" "\<not> forwarded h" "forwarded h'" "replies ls tool i decision ?req h'"
      using Decided Inr assms(1,2,4) by (auto simp: handler_step_def step_send_def replies_def Let_def)
    ultimately show ?thesis by blast
  qed
qed (use assms(1) in \<open>auto simp: handler_step_def step_defs stage_defs Let_def split: step_splits policy_outcome.splits\<close>)

lemma dispatch_log_advance:
  assumes "dispatch_log ls base P (handlers gw) (client (gw_proxy gw))" and "i < length (handlers gw)"
    and "h_ok (handlers gw ! i)" and "clearance ls base P i (handlers gw ! i) (h_state (handlers gw ! i))"
    and "target_base (gw_proxy gw) = base" and "handler_step ls (handlers gw ! i) (gw_proxy gw) = (px, h)"
  shows "dispatch_log ls base P ((handlers gw)[i := h]) (client px)"
proof -
  let ?h = "handlers gw ! i" and ?hs = "(handlers gw)[i := h]"
  note req = handler_step_request [OF assms(6)]
  have keep: "sent_by ls base P ?hs k r" if "sent_by ls base P (handlers gw) k r" for k r
    using that req handler_step_replies [OF assms(6)] assms(2)
    by (cases "k = i") (auto simp: sent_by_def, blast)
  show ?thesis
    using handler_step_client [OF assms(6,3,4,5)]
  proof (elim disjE exE conjE)
    assume "client px = client (gw_proxy gw)" "forwarded h = forwarded ?h"
    with assms(1,2) keep show ?thesis by (auto intro!: dispatch_log_mono [OF assms(1)] simp: nth_list_update split: if_splits)
  next
    fix tool j decision r
    assume new: "client px = client (gw_proxy gw) @ [r]" "\<not> forwarded ?h" "forwarded h"
      "dispatched ls base P i (h_req ?h) (h_env ?h) tool j decision r" "replies ls tool j decision r h"
    obtain ks where ks: "distinct ks" "set ks = {k. k < length (handlers gw) \<and> forwarded (handlers gw ! k)}"
      "list_all2 (sent_by ls base P (handlers gw)) ks (client (gw_proxy gw))"
      using assms(1) by (auto simp: dispatch_log_def)
    have "i \<notin> set ks" using ks(2) new(2) by simp
    moreover have "sent_by ls base P ?hs i r" using new assms(2) req by (auto simp: sent_by_def)
    moreover have "set (ks @ [i]) = {k. k < length ?hs \<and> forwarded (?hs ! k)}"
      using ks(2) new(3) assms(2) by (auto simp: nth_list_update)
    moreover have "list_all2 (sent_by ls base P ?hs) ks (client (gw_proxy gw))"
      by (rule list_all2_mono [OF ks(3)]) (rule keep)
    ultimately show ?thesis
      unfolding dispatch_log_def using ks(1) new(1) by (intro exI [of _ "ks @ [i]"]) (auto simp: list_all2_appendI)
  qed
qed

lemma history_advance:
  assumes "history ls base P gw" and "gw \<in> set P" and "\<forall>h \<in> set (handlers gw). h_ok h"
    and "i < length (handlers gw)" and "handler_step ls (handlers gw ! i) (gw_proxy gw) = (px, h)"
  shows "history ls base P (advanced ls gw i px h)"
proof -
  let ?h = "handlers gw ! i" and ?hs = "(handlers gw)[i := h]"
  have inv: "redactor (gw_proxy gw) = pii_redactor_new" "target_base (gw_proxy gw) = base"
    "clearance ls base P i ?h (h_state ?h)" "identified ls ?h" and ok: "h_ok ?h"
    and log: "dispatch_log ls base P (handlers gw) (client (gw_proxy gw))"
    using assms(1,3,4) by (auto simp: history_def)
  have "clearance ls base P k (?hs ! k) (h_state (?hs ! k)) \<and> identified ls (?hs ! k)" if "k < length ?hs" for k
    using handler_step_clearance [OF assms(5,2,4) refl ok inv(3,4,1,2)] assms(1) that
    by (cases "k = i") (simp_all add: history_def)
  with dispatch_log_advance [OF log assms(4) ok inv(3,2) assms(5)] handler_step_config [OF assms(5)] inv(1,2)
  show ?thesis by (simp add: history_def)
qed

lemma history_accept:
  assumes "history ls base P gw"
  shows "history ls base P (gw\<lparr>handlers := handlers gw @ [new_handler rq ev]\<rparr>)"
proof -
  have "dispatch_log ls base P (handlers gw @ [new_handler rq ev]) (client (gw_proxy gw))"
    by (rule dispatch_log_mono [of ls base P "handlers gw"])
      (use assms in \<open>auto simp: history_def sent_by_def nth_append new_handler_def\<close>)
  with assms show ?thesis by (simp add: history_def nth_append new_handler_def)
qed

lemma history_disconnect:
  assumes "history ls base P gw" and "i < length (handlers gw)"
  shows "history ls base P (gw\<lparr>handlers := (handlers gw)[i := (handlers gw ! i)\<lparr>h_state := Dropped\<rparr>]\<rparr>)"
proof -
  let ?hs = "(handlers gw)[i := (handlers gw ! i)\<lparr>h_state := Dropped\<rparr>]"
  have keep: "sent_by ls base P ?hs k req" if "sent_by ls base P (handlers gw) k req" for k req
    using that assms(2) by (cases "k = i") (auto simp: sent_by_def replies_def)
  have "dispatch_log ls base P ?hs (client (gw_proxy gw))"
    by (rule dispatch_log_mono [of ls base P "handlers gw"])
      (use assms keep in \<open>auto simp: history_def nth_list_update\<close>)
  moreover have "clearance ls base P k (?hs ! k) (h_state (?hs ! k)) \<and> identified ls (?hs ! k)"
    if "k < length ?hs" for k
    using assms that by (cases "k = i") (simp_all add: history_def)
  ultimately show ?thesis using assms by (simp add: history_def)
qed

lemma history_step:
  assumes "gateway_step ls gw gw'" and "history ls base P gw" and "gw \<in> set P"
    and "\<forall>h \<in> set (handlers gw). h_ok h"
  shows "history ls base P gw'"
  using assms(1)
proof cases
  case (advance i px h)
  with history_advance [OF assms(2-4)] show ?thesis by simp
next
  case accept
  with history_accept [OF assms(2)] show ?thesis by simp
next
  case disconnect
  with history_disconnect [OF assms(2)] show ?thesis by simp
qed (use assms(2) in \<open>simp_all add: history_def\<close>)

lemma startup_history:
  assumes "startup ls parse_addr vars bind fs is_dir listing = Listening addr gw"
  shows "history ls (target_base (gw_proxy gw)) P gw"
  using assms
  by (auto simp: startup_def Let_def history_def dispatch_log_def gateway_new_def proxy_new_def split: sum.splits option.splits if_splits)

lemma started_history:
  assumes "startup ls parse_addr vars bind fs is_dir listing = Listening addr gw0" and "gateway_run ls gw0 gws"
  shows "history ls (target_base (gw_proxy gw0)) (tl gws) (hd gws)"
  using assms(2)
proof induction
  case begin_run
  show ?case using startup_history [OF assms(1)] by simp
next
  case (extend_run gw past gw')
  have "gateway_reachable ls gw0 gw" using run_reachable [OF extend_run.hyps(1)] by simp
  then obtain secret where "gateway_invariant ls secret gw" using started_invariant [OF assms(1)] by blast
  then have "\<forall>h \<in> set (handlers gw). h_ok h" by (simp add: invariant_defs)
  moreover have "history ls (target_base (gw_proxy gw0)) (gw # past) gw"
    by (rule history_mono [of ls _ past]) (use extend_run.IH in auto)
  ultimately show ?case using history_step [OF extend_run.hyps(2)] by simp
qed

section \<open>Properties\<close>

lemma judgedE:
  assumes "judged ls P k rq ev tool i out"
  obtains body params body1 params1 pii gw1 where "read_request ls rq = Inr (body, i, params)"
    "redact_stage ls pii_redactor_new body params = Some (body1, params1, pii)" "tool = tool_name_of params"
    "gw1 \<in> set P" "k < length (handlers gw1)" "h_state (handlers gw1 ! k) = Ready tool i body1 params1 pii"
    "snd (policy_stage ls ev (context_of ls rq) body1 params1 pii (gw_proxy gw1)) = out"
  using assms by (auto simp: judged_def prepared_def ready_at_def)

lemma started_sent:
  assumes "startup ls parse_addr vars bind fs is_dir listing = Listening addr gw0" and "gateway_run ls gw0 (gw # past)"
  obtains ks where "distinct ks" "set ks = {k. k < length (handlers gw) \<and> forwarded (handlers gw ! k)}"
    "length ks = length (client (gw_proxy gw))"
    "\<And>n. n < length ks \<Longrightarrow>
       sent_by ls (target_base (gw_proxy gw0)) past (handlers gw) (ks ! n) (client (gw_proxy gw) ! n)"
proof -
  have "dispatch_log ls (target_base (gw_proxy gw0)) past (handlers gw) (client (gw_proxy gw))"
    using started_history [OF assms] by (simp add: history_def)
  then obtain ks where ks: "distinct ks" "set ks = {k. k < length (handlers gw) \<and> forwarded (handlers gw ! k)}"
    "list_all2 (sent_by ls (target_base (gw_proxy gw0)) past (handlers gw)) ks (client (gw_proxy gw))"
    by (auto simp: dispatch_log_def)
  from that [OF ks(1,2) list_all2_lengthD [OF ks(3)] list_all2_nthD [OF ks(3)]] show ?thesis .
qed


lemma started_identified:
  assumes "startup ls parse_addr vars bind fs is_dir listing = Listening addr gw0" and "gateway_run ls gw0 (gw # past)"
    and "k < length (handlers gw)"
  shows "h_ok (handlers gw ! k)" and "identified ls (handlers gw ! k)"
    and "clearance ls (target_base (gw_proxy gw0)) past k (handlers gw ! k) (h_state (handlers gw ! k))"
proof -
  obtain secret where "gateway_invariant ls secret gw"
    using started_invariant [OF assms(1)] run_reachable [OF assms(2)] by auto
  then show "h_ok (handlers gw ! k)" using assms(3) by (simp add: invariant_defs)
  show "identified ls (handlers gw ! k)"
    and "clearance ls (target_base (gw_proxy gw0)) past k (handlers gw ! k) (h_state (handlers gw ! k))"
    using started_history [OF assms(1,2)] assms(3) by (simp_all add: history_def)
qed

text \<open>
  C1. Only cleared requests leave the gateway, in every interleaving: the requests sent upstream
  belong one to one to the handlers that forwarded, and each of these was authenticated, passed
  the rate limiter, was admitted by the circuit breaker and not denied; its request was decoded
  and its arguments were redacted, and in a state that the gateway really went through, while
  this handler was waiting for its policy, the policy then in force for its tenant let it pass.
  What was sent is the outcome of that decision, addressed to the configured origin.
\<close>

theorem gateway_forwards_only_cleared:
  assumes "startup ls parse_addr vars bind fs is_dir listing = Listening addr gw0"
    and "gateway_run ls gw0 (gw # past)"
  shows "\<exists>ks. distinct ks \<and> length ks = length (client (gw_proxy gw))
    \<and> set ks = {k. k < length (handlers gw) \<and> forwarded (handlers gw ! k)}
    \<and> (\<forall>n < length ks. let h = handlers gw ! (ks ! n); ctx = context_of ls (h_req h)
         in authenticated ctx \<and> passed h \<and> admitted h \<and> \<not> denied h
          \<and> (\<exists>body i params body1 params1 pii body2 decision u. \<exists>gw1 \<in> set past.
               read_request ls (h_req h) = Inr (body, i, params)
               \<and> redact_stage ls pii_redactor_new body params = Some (body1, params1, pii)
               \<and> h_state (handlers gw1 ! (ks ! n)) = Ready (tool_name_of params) i body1 params1 pii
               \<and> snd (policy_stage ls (h_env h) ctx body1 params1 pii (gw_proxy gw1)) = Forward body2 decision
               \<and> upstream_uri ls (target_base (gw_proxy gw0)) (in_uri (h_req h)) = Inr u
               \<and> client (gw_proxy gw) ! n = upstream_request (h_req h) u body2))"
proof -
  obtain ks where ks: "distinct ks" "set ks = {k. k < length (handlers gw) \<and> forwarded (handlers gw ! k)}"
    "length ks = length (client (gw_proxy gw))"
    and by_k: "\<And>n. n < length ks \<Longrightarrow>
       sent_by ls (target_base (gw_proxy gw0)) past (handlers gw) (ks ! n) (client (gw_proxy gw) ! n)"
    by (rule started_sent [OF assms]) blast
  show ?thesis
  proof (intro exI [of _ ks] conjI allI impI ks)
    fix n assume n: "n < length ks"
    let ?h = "handlers gw ! (ks ! n)"
    have k: "ks ! n < length (handlers gw)" and fwd: "forwarded ?h" using ks(2) nth_mem [OF n] by auto
    note hk = started_identified [OF assms k]
    have adm: "passed ?h" "admitted ?h" "\<not> denied ?h" using h_ok_facts [OF hk(1)] fwd by blast+
    obtain tool i decision body2 u where
      j: "judged ls past (ks ! n) (h_req ?h) (h_env ?h) tool i (Forward body2 decision)"
      and u: "upstream_uri ls (target_base (gw_proxy gw0)) (in_uri (h_req ?h)) = Inr u"
        "client (gw_proxy gw) ! n = upstream_request (h_req ?h) u body2"
      using by_k [OF n] by (auto simp: sent_by_def dispatched_def)
    show "let h = ?h; ctx = context_of ls (h_req h)
         in authenticated ctx \<and> passed h \<and> admitted h \<and> \<not> denied h
          \<and> (\<exists>body i params body1 params1 pii body2 decision u. \<exists>gw1 \<in> set past.
               read_request ls (h_req h) = Inr (body, i, params)
               \<and> redact_stage ls pii_redactor_new body params = Some (body1, params1, pii)
               \<and> h_state (handlers gw1 ! (ks ! n)) = Ready (tool_name_of params) i body1 params1 pii
               \<and> snd (policy_stage ls (h_env h) ctx body1 params1 pii (gw_proxy gw1)) = Forward body2 decision
               \<and> upstream_uri ls (target_base (gw_proxy gw0)) (in_uri (h_req h)) = Inr u
               \<and> client (gw_proxy gw) ! n = upstream_request (h_req h) u body2)"
      unfolding Let_def using adm hk(2) u by - (rule judgedE [OF j], blast)
  qed
qed

theorem gateway_forwards_only_cleared_witness:
  "\<exists>gw past. gateway_run demo_libs demo_start (gw # past) \<and> length (client (gw_proxy gw)) = 1
     \<and> (\<exists>k < length (handlers gw). admitted (handlers gw ! k)
          \<and> (\<exists>gw1 \<in> set past. \<exists>tool i body params pii. h_state (handlers gw1 ! k) = Ready tool i body params pii))"
proof -
  obtain gw where gw: "gateway_reachable demo_libs demo_start gw" "length (client (gw_proxy gw)) = 1"
    by (rule demo_reachable_sent)
  obtain past where past: "gateway_run demo_libs demo_start (gw # past)" using reachable_run [OF gw(1)] by blast
  obtain ks where ks: "length ks = 1" "set ks = {k. k < length (handlers gw) \<and> forwarded (handlers gw ! k)}"
    and all: "admitted (handlers gw ! (ks ! 0))"
      "\<exists>gw1 \<in> set past. \<exists>tool i body params pii. h_state (handlers gw1 ! (ks ! 0)) = Ready tool i body params pii"
    using gateway_forwards_only_cleared [OF demo_startup past] gw(2) unfolding Let_def by fastforce
  have "ks ! 0 < length (handlers gw)" using ks nth_mem [of 0 ks] by auto
  with all past gw(2) show ?thesis by blast
qed

lemma forwarded_answer:
  assumes "startup ls parse_addr vars bind fs is_dir listing = Listening addr gw0"
    and "gateway_run ls gw0 (gw # past)"
    and "k < length (handlers gw)" and "h_state (handlers gw ! k) = Done r"
    and "forwarded (handlers gw ! k)"
  defines "h \<equiv> handlers gw ! k"
  shows "\<exists>body i params u body2. read_request ls (h_req h) = Inr (body, i, params)
    \<and> upstream_request (h_req h) u body2 \<in> set (client (gw_proxy gw))
    \<and> r = Responded (upstream_answer ls i (upstream (h_env h) (upstream_request (h_req h) u body2)))"
proof -
  obtain n where n: "n < length (client (gw_proxy gw))"
    and by_k: "sent_by ls (target_base (gw_proxy gw0)) past (handlers gw) k (client (gw_proxy gw) ! n)"
    using started_sent [OF assms(1,2)] assms(3,5) by (metis (mono_tags, lifting) in_set_conv_nth mem_Collect_eq)
  then obtain tool i decision body2 u where
    j: "judged ls past k (h_req h) (h_env h) tool i (Forward body2 decision)"
    and u: "client (gw_proxy gw) ! n = upstream_request (h_req h) u body2"
    and "replies ls tool i decision (client (gw_proxy gw) ! n) h"
    by (auto simp: sent_by_def dispatched_def h_def)
  then have "r = Responded (upstream_answer ls i (upstream (h_env h) (upstream_request (h_req h) u body2)))"
    using assms(4) by (simp add: replies_def h_def)
  moreover obtain body params where "read_request ls (h_req h) = Inr (body, i, params)" by (rule judgedE [OF j])
  moreover have "upstream_request (h_req h) u body2 \<in> set (client (gw_proxy gw))" using n u nth_mem by metis
  ultimately show ?thesis by blast
qed

lemma denied_answer:
  assumes "denied h" and "answered ls base P k h r" and "\<not> (forwarded h \<and> denied h)"
  shows "\<exists>i reason p tool body pii. \<exists>gw1 \<in> set P. h_state (handlers gw1 ! k) = Ready tool i body (Some p) pii
    \<and> policy_verdict ls (h_env h) (h_context ls h) p (gw_proxy gw1) = Inr (Deny reason)
    \<and> r = Responded (json_rpc_error_response (lib_sj ls) 403 i (GuardrailViolation reason))"
proof -
  obtain tool i reason where j: "judged ls P k (h_req h) (h_env h) tool i (Denied reason)"
    and r: "r = Responded (json_rpc_error_response (lib_sj ls) 403 i (GuardrailViolation reason))"
    using assms by (auto simp: answered_def Let_def)
  from j obtain body1 params1 pii gw1 where gw1: "gw1 \<in> set P" "h_state (handlers gw1 ! k) = Ready tool i body1 params1 pii"
    "snd (policy_stage ls (h_env h) (h_context ls h) body1 params1 pii (gw_proxy gw1)) = Denied reason"
    by (rule judgedE)
  then obtain p where "params1 = Some p" "policy_verdict ls (h_env h) (h_context ls h) p (gw_proxy gw1) = Inr (Deny reason)"
    by (auto simp: policy_stage_denied_iff)
  with gw1 r show ?thesis by blast
qed

lemma refused_answer:
  assumes "answered ls base P k h r" and "h_ok h" and "identified ls h"
  shows "admitted h \<and> \<not> forwarded h \<and> \<not> denied h \<Longrightarrow>
      r = Panicked \<or> (\<exists>response. r = Responded response \<and> status response \<in> {400, 502})"
    and "passed h \<and> \<not> admitted h \<Longrightarrow> \<exists>msg. r = Responded (json_rpc_error_response (lib_sj ls) 429 JNull (CircuitOpen msg))"
    and "\<not> passed h \<and> \<not> special_path ls (h_req h) \<and> authenticated (h_context ls h) \<Longrightarrow>
      r = Responded (json_rpc_error_response (lib_sj ls) 429 JNull RateLimitExceeded)"
    and "\<not> special_path ls (h_req h) \<and> \<not> authenticated (h_context ls h) \<Longrightarrow>
      r = Responded (json_rpc_error_response (lib_sj ls) 401 JNull (Unauthorized ''missing or invalid bearer token''))"
proof -
  note ok = h_ok_facts [OF assms(2)]
  show "r = Panicked \<or> (\<exists>response. r = Responded response \<and> status response \<in> {400, 502})"
    if "admitted h \<and> \<not> forwarded h \<and> \<not> denied h"
    using that assms(1) by (auto simp: answered_def Let_def json_rpc_error_response_def dest: read_refused)
  show "\<exists>msg. r = Responded (json_rpc_error_response (lib_sj ls) 429 JNull (CircuitOpen msg))"
    if "passed h \<and> \<not> admitted h"
    using that assms(1) ok(2,3) by (auto simp: answered_def Let_def split: if_splits)
  have quiet: "\<not> passed h \<Longrightarrow> \<not> forwarded h \<and> \<not> denied h \<and> \<not> admitted h" using ok by blast
  show "r = Responded (json_rpc_error_response (lib_sj ls) 429 JNull RateLimitExceeded)"
    if "\<not> passed h \<and> \<not> special_path ls (h_req h) \<and> authenticated (h_context ls h)"
    using that quiet assms(1) by (simp add: answered_def Let_def)
  show "r = Responded (json_rpc_error_response (lib_sj ls) 401 JNull (Unauthorized ''missing or invalid bearer token''))"
    if "\<not> special_path ls (h_req h) \<and> \<not> authenticated (h_context ls h)"
    using that quiet assms(1,3) by (simp add: answered_def Let_def)
qed

text \<open>
  C13. Every answer has its reason, in every interleaving. A handler that has finished after
  forwarding answers with the upstream server's response to the very request that was sent for
  it, or with 502; a denied one with 403 and the reason that the policy in force gave while the
  handler was waiting for it; an admitted one that did neither with 400 or 502, or its task
  panicked; one that passed the limiter only with the breaker's 429; an authenticated one that
  did not pass with the limiter's 429; and an unauthenticated one with 401, outside the
  management routes.
\<close>

theorem gateway_answers:
  assumes "startup ls parse_addr vars bind fs is_dir listing = Listening addr gw0"
    and "gateway_run ls gw0 (gw # past)"
    and "k < length (handlers gw)" and "h_state (handlers gw ! k) = Done r"
  shows "let h = handlers gw ! k; rq = h_req h; ev = h_env h; ctx = context_of ls rq;
             reply = json_rpc_error_response (lib_sj ls)
    in (forwarded h \<longrightarrow> (\<exists>body i params u body2. read_request ls rq = Inr (body, i, params)
          \<and> upstream_request rq u body2 \<in> set (client (gw_proxy gw))
          \<and> r = Responded (case upstream ev (upstream_request rq u body2) of
                  Inr response \<Rightarrow> relay_response (lib_sj ls) response
                | Inl e \<Rightarrow> reply 502 i (InternalError (''upstream MCP server is unavailable: '' @ e)))))
     \<and> (denied h \<longrightarrow> (\<exists>i reason p tool body pii. \<exists>gw1 \<in> set past.
          h_state (handlers gw1 ! k) = Ready tool i body (Some p) pii
          \<and> policy_verdict ls ev ctx p (gw_proxy gw1) = Inr (Deny reason)
          \<and> r = Responded (reply 403 i (GuardrailViolation reason))))
     \<and> (admitted h \<and> \<not> forwarded h \<and> \<not> denied h \<longrightarrow>
          r = Panicked \<or> (\<exists>response. r = Responded response \<and> status response \<in> {400, 502}))
     \<and> (passed h \<and> \<not> admitted h \<longrightarrow> (\<exists>msg. r = Responded (reply 429 JNull (CircuitOpen msg))))
     \<and> (\<not> passed h \<and> \<not> special_path ls rq \<and> authenticated ctx \<longrightarrow> r = Responded (reply 429 JNull RateLimitExceeded))
     \<and> (\<not> special_path ls rq \<and> \<not> authenticated ctx \<longrightarrow>
          r = Responded (reply 401 JNull (Unauthorized ''missing or invalid bearer token'')))"
proof -
  let ?h = "handlers gw ! k" and ?base = "target_base (gw_proxy gw0)"
  note hk = started_identified [OF assms(1-3)]
  note ok = h_ok_facts [OF hk(1)]
  have ans: "answered ls ?base past k ?h r" using hk(3) assms(4) by simp
  show ?thesis
    unfolding Let_def
    using forwarded_answer [OF assms] denied_answer [OF _ ans ok(5)] refused_answer [OF ans hk(1,2)]
    by (auto simp only: upstream_answer_def)
qed

theorem gateway_answers_witness:
  "\<exists>gw past r. gateway_run demo_libs demo_start (gw # past) \<and> h_state (handlers gw ! 0) = Done (Responded r)
     \<and> forwarded (handlers gw ! 0) \<and> status r = 502"
proof -
  obtain gw h r where gw: "gateway_reachable demo_libs demo_start gw" "handlers gw = [h]" "h_state h = Done r" "forwarded h"
    "h_req h = demo_request ''GET'' ''x''" "h_env h = demo_env"
    by (rule demo_reachable_done)
  obtain past where past: "gateway_run demo_libs demo_start (gw # past)" using reachable_run [OF gw(1)] by blast
  have "upstream demo_env req = Inl ''down''" for req by (simp add: demo_env_def)
  with gateway_answers [OF demo_startup past, of 0 r] gw have "\<exists>x. r = Responded x \<and> status x = 502"
    by (auto simp: Let_def json_rpc_error_response_def)
  with past gw show ?thesis by (intro exI [of _ gw] exI [of _ past]) auto
qed






section \<open>The default policy\<close>

text \<open>
  One step of the run was the hot reload of the default engine from a file that compiles.
\<close>

definition default_loaded :: "'c libs \<Rightarrow> 'c gateway list \<Rightarrow> bool" where
  "default_loaded ls gws \<longleftrightarrow> (\<exists>later gw2 gw1 earlier fs path c. gws = later @ gw2 # gw1 # earlier
     \<and> component_from_file (lib_wl ls) fs path = Inr c
     \<and> default_engine (policy_registry (gw_proxy gw2))
         = reload_policy (lib_wl ls) fs path (default_engine (policy_registry (gw_proxy gw1)))
     \<and> component (default_engine (policy_registry (gw_proxy gw2))) = Some c)"

lemma default_loaded_Cons: "default_loaded ls gws \<Longrightarrow> default_loaded ls (gw # gws)"
  unfolding default_loaded_def by (metis append_Cons)

lemma reload_policy_cases:
  "reload_policy wl fs path eng = eng
   \<or> (\<exists>c. component_from_file wl fs path = Inr c \<and> component (reload_policy wl fs path eng) = Some c)"
  by (auto simp: reload_policy_def load_component_from_file_def split: sum.splits)

lemma step_default_engine:
  assumes "gateway_step ls gw gw'"
  shows "default_engine (policy_registry (gw_proxy gw')) = default_engine (policy_registry (gw_proxy gw))
    \<or> default_loaded ls (gw' # gw # past)"
  using assms
proof cases
  case (default_reload fs path)
  let ?eng = "default_engine (policy_registry (gw_proxy gw))"
  have new: "default_engine (policy_registry (gw_proxy gw')) = reload_policy (lib_wl ls) fs path ?eng"
    using default_reload by simp
  show ?thesis
  proof (cases "reload_policy (lib_wl ls) fs path ?eng = ?eng")
    case False
    then obtain c where "component_from_file (lib_wl ls) fs path = Inr c"
      "component (reload_policy (lib_wl ls) fs path ?eng) = Some c" using reload_policy_cases by blast
    with new have "default_loaded ls ([] @ gw' # gw # past)" unfolding default_loaded_def by metis
    then show ?thesis by simp
  qed (simp add: new)
qed (auto dest: handler_step_registry)

lemma run_default_engine:
  assumes "gateway_run ls gw0 gws" and "component (default_engine (policy_registry (gw_proxy gw0))) = None"
  shows "component (default_engine (policy_registry (gw_proxy (hd gws)))) = None \<or> default_loaded ls gws"
  using assms(1)
proof induction
  case (extend_run gw past gw')
  with step_default_engine [OF extend_run.hyps(2), of past] show ?case by (auto intro: default_loaded_Cons)
qed (simp add: assms(2))

lemma startup_default_engine:
  assumes "startup ls parse_addr vars bind fs is_dir listing = Listening addr gw0"
  shows "component (default_engine (policy_registry (gw_proxy gw0))) = None"
  using assms
  by (auto simp: startup_def Let_def policy_engine_new_def with_sandbox_config_def policy_watcher_new_def
      registry_new_def proxy_new_def gateway_new_def split: sum.splits option.splits if_splits)

text \<open>
  C40. The default policy is missing until it is hot-reloaded: in every state of every run from
  start-up, whatever policy files the directory held then, a tool call of a tenant without an
  engine of its own is evaluated to the error that the pipeline treats as permission, unless
  one of the steps of the run so far was a reload of the default engine from a file that compiles.
\<close>

theorem startup_without_default_policy:
  assumes "startup ls parse_addr vars bind fs is_dir listing = Listening addr gw0"
    and "gateway_run ls gw0 (gw # past)"
    and "tenant_id ctx \<notin> tenant_ids (policy_registry (gw_proxy gw))"
  shows "policy_verdict ls ev ctx p (gw_proxy gw) = Inl (WasmExecutionError ''no policy component has been loaded'')
    \<or> (\<exists>later gw2 gw1 earlier fs path c. gw # past = later @ gw2 # gw1 # earlier
       \<and> component_from_file (lib_wl ls) fs path = Inr c
       \<and> default_engine (policy_registry (gw_proxy gw2))
           = reload_policy (lib_wl ls) fs path (default_engine (policy_registry (gw_proxy gw1)))
       \<and> component (default_engine (policy_registry (gw_proxy gw2))) = Some c)"
proof -
  have "registry_get (policy_registry (gw_proxy gw)) (tenant_id ctx) = default_engine (policy_registry (gw_proxy gw))"
    using assms(3) by (auto simp: registry_get_def tenant_ids_def split: option.splits)
  then have "policy_verdict ls ev ctx p (gw_proxy gw) = Inl (WasmExecutionError ''no policy component has been loaded'')"
    if "component (default_engine (policy_registry (gw_proxy gw))) = None"
    using that by (simp add: policy_verdict_def evaluate_call_def evaluate_policy_def)
  with run_default_engine [OF assms(2) startup_default_engine [OF assms(1)]] show ?thesis
    unfolding default_loaded_def by auto
qed

theorem startup_without_default_policy_witness:
  "\<exists>addr gw0 gw. startup demo_libs (\<lambda>s. None) Map.empty (\<lambda>a. None) (\<lambda>path. Some ''sample'') (\<lambda>d. True) (\<lambda>d. Some [])
       = Listening addr gw0
     \<and> gateway_run demo_libs gw0 [gw, gw0]
     \<and> policy_verdict demo_libs demo_env bot_context drop_call (gw_proxy gw)
         = Inl (WasmExecutionError ''no policy component has been loaded'')"
proof -
  obtain addr gw0 where s: "startup demo_libs (\<lambda>s. None) Map.empty (\<lambda>a. None) (\<lambda>path. Some ''sample'') (\<lambda>d. True) (\<lambda>d. Some [])
      = Listening addr gw0" and reg: "engines (policy_registry (gw_proxy gw0)) = Map.empty" and "running gw0"
    by (simp add: startup_def Let_def policy_engine_new_def with_sandbox_config_def timed_runtime_def demo_libs_def
        demo_base_def proxy_new_def registry_new_def load_all_from_dir_def gateway_new_def)
  let ?gw = "gw0\<lparr>handlers := handlers gw0 @ [new_handler (demo_request ''POST'' drop_body) demo_env]\<rparr>"
  have run: "gateway_run demo_libs gw0 [?gw, gw0]"
    using gateway_step.accept [OF \<open>running gw0\<close>] by (rule gateway_run.extend_run [OF gateway_run.begin_run])
  have none: "component (default_engine (policy_registry (gw_proxy x))) = None" if "x \<in> set [?gw, gw0]" for x
    using startup_default_engine [OF s] that by auto
  have later: "x \<in> set [?gw, gw0]" if "[?gw, gw0] = later @ x # y # earlier" for later x y earlier
    using that by (metis in_set_conv_decomp)
  have "tenant_id bot_context \<notin> tenant_ids (policy_registry (gw_proxy ?gw))" by (simp add: tenant_ids_def reg)
  from startup_without_default_policy [OF s run this, of demo_env drop_call]
  have "policy_verdict demo_libs demo_env bot_context drop_call (gw_proxy ?gw)
      = Inl (WasmExecutionError ''no policy component has been loaded'')"
    using none later by (metis option.distinct(1))
  with s run show ?thesis by blast
qed

end
