(* ===== verification/Unit_Tests.thy ===== *)
theory Unit_Tests
  imports Protocol Circuit_Breaker Rate_Limit Config Identity Metrics Audit_Writer Policy_Registry
begin

text \<open>
  The unit tests of the other modules on the model. A test that runs in time takes the instants
  of its calls, one that calls a third-party library takes that library: what is shown is that
  the test passes at all instants and for all libraries that satisfy the conditions named. The
  tests that only initialise an engine, start and abort a task or compare the addresses of
  shared handles are not here.
\<close>

section \<open>Protocol (safegate-core)\<close>

definition request_round_trips_through_json :: "serde_lib \<Rightarrow> bool" where
  "request_round_trips_through_json sj \<longleftrightarrow>
     (let request = \<lparr>req_jsonrpc = ''2.0'', req_id = JString ''request-42'', req_method = ''tools/call'',
            req_params = Some (value_of (JObject [(''name'', JString ''lookup''),
              (''arguments'', JObject [(''query'', JString ''SafeGate'')])]))\<rparr>
      in request_from_slice sj (json_print sj (encode_request request)) = Inr request)"

definition response_round_trips_through_json :: "serde_lib \<Rightarrow> bool" where
  "response_round_trips_through_json sj \<longleftrightarrow>
     (let response = \<lparr>resp_jsonrpc = ''2.0'', resp_id = JNumber (PosInt 42), resp_result = None,
            resp_error = Some \<lparr>err_code = -32600, err_message = ''Invalid Request'',
              err_data = Some (JObject [(''reason'', JString ''missing method'')])\<rparr>\<rparr>
      in case json_scan sj (json_print sj (encode_response response)) of
           Inl e \<Rightarrow> False
         | Inr d \<Rightarrow> decode_response (read_value sj (RECURSION_LIMIT - 1)) (read_value sj (RECURSION_LIMIT - 2)) d
                     = Inr response)"

lemma protocol_tests:
  assumes "serde_json sj"
  shows "request_round_trips_through_json sj" and "response_round_trips_through_json sj"
proof -
  let ?params = "JObject [(''arguments'', JObject [(''query'', JString ''SafeGate'')]), (''name'', JString ''lookup'')]"
  have v: "value_of (JObject [(''name'', JString ''lookup''), (''arguments'', JObject [(''query'', JString ''SafeGate'')])]) = ?params"
    by code_simp
  have "canonical ?params" unfolding v [symmetric] by (rule canonical_value_of)
  then show "request_round_trips_through_json sj"
    unfolding request_round_trips_through_json_def Let_def v
    by (intro serde_json.request_text_round_trip [OF assms]) (simp add: wf_request_def is_value_def exact_numbers_def RECURSION_LIMIT_def)
  have "number_value sj (PosInt 42) = Some (PosInt 42)" by (intro serde_json.number_value_u64 [OF assms]) simp
  then show "response_round_trips_through_json sj"
    unfolding response_round_trips_through_json_def Let_def
    using serde_json.response_text_round_trip [OF assms, of "\<lparr>resp_jsonrpc = ''2.0'', resp_id = JNumber (PosInt 42),
      resp_result = None, resp_error = Some \<lparr>err_code = -32600, err_message = ''Invalid Request'',
        err_data = Some (JObject [(''reason'', JString ''missing method'')])\<rparr>\<rparr>"]
    by (auto simp: wf_response_def is_value_def exact_numbers_def RECURSION_LIMIT_def)
qed

section \<open>Circuit breaker (safegate-proxy)\<close>

definition permits_requests_when_below_threshold :: "instant \<Rightarrow> instant \<Rightarrow> instant \<Rightarrow> bool" where
  "permits_requests_when_below_threshold t1 t2 t3 \<longleftrightarrow>
     (let cb = with_params 3 (from_secs 10) (from_secs 1);
          cb = record_failure cb ''agent-1'' t1;
          cb = record_failure cb ''agent-1'' t2
      in is_ok (snd (check cb ''agent-1'' t3)))"

definition trips_circuit_when_threshold_reached :: "instant \<Rightarrow> instant \<Rightarrow> instant \<Rightarrow> instant \<Rightarrow> bool" where
  "trips_circuit_when_threshold_reached t1 t2 t3 t4 \<longleftrightarrow>
     (let cb = with_params 3 (from_secs 10) (from_secs 5);
          cb = record_failure cb ''agent-1'' t1;
          cb = record_failure cb ''agent-1'' t2;
          cb = record_failure cb ''agent-1'' t3
      in case snd (check cb ''agent-1'' t4) of
           Inl (CircuitOpen msg) \<Rightarrow> contains msg ''agent-1''
         | _ \<Rightarrow> False)"

definition resets_after_cooldown_expires :: "instant \<Rightarrow> instant \<Rightarrow> instant \<Rightarrow> instant \<Rightarrow> bool" where
  "resets_after_cooldown_expires t1 t2 t3 t4 \<longleftrightarrow>
     (let cb = with_params 2 (from_secs 10) (from_millis 50);
          cb = record_failure cb ''agent-2'' t1;
          cb = record_failure cb ''agent-2'' t2;
          (cb, r3) = check cb ''agent-2'' t3;
          (cb, r4) = check cb ''agent-2'' t4
      in \<not> is_ok r3 \<and> is_ok r4)"

definition isolates_failures_per_agent :: "instant \<Rightarrow> instant \<Rightarrow> instant \<Rightarrow> instant \<Rightarrow> bool" where
  "isolates_failures_per_agent t1 t2 t3 t4 \<longleftrightarrow>
     (let cb = with_params 2 (from_secs 10) (from_secs 5);
          cb = record_failure cb ''agent-bad'' t1;
          cb = record_failure cb ''agent-bad'' t2;
          (cb, r3) = check cb ''agent-bad'' t3;
          (cb, r4) = check cb ''agent-good'' t4
      in \<not> is_ok r3 \<and> is_ok r4)"

lemma below_threshold_test: "permits_requests_when_below_threshold t1 t2 t3"
  by (simp add: permits_requests_when_below_threshold_def check_ok_iff circuit_of_record_failure spec_count_def Let_def)

lemma threshold_test:
  assumes "duration_since t2 t1 \<le> from_secs 10" and "duration_since t3 t1 \<le> from_secs 10"
    and "duration_since t3 t2 \<le> from_secs 10" and "duration_since t4 t3 < from_secs 5"
  shows "trips_circuit_when_threshold_reached t1 t2 t3 t4"
  using assms
  by (simp add: trips_circuit_when_threshold_reached_def with_params_def record_failure_def check_def
      agent_circuit_state_new_def quarantine_message_def Let_def)

text \<open>The test fails when the machine is so slow that the first check comes 50 ms after the trip.\<close>

lemma cooldown_test:
  assumes "duration_since t2 t1 \<le> from_secs 10"
  shows "resets_after_cooldown_expires t1 t2 t3 t4 \<longleftrightarrow>
    duration_since t3 t2 < from_millis 50 \<and> from_millis 50 \<le> duration_since t4 t2"
  using assms
  by (auto simp: resets_after_cooldown_expires_def with_params_def record_failure_def check_def
      agent_circuit_state_new_def Let_def)

lemma isolation_test:
  assumes "duration_since t2 t1 \<le> from_secs 10" and "duration_since t3 t2 < from_secs 5"
  shows "isolates_failures_per_agent t1 t2 t3 t4"
  using assms
  by (simp add: isolates_failures_per_agent_def with_params_def record_failure_def check_def
      agent_circuit_state_new_def Let_def)

section \<open>Rate limiter (safegate-proxy)\<close>

definition rejects_requests_after_the_limit_is_reached :: "instant \<Rightarrow> instant \<Rightarrow> instant \<Rightarrow> bool" where
  "rejects_requests_after_the_limit_is_reached t1 t2 t3 \<longleftrightarrow>
     (let rl = rate_limiter_new; win = from_secs 60;
          (rl, r1) = check_rate_limit rl ''agent-a'' 2 win t1;
          (rl, r2) = check_rate_limit rl ''agent-a'' 2 win t2;
          (rl, r3) = check_rate_limit rl ''agent-a'' 2 win t3
      in is_ok r1 \<and> is_ok r2 \<and> r3 = Inl RateLimitExceeded)"

definition permits_requests_after_the_window_expires :: "instant \<Rightarrow> instant \<Rightarrow> bool" where
  "permits_requests_after_the_window_expires t1 t2 \<longleftrightarrow>
     (let rl = rate_limiter_new; win = 0;
          (rl, r1) = check_rate_limit rl ''agent-a'' 1 win t1;
          (rl, r2) = check_rate_limit rl ''agent-a'' 1 win t2
      in is_ok r1 \<and> is_ok r2)"

lemma limit_test:
  "duration_since t2 t1 < from_secs 60 \<Longrightarrow> duration_since t3 t1 < from_secs 60 \<Longrightarrow> duration_since t3 t2 < from_secs 60 \<Longrightarrow>
   rejects_requests_after_the_limit_is_reached t1 t2 t3"
  by (simp add: rejects_requests_after_the_limit_is_reached_def check_rate_limit_def timestamps_of_def rate_limiter_new_def Let_def)

lemma window_test: "permits_requests_after_the_window_expires t1 t2"
  by (simp add: permits_requests_after_the_window_expires_def check_rate_limit_def timestamps_of_def rate_limiter_new_def Let_def)

section \<open>Configuration and identity (safegate-proxy)\<close>

definition default_config_has_expected_values :: bool where
  "default_config_has_expected_values \<longleftrightarrow>
     listen_addr default_config = SocketAddrV4 [0, 0, 0, 0] 8080
     \<and> target_mcp_url default_config = ''http://127.0.0.1:3000''"

definition loads_override_values_from_env :: "(string \<Rightarrow> SocketAddr option) \<Rightarrow> (string \<rightharpoonup> string) \<Rightarrow> bool" where
  "loads_override_values_from_env parse_addr vars \<longleftrightarrow>
     (let vars = vars(''SAFEGATE_LISTEN_ADDR'' \<mapsto> ''127.0.0.1:9090'', ''SAFEGATE_TARGET_MCP_URL'' \<mapsto> ''http://mcp-server:5000'',
            ''SAFEGATE_POLICY_DIR'' \<mapsto> ''/custom/policies'');
          config = from_env parse_addr vars
      in listen_addr config = SocketAddrV4 [127, 0, 0, 1] 9090 \<and> target_mcp_url config = ''http://mcp-server:5000''
       \<and> policy_dir config = ''/custom/policies'')"

lemma config_tests:
  "default_config_has_expected_values"
  "parse_addr ''127.0.0.1:9090'' = Some (SocketAddrV4 [127, 0, 0, 1] 9090) \<Longrightarrow> loads_override_values_from_env parse_addr vars"
proof -
  show "default_config_has_expected_values" by code_simp
  have "\<not> trim_is_empty ''http://mcp-server:5000''" "\<not> trim_is_empty ''/custom/policies''" by code_simp+
  then show "parse_addr ''127.0.0.1:9090'' = Some (SocketAddrV4 [127, 0, 0, 1] 9090) \<Longrightarrow> loads_override_values_from_env parse_addr vars"
    by (simp add: loads_override_values_from_env_def from_env_def Let_def split: option.splits)
qed

definition extracts_supplied_agent_and_tenant_headers :: "(string \<Rightarrow> string option) \<Rightarrow> bool" where
  "extracts_supplied_agent_and_tenant_headers to_str \<longleftrightarrow>
     (let headers = header_insert [] ''x-agent-id'' ''research-agent'';
          headers = header_insert headers ''x-tenant-id'' ''tenant-acme'';
          headers = header_insert headers ''authorization'' ''Bearer safegate-dev-token'';
          ctx = extract_agent_context to_str headers
      in agent_id ctx = ''research-agent'' \<and> tenant_id ctx = ''tenant-acme'' \<and> authenticated ctx \<and> roles ctx = [])"

definition uses_anonymous_agent_when_agent_header_is_missing :: "(string \<Rightarrow> string option) \<Rightarrow> bool" where
  "uses_anonymous_agent_when_agent_header_is_missing to_str \<longleftrightarrow>
     (let headers = header_insert [] ''authorization'' (''Bearer '' @ DEVELOPMENT_BEARER_TOKEN);
          ctx = extract_agent_context to_str headers
      in agent_id ctx = ''anonymous_agent'' \<and> tenant_id ctx = ''default_tenant'' \<and> authenticated ctx)"

definition rejects_missing_or_invalid_bearer_tokens :: "(string \<Rightarrow> string option) \<Rightarrow> bool" where
  "rejects_missing_or_invalid_bearer_tokens to_str \<longleftrightarrow>
     (let headers = header_insert [] ''authorization'' ''Bearer invalid-token''
      in \<not> authenticated (extract_agent_context to_str headers) \<and> \<not> authenticated (extract_agent_context to_str []))"

lemma identity_tests:
  "extracts_supplied_agent_and_tenant_headers visible_ascii"
  "uses_anonymous_agent_when_agent_header_is_missing visible_ascii"
  "rejects_missing_or_invalid_bearer_tokens visible_ascii"
  by code_simp+

section \<open>Metrics (safegate-proxy)\<close>

definition gather_metrics_text_returns_valid_prometheus_output :: "prometheus_lib \<Rightarrow> Metrics \<Rightarrow> bool" where
  "gather_metrics_text_returns_valid_prometheus_output pl m \<longleftrightarrow>
     (case snd (gather_metrics_text pl m) of Inl e \<Rightarrow> False | Inr text \<Rightarrow> contains text ''# HELP'' \<or> text = [])"

definition policy_decisions_counter_increments_correctly :: "Metrics \<Rightarrow> bool" where
  "policy_decisions_counter_increments_correctly m \<longleftrightarrow>
     (let before = policy_decisions_total m ''deny'';
          m = inc_policy_decisions ''deny'' m;
          m = inc_policy_decisions ''deny'' m
      in policy_decisions_total m ''deny'' - before = 2)"

definition http_requests_total_counter_increments_correctly :: "Metrics \<Rightarrow> bool" where
  "http_requests_total_counter_increments_correctly m \<longleftrightarrow>
     (let before = http_requests_total m (''200'', ''test-tenant'');
          m = inc_http_requests ''200'' ''test-tenant'' m
      in http_requests_total m (''200'', ''test-tenant'') - before = 1)"

definition gather_metrics_text_contains_all_metric_families :: "prometheus_lib \<Rightarrow> Metrics \<Rightarrow> bool" where
  "gather_metrics_text_contains_all_metric_families pl m \<longleftrightarrow>
     (let m = inc_http_requests ''200'' ''init-tenant'' m;
          m = inc_policy_decisions ''allow'' m;
          m = observe_proxy_latency (from_millis 1) m;
          m = observe_wasm_latency (from_millis 1) m
      in case snd (gather_metrics_text pl m) of
           Inl e \<Rightarrow> False
         | Inr text \<Rightarrow>
             contains text ''http_requests_total'' \<and> contains text ''policy_decisions_total''
             \<and> contains text ''proxy_latency_seconds'' \<and> contains text ''wasm_execution_latency_seconds'')"

text \<open>
  The text format: every registered family that was touched is named, with a \<open># HELP\<close> line, and
  the text is UTF-8.
\<close>

definition text_format :: "prometheus_lib \<Rightarrow> bool" where
  "text_format pl \<longleftrightarrow>
     (\<forall>m. \<exists>text. encode_text pl m = Inr text \<and> utf8_error pl text = None \<and> (contains text ''# HELP'' \<or> text = [])
        \<and> (\<forall>name \<in> set (registered m).
             (name = ''http_requests_total'' \<longrightarrow> (\<exists>k. http_requests_total m k > 0)) \<longrightarrow>
             (name = ''policy_decisions_total'' \<longrightarrow> (\<exists>k. policy_decisions_total m k > 0)) \<longrightarrow> contains text name))"

lemma metrics_tests:
  "policy_decisions_counter_increments_correctly m" "http_requests_total_counter_increments_correctly m"
  by (simp_all add: policy_decisions_counter_increments_correctly_def http_requests_total_counter_increments_correctly_def
      Let_def)

lemma gather_tests:
  assumes "text_format pl"
  shows "gather_metrics_text_returns_valid_prometheus_output pl m" and "gather_metrics_text_contains_all_metric_families pl m"
proof -
  have "\<exists>text. snd (gather_metrics_text pl m) = Inr text \<and> (contains text ''# HELP'' \<or> text = [])
      \<and> ((\<exists>k. http_requests_total m k > 0) \<longrightarrow> contains text ''http_requests_total'')
      \<and> ((\<exists>k. policy_decisions_total m k > 0) \<longrightarrow> contains text ''policy_decisions_total'')
      \<and> contains text ''proxy_latency_seconds'' \<and> contains text ''wasm_execution_latency_seconds''" for m
  proof -
    let ?m = "fst (gather_metrics_text pl m)"
    obtain out where out: "encode_text pl ?m = Inr out" "utf8_error pl out = None" "contains out ''# HELP'' \<or> out = []"
      "\<forall>name \<in> set (registered ?m). (name = ''http_requests_total'' \<longrightarrow> (\<exists>k. http_requests_total ?m k > 0)) \<longrightarrow>
         (name = ''policy_decisions_total'' \<longrightarrow> (\<exists>k. policy_decisions_total ?m k > 0)) \<longrightarrow> contains out name"
      using assms unfolding text_format_def by blast
    have "{''http_requests_total'', ''policy_decisions_total'', ''proxy_latency_seconds'', ''wasm_execution_latency_seconds''}
        \<subseteq> set (registered ?m)"
      by (simp add: gather_metrics_text_def registered_force Let_def)
    with out(4) have "(\<exists>k. http_requests_total m k > 0) \<longrightarrow> contains out ''http_requests_total''"
      "(\<exists>k. policy_decisions_total m k > 0) \<longrightarrow> contains out ''policy_decisions_total''"
      "contains out ''proxy_latency_seconds''" "contains out ''wasm_execution_latency_seconds''"
      by auto
    moreover have "snd (gather_metrics_text pl m) = Inr out" using out(1,2) by (simp add: gather_metrics_text_def Let_def)
    ultimately show ?thesis using out(3) by blast
  qed
  note gathered = this
  show "gather_metrics_text_returns_valid_prometheus_output pl m"
    using gathered [of m] by (auto simp: gather_metrics_text_returns_valid_prometheus_output_def)
  let ?m = "observe_wasm_latency (from_millis 1) (observe_proxy_latency (from_millis 1)
     (inc_policy_decisions ''allow'' (inc_http_requests ''200'' ''init-tenant'' m)))"
  have "http_requests_total ?m (''200'', ''init-tenant'') > 0" "policy_decisions_total ?m ''allow'' > 0" by simp_all
  then show "gather_metrics_text_contains_all_metric_families pl m"
    using gathered [of ?m] unfolding gather_metrics_text_contains_all_metric_families_def Let_def
    by (auto simp del: inc_simps)
qed

section \<open>Audit records (safegate-audit)\<close>

abbreviation test_secret :: string where
  "test_secret \<equiv> ''test-hmac-secret-key''"

definition test_entry :: "serde_lib \<Rightarrow> audit_lib \<Rightarrow> nat \<Rightarrow> AuditDecision \<Rightarrow> AuditLogEntry" where
  "test_entry sj al now decision =
     entry_new sj al now ''trace-abc-123'' (Some ''tenant-1'') ''agent-x'' ''dangerous_delete'' decision 42 test_secret"

definition allow_entry_signature_verifies :: "serde_lib \<Rightarrow> audit_lib \<Rightarrow> nat \<Rightarrow> bool" where
  "allow_entry_signature_verifies sj al now \<longleftrightarrow> verify sj al (test_entry sj al now AuditAllow) test_secret"

definition deny_entry_signature_verifies_with_correct_key :: "serde_lib \<Rightarrow> audit_lib \<Rightarrow> nat \<Rightarrow> bool" where
  "deny_entry_signature_verifies_with_correct_key sj al now \<longleftrightarrow>
     verify sj al (test_entry sj al now (AuditDeny ''blocked by policy'')) test_secret"

definition redact_entry_signature_verifies :: "serde_lib \<Rightarrow> audit_lib \<Rightarrow> nat \<Rightarrow> bool" where
  "redact_entry_signature_verifies sj al now \<longleftrightarrow>
     verify sj al (test_entry sj al now (AuditRedactArgs ''{\"query\":\"[REDACTED]\"}'')) test_secret"

definition tampered_entry_fails_verification :: "serde_lib \<Rightarrow> audit_lib \<Rightarrow> nat \<Rightarrow> bool" where
  "tampered_entry_fails_verification sj al now \<longleftrightarrow>
     (let entry = test_entry sj al now AuditAllow; entry = entry\<lparr>entry_agent_id := ''evil-agent''\<rparr>
      in \<not> verify sj al entry test_secret)"

definition wrong_key_fails_verification :: "serde_lib \<Rightarrow> audit_lib \<Rightarrow> nat \<Rightarrow> bool" where
  "wrong_key_fails_verification sj al now \<longleftrightarrow> \<not> verify sj al (test_entry sj al now AuditAllow) ''wrong-key''"

definition deny_entry_records_latency :: "serde_lib \<Rightarrow> audit_lib \<Rightarrow> nat \<Rightarrow> bool" where
  "deny_entry_records_latency sj al now \<longleftrightarrow>
     (let entry = test_entry sj al now (AuditDeny ''too dangerous'')
      in entry_latency_us entry = 42 \<and> (case entry_decision entry of AuditDeny r \<Rightarrow> True | _ \<Rightarrow> False))"

definition entry_round_trips_through_json :: "serde_lib \<Rightarrow> audit_lib \<Rightarrow> nat \<Rightarrow> bool" where
  "entry_round_trips_through_json sj al now \<longleftrightarrow>
     (let entry = test_entry sj al now AuditAllow
      in case entry_from_str sj al (json_print sj (encode_entry al entry)) of
           Inl e \<Rightarrow> False
         | Inr decoded \<Rightarrow>
             entry_trace_id entry = entry_trace_id decoded \<and> entry_signature entry = entry_signature decoded
             \<and> verify sj al decoded test_secret)"

lemma signed_verifies: "entry_signature e = compute_signature sj al e key \<Longrightarrow> verify sj al e key"
  by (simp add: verify_def)

lemma test_entry_signed: "entry_signature (test_entry sj al now d) = compute_signature sj al (test_entry sj al now d) test_secret"
  using entry_new_signed [of sj al] by (simp add: test_entry_def)

lemma signature_tests:
  "allow_entry_signature_verifies sj al now" "deny_entry_signature_verifies_with_correct_key sj al now"
  "redact_entry_signature_verifies sj al now" "deny_entry_records_latency sj al now"
proof -
  note verifies = signed_verifies [OF test_entry_signed]
  show "allow_entry_signature_verifies sj al now" "deny_entry_signature_verifies_with_correct_key sj al now"
    "redact_entry_signature_verifies sj al now"
    by (simp_all add: allow_entry_signature_verifies_def deny_entry_signature_verifies_with_correct_key_def
        redact_entry_signature_verifies_def verifies)
  show "deny_entry_records_latency sj al now"
    by (simp add: deny_entry_records_latency_def test_entry_def entry_new_def Let_def)
qed

text \<open>The two tests on forgeries pass unless the MAC collides on the texts it is applied to.\<close>

lemma tampered_test:
  assumes "audit_crates sj al"
    and "inj_on (hmac_sha256 al test_secret)
      (let e = test_entry sj al now AuditAllow; e' = e\<lparr>entry_agent_id := ''evil-agent''\<rparr>
       in {canonical_body sj al e, canonical_body sj al e', entry_signature e', compute_signature sj al e' test_secret})"
  shows "tampered_entry_fails_verification sj al now"
proof -
  let ?e = "test_entry sj al now AuditAllow" and ?e' = "(test_entry sj al now AuditAllow)\<lparr>entry_agent_id := ''evil-agent''\<rparr>"
  have "\<not> same_body ?e ?e'" by (simp add: same_body_def test_entry_def entry_new_def Let_def)
  with audit_crates.tampering [OF assms(1) test_entry_signed, of ?e' now AuditAllow] assms(2)
  show ?thesis by (simp add: tampered_entry_fails_verification_def Let_def)
qed

lemma wrong_key_test:
  assumes "compute_signature sj al (test_entry sj al now AuditAllow) ''wrong-key''
      \<noteq> compute_signature sj al (test_entry sj al now AuditAllow) test_secret"
    and "inj_on (hmac_sha256 al ''wrong-key'') {compute_signature sj al (test_entry sj al now AuditAllow) ''wrong-key'',
      compute_signature sj al (test_entry sj al now AuditAllow) test_secret}"
  shows "wrong_key_fails_verification sj al now"
  using assms by (auto simp: wrong_key_fails_verification_def verify_def test_entry_signed Let_def dest: inj_onD)

lemma round_trip_test:
  assumes "audit_crates sj al"
  shows "entry_round_trips_through_json sj al now"
proof -
  have "entry_latency_us (test_entry sj al now AuditAllow) < 2 ^ 128"
    by (simp add: test_entry_def entry_new_def Let_def)
  with audit_crates.entry_round_trip [OF assms] signed_verifies [OF test_entry_signed] show ?thesis
    by (simp add: entry_round_trips_through_json_def Let_def)
qed

section \<open>Audit writer (safegate-audit)\<close>

abbreviation writer_secret :: string where
  "writer_secret \<equiv> ''writer-test-key''"

definition make_entry :: "serde_lib \<Rightarrow> audit_lib \<Rightarrow> nat \<Rightarrow> string \<Rightarrow> AuditDecision \<Rightarrow> nat \<Rightarrow> AuditLogEntry" where
  "make_entry sj al now uuid decision latency_us =
     entry_new sj al now uuid (Some ''tenant-writer-test'') ''test-agent'' ''lookup'' decision latency_us writer_secret"

text \<open>The content of the file that a logger with working I/O leaves, and its lines.\<close>

definition logged :: "serde_lib \<Rightarrow> audit_lib \<Rightarrow> AuditLogEntry list \<Rightarrow> string" where
  "logged sj al es = writer_task sj al (File ''safegate-audit.jsonl'') True [] (map (\<lambda>e. (e, (IoOk, IoOk, IoOk))) es) IoOk"

definition text_lines :: "string \<Rightarrow> string list" where
  "text_lines s = (let parts = split_char (CHR 0x0A) s in if last parts = [] then butlast parts else parts)"

definition trim :: "string \<Rightarrow> string" where
  "trim s = (let sp = (\<lambda>c. c \<in> {CHR '' '', CHR 0x09, CHR 0x0A, CHR 0x0B, CHR 0x0C, CHR 0x0D})
     in rev (dropWhile sp (rev (dropWhile sp s))))"

definition logger_writes_entries_to_file :: "serde_lib \<Rightarrow> audit_lib \<Rightarrow> nat \<Rightarrow> nat \<Rightarrow> string \<Rightarrow> string \<Rightarrow> bool" where
  "logger_writes_entries_to_file sj al t1 t2 uuid1 uuid2 \<longleftrightarrow>
     (let content = logged sj al
            [make_entry sj al t1 uuid1 AuditAllow 100, make_entry sj al t2 uuid2 (AuditDeny ''blocked'') 250]
      in length (text_lines content) = 2
       \<and> (\<forall>line \<in> set (text_lines content).
            case entry_from_str sj al line of Inl e \<Rightarrow> False | Inr entry \<Rightarrow> verify sj al entry writer_secret))"

definition deny_entry_latency_is_preserved_through_file_roundtrip :: "serde_lib \<Rightarrow> audit_lib \<Rightarrow> nat \<Rightarrow> string \<Rightarrow> bool" where
  "deny_entry_latency_is_preserved_through_file_roundtrip sj al t uuid \<longleftrightarrow>
     (let content = logged sj al [make_entry sj al t uuid (AuditDeny ''policy violation'') 999]
      in case entry_from_str sj al (trim content) of
           Inl e \<Rightarrow> False
         | Inr entry \<Rightarrow>
             entry_latency_us entry = 999 \<and> (case entry_decision entry of AuditDeny r \<Rightarrow> True | _ \<Rightarrow> False)
             \<and> verify sj al entry writer_secret)"

lemma make_entry_facts:
  "verify sj al (make_entry sj al t uuid d l) writer_secret" "entry_latency_us (make_entry sj al t uuid d l) = l"
  "entry_decision (make_entry sj al t uuid d l) = d"
  using signed_verifies [OF entry_new_signed [of sj al]] by (simp_all add: make_entry_def entry_new_def Let_def)

lemma logged_text: "logged sj al es = log_text sj al es"
  by (simp add: logged_def writer_task_def write_entries_ok o_def)

lemma logged_lines:
  assumes "json_lines sj al"
  shows "text_lines (logged sj al es) = map (\<lambda>e. json_print sj (encode_entry al e)) es"
  using json_lines.log_text_lines [OF assms, of es] by (simp add: logged_text text_lines_def Let_def)

lemma trim_line:
  assumes "json_print sj (encode_entry al e) = ''{'' @ body @ ''}''"
  shows "trim (logged sj al [e]) = json_print sj (encode_entry al e)"
  by (simp add: logged_text trim_def newline_def assms Let_def)

lemma writer_tests:
  assumes "json_lines sj al"
  shows "logger_writes_entries_to_file sj al t1 t2 uuid1 uuid2"
    and "(\<And>kvs. \<exists>body. json_print sj (JObject kvs) = ''{'' @ body @ ''}'') \<Longrightarrow>
      deny_entry_latency_is_preserved_through_file_roundtrip sj al t uuid"
proof -
  have read: "entry_from_str sj al (json_print sj (encode_entry al e)) = Inr e" if "entry_latency_us e < 2 ^ 128" for e
    using assms that unfolding json_lines_def by (blast intro: audit_crates.entry_round_trip)
  then show "logger_writes_entries_to_file sj al t1 t2 uuid1 uuid2"
    by (simp add: logger_writes_entries_to_file_def logged_lines [OF assms] make_entry_facts Let_def)
  assume "\<And>kvs. \<exists>body. json_print sj (JObject kvs) = ''{'' @ body @ ''}''"
  then have "trim (logged sj al [e]) = json_print sj (encode_entry al e)" for e
    using trim_line [of sj al e] unfolding encode_entry_def by blast
  with read show "deny_entry_latency_is_preserved_through_file_roundtrip sj al t uuid"
    by (simp add: deny_entry_latency_is_preserved_through_file_roundtrip_def make_entry_facts Let_def)
qed

section \<open>Policies (safegate-wasm)\<close>

definition dangerous_tools_are_denied :: bool where
  "dangerous_tools_are_denied \<longleftrightarrow>
     (case evaluate_request \<lparr>wit_tool_name = ''drop_table'', wit_arguments_json = ''{}''\<rparr> of Deny r \<Rightarrow> True | _ \<Rightarrow> False)"

definition secret_arguments_are_redacted :: bool where
  "secret_arguments_are_redacted \<longleftrightarrow>
     (case evaluate_request \<lparr>wit_tool_name = ''lookup'', wit_arguments_json = ''{\"secret_key\":\"value\"}''\<rparr> of
        RedactArgs a \<Rightarrow> True | _ \<Rightarrow> False)"

definition defaults_enforce_the_expected_memory_boundary :: bool where
  "defaults_enforce_the_expected_memory_boundary \<longleftrightarrow> max_memory_bytes default_sandbox = 16 * 1024 * 1024"

definition defaults_configure_a_short_epoch_based_timeout :: bool where
  "defaults_configure_a_short_epoch_based_timeout \<longleftrightarrow>
     epoch_deadlines default_sandbox = 1 \<and> EXECUTION_TIMEOUT = from_millis 5"

lemma policy_tests:
  "dangerous_tools_are_denied" "secret_arguments_are_redacted"
  "defaults_enforce_the_expected_memory_boundary" "defaults_configure_a_short_epoch_based_timeout"
proof -
  have "contains ''{\"secret_key\":\"value\"}'' ''secret_key''" by code_simp
  then show "secret_arguments_are_redacted" by (simp add: secret_arguments_are_redacted_def evaluate_request_def)
qed (simp_all add: dangerous_tools_are_denied_def evaluate_request_def defaults_enforce_the_expected_memory_boundary_def
      defaults_configure_a_short_epoch_based_timeout_def default_sandbox_def EXECUTION_TIMEOUT_def)

definition loads_with_controlled_error :: "'c wasm_lib \<Rightarrow> files \<Rightarrow> string \<Rightarrow> bool" where
  "loads_with_controlled_error wl fs path \<longleftrightarrow>
     (case policy_engine_new wl of
        Inl e \<Rightarrow> False
      | Inr eng \<Rightarrow>
          (case load_component_from_file wl fs eng path of (eng', Inl (WasmExecutionError e)) \<Rightarrow> True | _ \<Rightarrow> False))"

definition loading_a_missing_component_returns_a_controlled_wasm_error :: "'c wasm_lib \<Rightarrow> files \<Rightarrow> bool" where
  "loading_a_missing_component_returns_a_controlled_wasm_error wl fs \<longleftrightarrow>
     loads_with_controlled_error wl (fs(''missing-policy-component.wasm'' := None)) ''missing-policy-component.wasm''"

definition loading_a_corrupt_component_returns_a_controlled_wasm_error :: "'c wasm_lib \<Rightarrow> files \<Rightarrow> string \<Rightarrow> bool" where
  "loading_a_corrupt_component_returns_a_controlled_wasm_error wl fs path \<longleftrightarrow>
     loads_with_controlled_error wl (fs(path \<mapsto> ''not a wasm component'')) path"

lemma load_tests:
  assumes "usable wl"
  shows "loading_a_missing_component_returns_a_controlled_wasm_error wl fs"
    and "compile wl ''not a wasm component'' = Inl e \<Longrightarrow>
      loading_a_corrupt_component_returns_a_controlled_wasm_error wl fs path"
proof -
  have "policy_engine_new wl = Inr \<lparr>component = None, sandbox = default_sandbox\<rparr>"
    using assms by (simp add: policy_engine_new_def with_sandbox_usable)
  then show "loading_a_missing_component_returns_a_controlled_wasm_error wl fs"
    "compile wl ''not a wasm component'' = Inl e \<Longrightarrow>
      loading_a_corrupt_component_returns_a_controlled_wasm_error wl fs path"
    by (simp_all add: loading_a_missing_component_returns_a_controlled_wasm_error_def
        loading_a_corrupt_component_returns_a_controlled_wasm_error_def loads_with_controlled_error_def
        load_component_from_file_def component_from_file_def wasm_execution_error_def)
qed

section \<open>Registry and watchers (safegate-wasm)\<close>

definition get_returns_default_for_unknown_tenant :: "'c wasm_lib \<Rightarrow> files \<Rightarrow> 'c WasmPolicyEngine \<Rightarrow> bool" where
  "get_returns_default_for_unknown_tenant wl fs dflt \<longleftrightarrow>
     registry_get (registry_new wl fs False None ''no-such-tenants'' dflt) ''unknown-tenant'' = dflt"

definition tenant_ids_empty_when_no_wasm_files_present :: "'c wasm_lib \<Rightarrow> files \<Rightarrow> string \<Rightarrow> 'c WasmPolicyEngine \<Rightarrow> bool" where
  "tenant_ids_empty_when_no_wasm_files_present wl fs dir dflt \<longleftrightarrow>
     tenant_ids (registry_new wl fs True (Some []) dir dflt) = {}"

definition corrupt_wasm_in_dir_does_not_panic_during_load :: "'c wasm_lib \<Rightarrow> files \<Rightarrow> string \<Rightarrow> 'c WasmPolicyEngine \<Rightarrow> bool" where
  "corrupt_wasm_in_dir_does_not_panic_during_load wl fs dir dflt \<longleftrightarrow>
     (let path = dir @ ''/bad-tenant.wasm''
      in tenant_ids (registry_new wl (fs(path \<mapsto> ''not a wasm component'')) True (Some [path]) dir dflt) = {})"

definition tenant_id_derived_from_filename_stem :: bool where
  "tenant_id_derived_from_filename_stem \<longleftrightarrow> file_stem ''/policies/tenants/acme.wasm'' = Some ''acme''"

definition non_wasm_file_yields_no_tenant_id :: "'c wasm_lib \<Rightarrow> files \<Rightarrow> 'c WasmPolicyEngine \<Rightarrow> bool" where
  "non_wasm_file_yields_no_tenant_id wl fs dflt \<longleftrightarrow>
     tenant_ids (registry_new wl (fs(''/tmp/tenants/readme.txt'' \<mapsto> ''ignore me'')) True
       (Some [''/tmp/tenants/readme.txt'']) ''/tmp/tenants'' dflt) = {}"

text \<open>The two tests on a watched directory, for whatever events the file system reports.\<close>

definition corrupt_wasm_dropped_into_watched_dir_does_not_corrupt_map ::
  "'c wasm_lib \<Rightarrow> watch_setup \<Rightarrow> string \<Rightarrow> 'c WasmPolicyEngine \<Rightarrow> (instant \<times> Event) list \<Rightarrow> bool" where
  "corrupt_wasm_dropped_into_watched_dir_does_not_corrupt_map wl su dir dflt evs \<longleftrightarrow>
     (let reg = registry_new wl Map.empty True (Some []) dir dflt;
          fs = [dir @ ''/evil.wasm'' \<mapsto> ''garbage bytes'']
      in ''evil'' \<notin> tenant_ids (watch_tenant_dir wl (\<lambda>now. fs) su reg evs))"

definition corrupt_wasm_does_not_replace_current_engine :: "'c wasm_lib \<Rightarrow> files \<Rightarrow> string \<Rightarrow> 'c WasmPolicyEngine \<Rightarrow> bool" where
  "corrupt_wasm_does_not_replace_current_engine wl fs path current \<longleftrightarrow>
     reload_policy wl (fs(path \<mapsto> ''not a real wasm component'')) path current = current"

definition live_watcher_ignores_corrupt_wasm_file ::
  "'c wasm_lib \<Rightarrow> watch_setup \<Rightarrow> string \<Rightarrow> 'c WasmPolicyEngine \<Rightarrow> (instant \<times> Event) list \<Rightarrow> bool" where
  "live_watcher_ignores_corrupt_wasm_file wl su dir eng evs \<longleftrightarrow>
     (let fs = [dir @ ''/bad_policy.wasm'' \<mapsto> ''garbage'']
      in watch_policy_dir wl (\<lambda>now. fs) su (shared (policy_watcher_new dir eng)) evs = eng)"

lemma registry_tests:
  "get_returns_default_for_unknown_tenant wl fs dflt" "tenant_ids_empty_when_no_wasm_files_present wl fs dir dflt"
  "tenant_id_derived_from_filename_stem" "non_wasm_file_yields_no_tenant_id wl fs dflt"
proof -
  have "extension ''/tmp/tenants/readme.txt'' \<noteq> Some ''wasm''" by code_simp
  then show "non_wasm_file_yields_no_tenant_id wl fs dflt"
    by (simp add: non_wasm_file_yields_no_tenant_id_def registry_new_def load_all_from_dir_def tenant_ids_def)
  show "tenant_id_derived_from_filename_stem" by code_simp
qed (simp_all add: get_returns_default_for_unknown_tenant_def tenant_ids_empty_when_no_wasm_files_present_def
      registry_new_def registry_get_def load_all_from_dir_def tenant_ids_def)

text \<open>Where no file compiles, nothing is loaded, whatever is reported.\<close>

lemma nothing_loaded:
  assumes "\<And>path. \<exists>e. component_from_file wl fs path = Inl e"
  shows "load_tenant_engine wl fs path = None" and "reload_policy wl fs path eng = eng"
proof -
  obtain e where e: "component_from_file wl fs path = Inl e" using assms by blast
  then show "load_tenant_engine wl fs path = None"
    using load_tenant_engine_Some_iff [of wl fs path] by (cases "load_tenant_engine wl fs path") auto
  from e show "reload_policy wl fs path eng = eng"
    by (simp add: reload_policy_def load_component_from_file_def split: sum.splits)
qed

lemma nothing_registered:
  assumes "\<And>path. \<exists>e. component_from_file wl fs path = Inl e"
  shows "tenant_ids (registry_handle_all wl (\<lambda>now. fs) reg evs) \<subseteq> tenant_ids reg"
    and "reload_all wl (\<lambda>now. fs) eng ps = eng"
proof -
  show "reload_all wl (\<lambda>now. fs) eng ps = eng"
    by (induction ps) (auto simp: nothing_loaded [OF assms])
  have "tenant_ids (handle_registry_event wl fs reg ev) \<subseteq> tenant_ids reg" for reg ev
    by (auto simp: handle_registry_event_def upsert_tenant_def remove_tenant_def nothing_loaded [OF assms] tenant_ids_def
        split: RegistryEvent.splits option.splits if_splits)
  then show "tenant_ids (registry_handle_all wl (\<lambda>now. fs) reg evs) \<subseteq> tenant_ids reg"
    by (induction evs arbitrary: reg) fastforce+
qed

lemma corrupt_files:
  assumes "compile wl bytes = Inl e"
  shows "\<exists>e. component_from_file wl [path \<mapsto> bytes] p = Inl e"
  using assms by (simp add: component_from_file_def)

lemma watcher_tests:
  shows "compile wl ''garbage bytes'' = Inl e \<Longrightarrow>
      corrupt_wasm_dropped_into_watched_dir_does_not_corrupt_map wl su dir dflt evs"
    and "compile wl ''not a real wasm component'' = Inl e \<Longrightarrow> corrupt_wasm_does_not_replace_current_engine wl fs path dflt"
    and "compile wl ''garbage'' = Inl e \<Longrightarrow> live_watcher_ignores_corrupt_wasm_file wl su dir dflt evs"
    and "compile wl ''not a wasm component'' = Inl e \<Longrightarrow> corrupt_wasm_in_dir_does_not_panic_during_load wl fs dir dflt"
proof -
  assume c: "compile wl ''garbage bytes'' = Inl e"
  show "corrupt_wasm_dropped_into_watched_dir_does_not_corrupt_map wl su dir dflt evs"
    using nothing_registered(1) [OF corrupt_files [OF c, of "dir @ ''/evil.wasm''"],
        of "registry_new wl Map.empty True (Some []) dir dflt"]
    by (fastforce simp: corrupt_wasm_dropped_into_watched_dir_does_not_corrupt_map_def watch_tenant_dir_def registry_new_def
        load_all_from_dir_def tenant_ids_def Let_def)
next
  assume c: "compile wl ''garbage'' = Inl e"
  show "live_watcher_ignores_corrupt_wasm_file wl su dir dflt evs"
    using nothing_registered(2) [OF corrupt_files [OF c]]
    by (simp add: live_watcher_ignores_corrupt_wasm_file_def watch_policy_dir_def policy_watcher_new_def Let_def)
next
  assume "compile wl ''not a real wasm component'' = Inl e"
  then show "corrupt_wasm_does_not_replace_current_engine wl fs path dflt"
    by (simp add: corrupt_wasm_does_not_replace_current_engine_def reload_policy_def load_component_from_file_def
        component_from_file_def split: sum.splits)
next
  assume c: "compile wl ''not a wasm component'' = Inl e"
  let ?p = "dir @ ''/bad-tenant.wasm''"
  have "load_tenant_engine wl (fs(?p \<mapsto> ''not a wasm component'')) ?p = None"
    using load_tenant_engine_Some_iff [of wl "fs(?p \<mapsto> ''not a wasm component'')" ?p] c
    by (cases "load_tenant_engine wl (fs(?p \<mapsto> ''not a wasm component'')) ?p") (auto simp: component_from_file_def)
  then show "corrupt_wasm_in_dir_does_not_panic_during_load wl fs dir dflt"
    by (simp add: corrupt_wasm_in_dir_does_not_panic_during_load_def registry_new_def load_all_from_dir_def tenant_ids_def Let_def)
qed

end
