(* ===== verification/Integration_Tests.thy ===== *)
theory Integration_Tests
  imports Proxy_Redaction
begin

text \<open>
  The end-to-end tests of \<open>safegate-proxy/tests/e2e_proxy_test.rs\<close> and the component test of
  \<open>safegate-wasm/tests/wasm_policy_test.rs\<close> on the model. A test starts a proxy without policies,
  sends requests to it and looks at the responses and at what the mock server received. The
  requests are what the handler gets from hyper: the headers of the test's request and the
  path of its address. What is shown is that the tests pass with the reference codec and regex
  engine, whatever the clock readings and trace ids. The tests of the text that Prometheus
  prints and the stress test are not here.
\<close>

section \<open>Fixtures\<close>

definition test_policy_registry_with_handle :: "'c libs \<Rightarrow> 'c WasmPolicyEngine \<Rightarrow> 'c PolicyRegistry" where
  "test_policy_registry_with_handle ls eng = registry_new (lib_wl ls) (\<lambda>path. None) False None ''./policies/tenants'' eng"

definition test_audit_logger :: AuditLogger where
  "test_audit_logger = audit_logger_new Stdout ''e2e-test-hmac-key''"

definition start_proxy_with_registry :: "'c libs \<Rightarrow> string \<Rightarrow> 'c PolicyRegistry \<Rightarrow> SafeGateError + 'c Proxy" where
  "start_proxy_with_registry ls url reg =
     proxy_new ls \<lparr>listen_addr = SocketAddrV4 [127, 0, 0, 1] 0, target_mcp_url = url, policy_dir = ''./policies'',
                    tenant_policy_dir = ''./policies/tenants''\<rparr> reg test_audit_logger metrics_initial"

text \<open>The proxy of most tests; \<open>None\<close> is a failed start, on which a test panics.\<close>

definition start_proxy :: "'c libs \<Rightarrow> string \<Rightarrow> 'c Proxy option" where
  "start_proxy ls url =
     (case policy_engine_new (lib_wl ls) of
        Inl e \<Rightarrow> None
      | Inr eng \<Rightarrow>
          (case start_proxy_with_registry ls url (test_policy_registry_with_handle ls eng) of
             Inl e \<Rightarrow> None
           | Inr px \<Rightarrow> Some px))"

text \<open>A \<open>POST\<close> of JSON with the identity headers, and the request that several tests send.\<close>

definition post_request :: "string \<Rightarrow> string \<Rightarrow> bool \<Rightarrow> string \<Rightarrow> InboundRequest" where
  "post_request agent tenant auth body =
     \<lparr>in_method = ''POST'', in_uri = \<lparr>uri_scheme = None, uri_authority = None, uri_path_and_query = Some ''/''\<rparr>,
      in_version = ''HTTP/1.1'',
      in_headers = [(''content-type'', ''application/json''), (''x-agent-id'', agent), (''x-tenant-id'', tenant)]
        @ (if auth then [(''authorization'', ''Bearer safegate-dev-token'')] else []),
      in_body = Inr body\<rparr>"

definition lookup_text :: string where
  \<open>lookup_text = ''{"jsonrpc":"2.0","id":1,"method":"tools/call","params":{"name":"lookup"}}''\<close>

definition tools_call_request :: "bool \<Rightarrow> InboundRequest" where
  "tools_call_request auth = post_request ''e2e-agent'' ''test-tenant'' auth lookup_text"

definition get_request :: "string \<Rightarrow> InboundRequest" where
  "get_request path =
     \<lparr>in_method = ''GET'', in_uri = \<lparr>uri_scheme = None, uri_authority = None, uri_path_and_query = Some path\<rparr>,
      in_version = ''HTTP/1.1'', in_headers = [], in_body = Inr []\<rparr>"

text \<open>The mock server: it answers a \<open>POST\<close> of the path \<open>/\<close>, and anything else with 404.\<close>

definition mock_server :: "'c libs \<Rightarrow> json \<Rightarrow> HttpRequest \<Rightarrow> string + UpstreamResponse" where
  "mock_server ls doc req =
     (if http_method req = ''POST'' \<and> lib_uri_path ls (http_uri req) = ''/''
      then Inr \<lparr>up_status = 200, up_headers = [(''content-type'', ''application/json'')],
                up_body = Inr (json_print (lib_sj ls) doc)\<rparr>
      else Inr \<lparr>up_status = 404, up_headers = [], up_body = Inr []\<rparr>)"

definition result_doc :: "nat \<Rightarrow> (string \<times> json) list \<Rightarrow> json" where
  "result_doc i result = JObject [(''id'', JNumber (PosInt i)), (''jsonrpc'', JString ''2.0''), (''result'', JObject result)]"

section \<open>Tests\<close>

definition forwards_authenticated_json_rpc_calls_to_upstream :: "'c libs \<Rightarrow> env \<Rightarrow> bool" where
  "forwards_authenticated_json_rpc_calls_to_upstream ls ev \<longleftrightarrow>
     (let doc = result_doc 1 [(''ok'', JBool True)]
      in case start_proxy ls ''http://mock'' of
           None \<Rightarrow> False
         | Some px \<Rightarrow>
             (case snd (handle_request ls (ev\<lparr>upstream := mock_server ls doc\<rparr>) (tools_call_request True) px) of
                Panicked \<Rightarrow> False
              | Responded r \<Rightarrow> status r = 200 \<and> value_from_str (lib_sj ls) (response_body r) = Inr doc))"

definition rejects_unauthenticated_requests_before_upstream :: "'c libs \<Rightarrow> env \<Rightarrow> bool" where
  "rejects_unauthenticated_requests_before_upstream ls ev \<longleftrightarrow>
     (case start_proxy ls ''http://mock'' of
        None \<Rightarrow> False
      | Some px \<Rightarrow>
          (case snd (handle_request ls ev (tools_call_request False) px) of
             Panicked \<Rightarrow> False
           | Responded r \<Rightarrow> status r = 401))"

definition wasm_policy_engine_without_component_does_not_block_requests :: "'c libs \<Rightarrow> env \<Rightarrow> bool" where
  "wasm_policy_engine_without_component_does_not_block_requests ls ev \<longleftrightarrow>
     (case start_proxy ls ''http://mock'' of
        None \<Rightarrow> False
      | Some px \<Rightarrow>
          (case handle_request ls (ev\<lparr>upstream := mock_server ls (result_doc 1 [])\<rparr>) (tools_call_request True) px of
             (px', Panicked) \<Rightarrow> False
           | (px', Responded r) \<Rightarrow> status r = 200 \<and> length (client px') = 1))"

text \<open>Despite its name this test expects 200: its engine has no component, and so nothing is denied.\<close>

definition policy_deny_returns_403_and_does_not_reach_upstream :: "'c libs \<Rightarrow> string \<Rightarrow> env \<Rightarrow> bool" where
  "policy_deny_returns_403_and_does_not_reach_upstream ls temp_dir ev \<longleftrightarrow>
     (case policy_engine_new (lib_wl ls) of
        Inl e \<Rightarrow> False
      | Inr eng \<Rightarrow>
          (let watcher = policy_watcher_new temp_dir eng
           in case start_proxy_with_registry ls ''http://mock'' (test_policy_registry_with_handle ls (shared watcher)) of
                Inl e \<Rightarrow> False
              | Inr px \<Rightarrow>
                  (case snd (handle_request ls (ev\<lparr>upstream := mock_server ls (result_doc 2 [])\<rparr>) (tools_call_request True) px) of
                     Panicked \<Rightarrow> False
                   | Responded r \<Rightarrow> status r = 200)))"

definition healthz_returns_200_with_healthy_json :: "'c libs \<Rightarrow> env \<Rightarrow> bool" where
  "healthz_returns_200_with_healthy_json ls ev \<longleftrightarrow>
     (case start_proxy ls ''http://mock'' of
        None \<Rightarrow> False
      | Some px \<Rightarrow>
          (case snd (handle_request ls ev (get_request ''/healthz'') px) of
             Panicked \<Rightarrow> False
           | Responded r \<Rightarrow>
               status r = 200
               \<and> (case value_from_str (lib_sj ls) (response_body r) of
                    Inr (JObject m) \<Rightarrow> obj_get m ''status'' = Some (JString ''healthy'')
                  | _ \<Rightarrow> False)))"

definition pii_payload :: json where
  "pii_payload = value_of (JObject [(''jsonrpc'', JString ''2.0''), (''id'', JNumber (PosInt 99)), (''method'', JString ''tools/call''),
     (''params'', JObject [(''name'', JString ''send_email''),
        (''arguments'', JObject [(''recipient'', JString ''alice@secret-corp.com''),
           (''api_key'', JString ''sk-ABCDEFGHIJKLMNOPQRSTUVWXYZabcdefghijklmn''),
           (''message'', JString ''Hello from the test suite'')])])])"

definition pii_in_tool_arguments_is_redacted_before_upstream :: "'c libs \<Rightarrow> env \<Rightarrow> bool" where
  "pii_in_tool_arguments_is_redacted_before_upstream ls ev \<longleftrightarrow>
     (case start_proxy ls ''http://mock'' of
        None \<Rightarrow> False
      | Some px \<Rightarrow>
          (case handle_request ls (ev\<lparr>upstream := mock_server ls (result_doc 99 [(''ok'', JBool True)])\<rparr>)
                  (post_request ''pii-test-agent'' ''pii-test-tenant'' True (json_print (lib_sj ls) pii_payload)) px of
             (px', Panicked) \<Rightarrow> False
           | (px', Responded r) \<Rightarrow>
               status r = 200
               \<and> (case client px' of
                    [req] \<Rightarrow> \<not> contains (http_body req) ''alice@secret-corp.com''
                      \<and> \<not> contains (http_body req) ''sk-ABCDEFGHIJKLMNOPQRSTUVWXYZ''
                      \<and> contains (http_body req) ''[REDACTED_EMAIL]''
                      \<and> contains (http_body req) ''[REDACTED_SECRET]''
                      \<and> contains (http_body req) ''Hello from the test suite''
                  | _ \<Rightarrow> False)))"

definition call_payload :: "nat \<Rightarrow> string \<Rightarrow> string \<Rightarrow> string \<Rightarrow> json" where
  "call_payload i tool name v = value_of (JObject [(''jsonrpc'', JString ''2.0''), (''id'', JNumber (PosInt i)),
     (''method'', JString ''tools/call''),
     (''params'', JObject [(''name'', JString tool), (''arguments'', JObject [(name, JString v)])])])"

definition unknown_tenant_falls_back_to_default_engine_and_request_succeeds :: "'c libs \<Rightarrow> env \<Rightarrow> bool" where
  "unknown_tenant_falls_back_to_default_engine_and_request_succeeds ls ev \<longleftrightarrow>
     (case start_proxy ls ''http://mock'' of
        None \<Rightarrow> False
      | Some px \<Rightarrow>
          (case handle_request ls (ev\<lparr>upstream := mock_server ls (result_doc 1 [(''ok'', JBool True)])\<rparr>)
                  (post_request ''multitenant-agent'' ''completely-unknown-tenant'' True
                     (json_print (lib_sj ls) (call_payload 1 ''list_resources'' ''path'' ''/safe''))) px of
             (px', Panicked) \<Rightarrow> False
           | (px', Responded r) \<Rightarrow> status r = 200 \<and> length (client px') = 1))"

definition policy_registry_tenant_ids_empty_with_no_tenant_policies :: "'c wasm_lib \<Rightarrow> files \<Rightarrow> bool" where
  "policy_registry_tenant_ids_empty_with_no_tenant_policies wl fs \<longleftrightarrow>
     (case policy_engine_new wl of
        Inl e \<Rightarrow> False
      | Inr eng \<Rightarrow> tenant_ids (registry_new wl fs False None ''./policies/tenants/nonexistent'' eng) = {})"

text \<open>The two requests are sent one after the other to the same proxy.\<close>

fun serve_all :: "'c libs \<Rightarrow> (env \<times> InboundRequest) list \<Rightarrow> 'c Proxy \<Rightarrow> 'c Proxy \<times> outcome list" where
  "serve_all ls [] px = (px, [])"
| "serve_all ls ((ev, rq) # rest) px =
     (case handle_request ls ev rq px of (px', r) \<Rightarrow> map_prod (\<lambda>px. px) (\<lambda>rs. r # rs) (serve_all ls rest px'))"

fun answered_with :: "nat \<Rightarrow> outcome \<Rightarrow> bool" where
  "answered_with code (Responded r) \<longleftrightarrow> status r = code"
| "answered_with code Panicked \<longleftrightarrow> False"

definition multiple_tenants_handled_correctly_via_registry :: "'c libs \<Rightarrow> env \<Rightarrow> env \<Rightarrow> bool" where
  "multiple_tenants_handled_correctly_via_registry ls ev1 ev2 \<longleftrightarrow>
     (let mock = mock_server ls (result_doc 99 []);
          body = json_print (lib_sj ls) (call_payload 99 ''ping'' ''msg'' ''hello'');
          request = (\<lambda>tenant. post_request (''agent-'' @ tenant) tenant True body)
      in case start_proxy ls ''http://mock'' of
           None \<Rightarrow> False
         | Some px \<Rightarrow>
             (case serve_all ls [(ev1\<lparr>upstream := mock\<rparr>, request ''tenant-a''), (ev2\<lparr>upstream := mock\<rparr>, request ''tenant-b'')] px of
                (px', rs) \<Rightarrow> list_all (answered_with 200) rs \<and> length (client px') = 2))"

definition circuit_breaker_quarantines_offending_agent :: "instant list \<Rightarrow> bool" where
  "circuit_breaker_quarantines_offending_agent ts \<longleftrightarrow>
     (let cb0 = with_params 3 (from_secs 10) (from_secs 5);
          cb1 = record_failure cb0 ''bad-agent'' (ts ! 0);
          cb2 = record_failure cb1 ''bad-agent'' (ts ! 1);
          (cb3, r1) = check cb2 ''bad-agent'' (ts ! 2);
          cb4 = record_failure cb3 ''bad-agent'' (ts ! 3);
          (cb5, r2) = check cb4 ''bad-agent'' (ts ! 4);
          (cb6, r3) = check cb5 ''good-agent'' (ts ! 5)
      in is_ok r1 \<and> \<not> is_ok r2 \<and> is_ok r3)"

text \<open>The component test of the example policy; the path of the artifact is that of the build.\<close>

definition sample_policy_component_enforces_tool_safety ::
  "serde_lib \<Rightarrow> 'c wasm_lib \<Rightarrow> files \<Rightarrow> string \<Rightarrow> instant list \<Rightarrow> duration \<Rightarrow> instant \<Rightarrow> bool" where
  "sample_policy_component_enforces_tool_safety sj wl fs path others late now \<longleftrightarrow>
     (case policy_engine_new wl of
        Inl e \<Rightarrow> False
      | Inr eng \<Rightarrow>
          (case load_component_from_file wl fs eng path of
             (eng', Inl e) \<Rightarrow> False
           | (eng', Inr _) \<Rightarrow>
               snd (evaluate_policy sj wl eng'
                 \<lparr>agent_id = ''test-agent'', tenant_id = ''test-tenant'', roles = [''operator''], authenticated = True\<rparr>
                 \<lparr>tool_name_param = ''dangerous_delete'', arguments = None\<rparr> others late now)
               = Inr (Deny ''Unsafe action blocked by WASM policy'')))"

section \<open>The tests pass\<close>

text \<open>A request that a proxy without policies forwards, when its agent is new to it.\<close>

lemma unpoliced_served:
  assumes "\<not> special_path ls rq" and "authenticated (context_of ls rq)"
    and "timestamps_of (rate_limiter px) (agent_id (context_of ls rq)) = []"
    and "circuit_of (circuit_breaker px) (agent_id (context_of ls rq)) = Closed []"
    and "read_request ls rq = Inr (body, i, params)"
    and "redact_stage ls (redactor px) body params = Some (body1, params1, pii)"
    and "component (registry_get (policy_registry px) (tenant_id (context_of ls rq))) = None"
    and "upstream_uri ls (target_base px) (in_uri rq) = Inr u"
    and "upstream ev (upstream_request rq u body1) = Inr response"
  obtains px' where "handle_request ls ev rq px = (px', Responded (relay_response (lib_sj ls) response))"
    "client px' = client px @ [upstream_request rq u body1]"
    "policy_registry px' = policy_registry px" "redactor px' = redactor px" "target_base px' = target_base px"
    "\<And>b. b \<noteq> agent_id (context_of ls rq) \<Longrightarrow> timestamps_of (rate_limiter px') b = timestamps_of (rate_limiter px) b
       \<and> circuit_of (circuit_breaker px') b = circuit_of (circuit_breaker px) b"
proof -
  let ?a = "agent_id (context_of ls rq)" and ?ctx = "context_of ls rq"
  obtain rl r1 where rl: "check_rate_limit (rate_limiter px) ?a AGENT_RATE_LIMIT AGENT_RATE_LIMIT_WINDOW (rate_now ev) = (rl, r1)"
    by fastforce
  obtain cb r2 where cb: "check (circuit_breaker px) ?a (check_now ev) = (cb, r2)" by fastforce
  have r: "r1 = Inr ()" "r2 = Inr ()"
    using check_rate_limit_ok_iff [of "rate_limiter px" ?a AGENT_RATE_LIMIT AGENT_RATE_LIMIT_WINDOW "rate_now ev"] rl assms(3)
      check_ok_iff [of "circuit_breaker px" ?a "check_now ev"] cb assms(4)
    by (cases r1; cases r2; simp add: AGENT_RATE_LIMIT_def)+
  let ?px1 = "px\<lparr>rate_limiter := rl, circuit_breaker := cb\<rparr>"
  have c: "cleared ls ev rq px ?px1 body i params body1 params1 pii"
    using assms rl cb r by (simp add: cleared_def admit_def Let_def)
  have "\<exists>d. snd (policy_stage ls ev ?ctx body1 params1 pii ?px1) = Forward body1 d"
    using assms(7) by (auto simp: policy_stage_outcome policy_verdict_def evaluate_call_def evaluate_policy_def split: option.splits)
  then obtain px2 d where ps: "policy_stage ls ev ?ctx body1 params1 pii ?px1 = (px2, Forward body1 d)" by (metis prod.collapse)
  note pf = policy_stage_frame [OF ps]
  have br: "circuit_breaker px2 = cb"
    using ps assms(7)
    by (auto simp: policy_stage_def policy_apply_def count_redaction_def evaluate_call_def evaluate_policy_def Let_def
        split: option.splits if_splits)
  let ?px3 = "fst (forward_complete ls ev ?ctx (tool_name_of params) i d (Inr response)
     (px2\<lparr>client := client px2 @ [upstream_request rq u body1]\<rparr>))"
  have "upstream_uri ls (target_base px2) (in_uri rq) = Inr u" using pf assms(8) by simp
  then have h: "handle_request ls ev rq px = (?px3, Responded (relay_response (lib_sj ls) response))"
    using handle_request_cleared [OF c] ps assms(9)
    by (simp add: forward_stage_def forward_complete_def Let_def)
  show ?thesis
  proof (rule that [OF h])
    fix b assume "b \<noteq> ?a"
    then show "timestamps_of (rate_limiter ?px3) b = timestamps_of (rate_limiter px) b
       \<and> circuit_of (circuit_breaker ?px3) b = circuit_of (circuit_breaker px) b"
      using pf(3) br rl cb check_rate_limit_timestamps [of "rate_limiter px" ?a AGENT_RATE_LIMIT AGENT_RATE_LIMIT_WINDOW "rate_now ev" b]
        circuit_of_check [of "circuit_breaker px" ?a "check_now ev" b]
      by (simp add: forward_complete_def emit_audit_def Let_def)
  qed (use pf in \<open>simp_all add: forward_complete_def emit_audit_def Let_def\<close>)
qed

text \<open>The proxy that the tests start, with the reference libraries.\<close>

definition test_proxy :: "timed_policy Proxy" where
  "test_proxy =
     \<lparr>target_base = demo_base, client = [], rate_limiter = rate_limiter_new,
      policy_registry = \<lparr>tenant_dir = ''./policies/tenants'', engines = Map.empty,
        default_engine = \<lparr>component = None, sandbox = default_sandbox\<rparr>\<rparr>,
      audit_logger = test_audit_logger, redactor = pii_redactor_new, circuit_breaker = circuit_breaker_new,
      metrics = metrics_initial\<rparr>"

lemma test_engine: "policy_engine_new (lib_wl demo_libs) = Inr \<lparr>component = None, sandbox = default_sandbox\<rparr>"
  by (simp add: policy_engine_new_def with_sandbox_config_def demo_libs_def timed_runtime_def)

lemma test_started:
  "start_proxy demo_libs url = Some test_proxy"
  "start_proxy_with_registry demo_libs url (test_policy_registry_with_handle demo_libs \<lparr>component = None, sandbox = default_sandbox\<rparr>)
     = Inr test_proxy"
  by (simp_all add: start_proxy_def test_engine)
    (simp_all add: start_proxy_with_registry_def test_policy_registry_with_handle_def proxy_new_def registry_new_def demo_libs_def
      test_proxy_def demo_base_def)

lemma test_proxy_fields [simp]:
  "client test_proxy = []" "target_base test_proxy = demo_base" "redactor test_proxy = pii_redactor_new"
  "timestamps_of (rate_limiter test_proxy) a = []" "circuit_of (circuit_breaker test_proxy) a = Closed []"
  "component (registry_get (policy_registry test_proxy) t) = None"
  by (simp_all add: test_proxy_def rate_limiter_new_def timestamps_of_def circuit_breaker_new_def registry_get_def)

lemma post_request_simps [simp]:
  "\<not> special_path demo_libs (post_request agent tenant auth body)"
  "in_method (post_request agent tenant auth body) = ''POST''" "in_body (post_request agent tenant auth body) = Inr body"
  "upstream_uri demo_libs demo_base (in_uri (post_request agent tenant auth body))
     = Inr (demo_base\<lparr>uri_path_and_query := Some ''/''\<rparr>)"
proof -
  have "plain_path (in_uri (post_request agent tenant auth body)) = ''/''"
    by (simp add: plain_path_def post_request_def)
  then show "\<not> special_path demo_libs (post_request agent tenant auth body)"
    by (simp add: special_path_def demo_libs_def)
qed (simp_all add: post_request_def upstream_uri_def demo_libs_def)

lemma mock_answers:
  "mock_server demo_libs doc (upstream_request (post_request agent tenant auth body) (demo_base\<lparr>uri_path_and_query := Some ''/''\<rparr>) b)
     = Inr \<lparr>up_status = 200, up_headers = [(''content-type'', ''application/json'')], up_body = Inr (print_json doc)\<rparr>"
  by (simp add: mock_server_def upstream_request_def demo_libs_def plain_path_def post_request_def reference_json_def)

abbreviation ok_response :: "json \<Rightarrow> Response" where
  "ok_response doc \<equiv> \<lparr>status = 200, response_headers = [(''content-type'', ''application/json'')], response_body = print_json doc\<rparr>"

lemma test_call:
  assumes "context_of demo_libs (post_request agent tenant True body)
      = \<lparr>agent_id = agent, tenant_id = tenant, roles = [], authenticated = True\<rparr>"
    and "read_request demo_libs (post_request agent tenant True body) = Inr (body, i, params)"
    and "redact_stage demo_libs pii_redactor_new body params = Some (body1, params1, pii)"
    and "target_base px = demo_base" and "redactor px = pii_redactor_new"
    and "timestamps_of (rate_limiter px) agent = []" and "circuit_of (circuit_breaker px) agent = Closed []"
    and "component (registry_get (policy_registry px) tenant) = None"
  obtains px' where
    "handle_request demo_libs (ev\<lparr>upstream := mock_server demo_libs doc\<rparr>) (post_request agent tenant True body) px
       = (px', Responded (ok_response doc))"
    "client px' = client px @ [upstream_request (post_request agent tenant True body)
       (demo_base\<lparr>uri_path_and_query := Some ''/''\<rparr>) body1]"
    "policy_registry px' = policy_registry px" "redactor px' = redactor px" "target_base px' = target_base px"
    "\<And>b. b \<noteq> agent \<Longrightarrow> timestamps_of (rate_limiter px') b = timestamps_of (rate_limiter px) b
       \<and> circuit_of (circuit_breaker px') b = circuit_of (circuit_breaker px) b"
proof -
  let ?rq = "post_request agent tenant True body" and ?u = "demo_base\<lparr>uri_path_and_query := Some ''/''\<rparr>"
  let ?response = "\<lparr>up_status = 200, up_headers = [(''content-type'', ''application/json'')], up_body = Inr (print_json doc)\<rparr>"
  obtain px' where px': "handle_request demo_libs (ev\<lparr>upstream := mock_server demo_libs doc\<rparr>) ?rq px
      = (px', Responded (relay_response (lib_sj demo_libs) ?response))"
    "client px' = client px @ [upstream_request ?rq ?u body1]"
    "policy_registry px' = policy_registry px" "redactor px' = redactor px" "target_base px' = target_base px"
    "\<And>b. b \<noteq> agent_id (context_of demo_libs ?rq) \<Longrightarrow> timestamps_of (rate_limiter px') b = timestamps_of (rate_limiter px) b
       \<and> circuit_of (circuit_breaker px') b = circuit_of (circuit_breaker px) b"
    by (rule unpoliced_served [where ls = demo_libs and rq = ?rq and px = px and u = ?u and ?body1.0 = body1 and response = ?response
          and ev = "ev\<lparr>upstream := mock_server demo_libs doc\<rparr>" and body = body and i = i and params = params
          and ?params1.0 = params1 and pii = pii])
      (use assms mock_answers in auto)
  show ?thesis
    using px' assms(1) by (intro that [of px']) (auto simp: relay_response_def)
qed

text \<open>The request of several tests, read by the reference codec.\<close>

lemma lookup_read:
  "read_request demo_libs (post_request agent tenant auth lookup_text)
     = Inr (lookup_text, JNumber (PosInt 1), Some \<lparr>tool_name_param = ''lookup'', arguments = None\<rparr>)"
proof -
  have "request_from_slice reference_json lookup_text = Inr \<lparr>req_jsonrpc = ''2.0'', req_id = JNumber (PosInt 1),
      req_method = ''tools/call'', req_params = Some (JObject [(''name'', JString ''lookup'')])\<rparr>" by code_simp
  moreover have "tool_call_params_from_value (JObject [(''name'', JString ''lookup'')])
      = Inr \<lparr>tool_name_param = ''lookup'', arguments = None\<rparr>" by code_simp
  ultimately show ?thesis by (simp add: read_request_def parse_tool_params_def)
qed

lemma lookup_call_served:
  obtains px' where "handle_request demo_libs (ev\<lparr>upstream := mock_server demo_libs doc\<rparr>) (tools_call_request True) test_proxy
    = (px', Responded (ok_response doc))" and "length (client px') = 1"
proof -
  have ctx: "context_of demo_libs (post_request ''e2e-agent'' ''test-tenant'' True lookup_text)
      = \<lparr>agent_id = ''e2e-agent'', tenant_id = ''test-tenant'', roles = [], authenticated = True\<rparr>"
    by (simp add: post_request_def demo_libs_def) code_simp
  have "redact_stage demo_libs pii_redactor_new lookup_text (Some \<lparr>tool_name_param = ''lookup'', arguments = None\<rparr>)
      = Some (lookup_text, Some \<lparr>tool_name_param = ''lookup'', arguments = None\<rparr>, False)"
    by (simp add: redact_stage_def)
  from this show ?thesis
    by (rule test_call [OF ctx lookup_read, where px = test_proxy and ev = ev and doc = doc])
      (auto simp: tools_call_request_def intro: that)
qed

lemma result_doc_parses:
  "value_from_str reference_json (print_json (result_doc 1 [(''ok'', JBool True)])) = Inr (result_doc 1 [(''ok'', JBool True)])"
  by code_simp

lemma forwarding_tests:
  shows "forwards_authenticated_json_rpc_calls_to_upstream demo_libs ev"
    and "wasm_policy_engine_without_component_does_not_block_requests demo_libs ev"
    and "policy_deny_returns_403_and_does_not_reach_upstream demo_libs temp_dir ev"
proof -
  obtain px1 where "handle_request demo_libs (ev\<lparr>upstream := mock_server demo_libs (result_doc 1 [(''ok'', JBool True)])\<rparr>)
      (tools_call_request True) test_proxy = (px1, Responded (ok_response (result_doc 1 [(''ok'', JBool True)])))"
    by (rule lookup_call_served)
  then show "forwards_authenticated_json_rpc_calls_to_upstream demo_libs ev"
    by (simp add: forwards_authenticated_json_rpc_calls_to_upstream_def test_started result_doc_parses Let_def del: One_nat_def)
  obtain px2 where "handle_request demo_libs (ev\<lparr>upstream := mock_server demo_libs (result_doc 1 [])\<rparr>)
      (tools_call_request True) test_proxy = (px2, Responded (ok_response (result_doc 1 [])))" "length (client px2) = 1"
    by (rule lookup_call_served)
  then show "wasm_policy_engine_without_component_does_not_block_requests demo_libs ev"
    by (simp add: wasm_policy_engine_without_component_does_not_block_requests_def test_started)
  obtain px3 where "handle_request demo_libs (ev\<lparr>upstream := mock_server demo_libs (result_doc 2 [])\<rparr>)
      (tools_call_request True) test_proxy = (px3, Responded (ok_response (result_doc 2 [])))"
    by (rule lookup_call_served)
  then show "policy_deny_returns_403_and_does_not_reach_upstream demo_libs temp_dir ev"
    by (simp add: policy_deny_returns_403_and_does_not_reach_upstream_def test_started test_engine policy_watcher_new_def)
qed

lemma refusal_tests:
  shows "rejects_unauthenticated_requests_before_upstream demo_libs ev"
    and "healthz_returns_200_with_healthy_json demo_libs ev"
proof -
  have "\<not> authenticated (context_of demo_libs (post_request ''e2e-agent'' ''test-tenant'' False lookup_text))"
    by (simp add: post_request_def demo_libs_def) code_simp
  moreover have "\<not> special_path demo_libs (post_request ''e2e-agent'' ''test-tenant'' False lookup_text)" by simp
  ultimately show "rejects_unauthenticated_requests_before_upstream demo_libs ev"
    by (simp add: rejects_unauthenticated_requests_before_upstream_def test_started tools_call_request_def handle_request_def
        special_path_def admit_def json_rpc_error_response_def)
  let ?doc = "JObject [(''status'', JString ''healthy'')]"
  have doc: "value_from_str reference_json (json_print reference_json ?doc) = Inr ?doc" by code_simp
  have "lib_uri_path demo_libs (in_uri (get_request ''/healthz'')) = ''/healthz''"
    by (simp add: demo_libs_def plain_path_def get_request_def)
  then have "handle_request demo_libs ev (get_request ''/healthz'') test_proxy = (test_proxy, Responded
      \<lparr>status = 200, response_headers = [(''content-type'', ''application/json'')], response_body = json_print reference_json ?doc\<rparr>)"
    by (simp add: handle_request_def handle_healthz_def Let_def)
  then show "healthz_returns_200_with_healthy_json demo_libs ev"
    by (simp add: healthz_returns_200_with_healthy_json_def test_started doc) (simp add: obj_get_def)
qed

text \<open>The tests whose requests have arguments.\<close>

lemma pii_read:
  "read_request demo_libs (post_request agent tenant auth (print_json pii_payload))
     = Inr (print_json pii_payload, JNumber (PosInt 99), Some \<lparr>tool_name_param = ''send_email'',
         arguments = Some (JObject [(''api_key'', JString ''sk-ABCDEFGHIJKLMNOPQRSTUVWXYZabcdefghijklmn''),
           (''message'', JString ''Hello from the test suite''), (''recipient'', JString ''alice@secret-corp.com'')])\<rparr>)"
proof -
  let ?args = "JObject [(''api_key'', JString ''sk-ABCDEFGHIJKLMNOPQRSTUVWXYZabcdefghijklmn''),
           (''message'', JString ''Hello from the test suite''), (''recipient'', JString ''alice@secret-corp.com'')]"
  have "request_from_slice reference_json (print_json pii_payload) = Inr \<lparr>req_jsonrpc = ''2.0'', req_id = JNumber (PosInt 99),
      req_method = ''tools/call'', req_params = Some (JObject [(''arguments'', ?args), (''name'', JString ''send_email'')])\<rparr>"
    by code_simp
  moreover have "tool_call_params_from_value (JObject [(''arguments'', ?args), (''name'', JString ''send_email'')])
      = Inr \<lparr>tool_name_param = ''send_email'', arguments = Some ?args\<rparr>" by code_simp
  ultimately show ?thesis by (simp add: read_request_def parse_tool_params_def)
qed

lemma pii_sanitized:
  "sanitize_json reference_rx pii_redactor_new (JObject [(''api_key'', JString ''sk-ABCDEFGHIJKLMNOPQRSTUVWXYZabcdefghijklmn''),
       (''message'', JString ''Hello from the test suite''), (''recipient'', JString ''alice@secret-corp.com'')])
     = (JObject [(''api_key'', JString ''[REDACTED_SECRET]''), (''message'', JString ''Hello from the test suite''),
         (''recipient'', JString ''[REDACTED_EMAIL]'')], True)"
  by code_simp

definition redacted_payload :: json where
  "redacted_payload = value_of (JObject [(''jsonrpc'', JString ''2.0''), (''id'', JNumber (PosInt 99)), (''method'', JString ''tools/call''),
     (''params'', JObject [(''name'', JString ''send_email''),
        (''arguments'', JObject [(''recipient'', JString ''[REDACTED_EMAIL]''), (''api_key'', JString ''[REDACTED_SECRET]''),
           (''message'', JString ''Hello from the test suite'')])])])"

lemma redacted_payload_text:
  "\<not> contains (print_json redacted_payload) ''alice@secret-corp.com''"
  "\<not> contains (print_json redacted_payload) ''sk-ABCDEFGHIJKLMNOPQRSTUVWXYZ''"
  "contains (print_json redacted_payload) ''[REDACTED_EMAIL]''" "contains (print_json redacted_payload) ''[REDACTED_SECRET]''"
  "contains (print_json redacted_payload) ''Hello from the test suite''"
  by code_simp+

lemma pii_test: "pii_in_tool_arguments_is_redacted_before_upstream demo_libs ev"
proof -
  let ?doc = "result_doc 99 [(''ok'', JBool True)]" and ?agent = "''pii-test-agent''" and ?tenant = "''pii-test-tenant''"
  let ?body = "print_json pii_payload"
  let ?clean = "JObject [(''api_key'', JString ''[REDACTED_SECRET]''), (''message'', JString ''Hello from the test suite''),
         (''recipient'', JString ''[REDACTED_EMAIL]'')]"
  have ctx: "context_of demo_libs (post_request ?agent ?tenant True ?body)
      = \<lparr>agent_id = ?agent, tenant_id = ?tenant, roles = [], authenticated = True\<rparr>"
    by (simp add: post_request_def demo_libs_def) code_simp
  have print: "json_print reference_json = print_json" by (simp add: reference_json_def)
  have "rebuild_tool_call_body reference_json ?body (print_json ?clean) = Rebuilt (print_json redacted_payload)" by code_simp
  then have red: "redact_stage demo_libs pii_redactor_new ?body (Some \<lparr>tool_name_param = ''send_email'',
         arguments = Some (JObject [(''api_key'', JString ''sk-ABCDEFGHIJKLMNOPQRSTUVWXYZabcdefghijklmn''),
           (''message'', JString ''Hello from the test suite''), (''recipient'', JString ''alice@secret-corp.com'')])\<rparr>)
      = Some (print_json redacted_payload, Some \<lparr>tool_name_param = ''send_email'', arguments = Some ?clean\<rparr>, True)"
    by (simp only: redact_stage_def demo_fields option.case McpToolCallParams.simps pii_sanitized print) (simp add: Let_def)
  obtain px' where "handle_request demo_libs (ev\<lparr>upstream := mock_server demo_libs ?doc\<rparr>) (post_request ?agent ?tenant True ?body) test_proxy
      = (px', Responded (ok_response ?doc))"
    "client px' = client test_proxy @ [upstream_request (post_request ?agent ?tenant True ?body)
       (demo_base\<lparr>uri_path_and_query := Some ''/''\<rparr>) (print_json redacted_payload)]"
    by (rule test_call [OF ctx pii_read red, where px = test_proxy and ev = ev and doc = ?doc]) auto
  then show ?thesis
    unfolding pii_in_tool_arguments_is_redacted_before_upstream_def
    by (simp add: test_started print upstream_request_def redacted_payload_text)
qed

text \<open>Calls with one harmless argument.\<close>

abbreviation call_of :: "string \<Rightarrow> string \<Rightarrow> string \<Rightarrow> McpToolCallParams" where
  "call_of tool name v \<equiv> \<lparr>tool_name_param = tool, arguments = Some (JObject [(name, JString v)])\<rparr>"

definition harmless :: "nat \<Rightarrow> string \<Rightarrow> string \<Rightarrow> string \<Rightarrow> bool" where
  "harmless i tool name v \<longleftrightarrow>
     request_from_slice reference_json (print_json (call_payload i tool name v)) = Inr \<lparr>req_jsonrpc = ''2.0'',
       req_id = JNumber (PosInt i), req_method = ''tools/call'',
       req_params = Some (JObject [(''arguments'', JObject [(name, JString v)]), (''name'', JString tool)])\<rparr>
     \<and> tool_call_params_from_value (JObject [(''arguments'', JObject [(name, JString v)]), (''name'', JString tool)])
         = Inr (call_of tool name v)
     \<and> sanitize_json reference_rx pii_redactor_new (JObject [(name, JString v)]) = (JObject [(name, JString v)], False)"

lemma harmless_calls: "harmless 1 ''list_resources'' ''path'' ''/safe''" "harmless 99 ''ping'' ''msg'' ''hello''"
  by code_simp+

lemma harmless_stages:
  assumes "harmless i tool name v"
  defines "body \<equiv> print_json (call_payload i tool name v)"
  shows "read_request demo_libs (post_request agent tenant True body) = Inr (body, JNumber (PosInt i), Some (call_of tool name v))"
    and "redact_stage demo_libs pii_redactor_new body (Some (call_of tool name v)) = Some (body, Some (call_of tool name v), False)"
  using assms by (simp_all add: harmless_def read_request_def parse_tool_params_def redact_stage_def)

lemma unknown_tenant_test: "unknown_tenant_falls_back_to_default_engine_and_request_succeeds demo_libs ev"
proof -
  let ?doc = "result_doc 1 [(''ok'', JBool True)]" and ?body = "print_json (call_payload 1 ''list_resources'' ''path'' ''/safe'')"
  let ?rq = "post_request ''multitenant-agent'' ''completely-unknown-tenant'' True ?body"
  have ctx: "context_of demo_libs ?rq = \<lparr>agent_id = ''multitenant-agent'', tenant_id = ''completely-unknown-tenant'', roles = [],
      authenticated = True\<rparr>"
    by (simp add: post_request_def demo_libs_def) code_simp
  obtain px' where "handle_request demo_libs (ev\<lparr>upstream := mock_server demo_libs ?doc\<rparr>) ?rq test_proxy
      = (px', Responded (ok_response ?doc))" "length (client px') = 1"
    by (rule test_call [OF ctx harmless_stages [OF harmless_calls(1)], where px = test_proxy and ev = ev and doc = ?doc]) auto
  then show ?thesis
    by (simp add: unknown_tenant_falls_back_to_default_engine_and_request_succeeds_def test_started reference_json_def [symmetric]
        del: One_nat_def) (simp add: reference_json_def)
qed

lemma tenants_test: "multiple_tenants_handled_correctly_via_registry demo_libs ev1 ev2"
proof -
  let ?doc = "result_doc 99 []" and ?body = "print_json (call_payload 99 ''ping'' ''msg'' ''hello'')"
  let ?rq = "\<lambda>tenant. post_request (''agent-'' @ tenant) tenant True ?body"
  have ctx: "context_of demo_libs (?rq ''tenant-a'') = \<lparr>agent_id = ''agent-'' @ ''tenant-a'', tenant_id = ''tenant-a'', roles = [], authenticated = True\<rparr>"
    "context_of demo_libs (?rq ''tenant-b'') = \<lparr>agent_id = ''agent-'' @ ''tenant-b'', tenant_id = ''tenant-b'', roles = [], authenticated = True\<rparr>"
    by (simp add: post_request_def demo_libs_def, code_simp)+
  obtain px1 where px1: "handle_request demo_libs (ev1\<lparr>upstream := mock_server demo_libs ?doc\<rparr>) (?rq ''tenant-a'') test_proxy
      = (px1, Responded (ok_response ?doc))" "length (client px1) = 1"
    "policy_registry px1 = policy_registry test_proxy" "redactor px1 = pii_redactor_new" "target_base px1 = demo_base"
    "timestamps_of (rate_limiter px1) (''agent-'' @ ''tenant-b'') = []" "circuit_of (circuit_breaker px1) (''agent-'' @ ''tenant-b'') = Closed []"
    by (rule test_call [OF ctx(1) harmless_stages [OF harmless_calls(2)], where px = test_proxy and ev = ev1 and doc = ?doc]) auto
  obtain px2 where "handle_request demo_libs (ev2\<lparr>upstream := mock_server demo_libs ?doc\<rparr>) (?rq ''tenant-b'') px1
      = (px2, Responded (ok_response ?doc))" "length (client px2) = 2"
    by (rule test_call [OF ctx(2) harmless_stages [OF harmless_calls(2)], where px = px1 and ev = ev2 and doc = ?doc])
      (use px1 in auto)
  with px1(1) show ?thesis
    unfolding multiple_tenants_handled_correctly_via_registry_def
    by (simp add: test_started Let_def reference_json_def)
qed

lemma registry_test:
  "create_engine wl = None \<Longrightarrow> link_wasi wl = None \<Longrightarrow> link_policy wl = None \<Longrightarrow>
     policy_registry_tenant_ids_empty_with_no_tenant_policies wl fs"
  by (simp add: policy_registry_tenant_ids_empty_with_no_tenant_policies_def policy_engine_new_def with_sandbox_config_def
      registry_new_def tenant_ids_def)

text \<open>The calls of the breaker's test are within the window, and the last checks within the cooldown.\<close>

lemma breaker_test:
  assumes "length ts = 6" and "sorted ts" and "ts ! 5 < ts ! 0 + from_secs 5"
  shows "circuit_breaker_quarantines_offending_agent ts"
proof -
  obtain a b c d e f where ts: "ts = [a, b, c, d, e, f]"
    using assms(1) by (auto simp: numeral_eq_Suc length_Suc_conv)
  with assms(2,3) have ord: "a \<le> b" "b \<le> c" "c \<le> d" "d \<le> e" "e \<le> f" "f < a + from_secs 5" by auto
  have wide: "from_secs 5 \<le> from_secs 10" by (simp add: from_secs_def)
  have rejects: "isl (snd (check cb x t)) \<longleftrightarrow> \<not> snd (spec_check (cooldown cb) t (circuit_of cb x))" for cb x t
    using check_ok_iff [of cb x t] by blast
  show ?thesis
    using ord wide
    by (simp add: circuit_breaker_quarantines_offending_agent_def rejects ts case_prod_unfold Let_def breaker_simps spec_count_def
        duration_since_def) arith
qed

text \<open>The component test, for any artifact that compiles to the example policy.\<close>

lemma component_test:
  assumes "fs path = Some ''sample''"
  shows "sample_policy_component_enforces_tool_safety sj timed_runtime fs path [] late now"
  using assms
  by (simp add: sample_policy_component_enforces_tool_safety_def policy_engine_new_def with_sandbox_config_def timed_runtime_def
      load_component_from_file_def component_from_file_def timed_compile_def evaluate_policy_def timed_call_def default_sandbox_def
      epoch_budget_def EXECUTION_TIMEOUT_def from_millis_def sample_policy_evaluate_def evaluate_request_def Let_def)

end
