(* ===== verification/Spec2Isabelle.thy ===== *)
theory Spec2Isabelle
  imports Rate_Limit Circuit_Breaker Redactor_Properties Proxy_Properties Proxy_Redaction Gateway_Properties
    Gateway_Clearance Unit_Tests_Redactor Unit_Tests Integration_Tests
begin

text \<open>
  \<^bold>\<open>SafeGate: a verification of the MCP policy gateway\<close>

  SafeGate is a reverse proxy between agents and a server of the Model Context Protocol. A
  request passes authentication, a per-agent rate limit, a per-agent circuit breaker, JSON-RPC
  decoding, redaction of secrets in tool arguments and the WASM policy of its tenant before
  it is forwarded; forwarded and denied requests leave a signed audit record. The sources are
  four crates: \<open>safegate-core\<close> (types, protocol, redactor), \<open>safegate-proxy\<close> (pipeline, limiter,
  breaker, metrics, configuration, executable), \<open>safegate-wasm\<close> (policy engine, registry,
  watchers) and \<open>safegate-audit\<close> (records, writer).

  \<^bold>\<open>Theories and the code they model\<close>

  \<^item> \<open>Gate_Prelude\<close>: clocks (instants and durations are natural numbers of nanoseconds;
    \<open>duration_since\<close> saturates at zero as \<open>Instant\<close> does), text helpers of \<open>std\<close> (white space,
    splitting, prefixes, decimal printing), traces of a component (\<open>run_trace\<close>), and the locale
    \<open>keyed_component\<close>: components whose state is kept per key, with the isolation lemmas.
  \<^item> \<open>Core_Types\<close>: \<open>safegate-core/src/error.rs\<close> and \<open>identity.rs\<close>.
  \<^item> \<open>Rate_Limit\<close>: \<open>safegate-proxy/src/rate_limit.rs\<close>. \<open>Circuit_Breaker\<close>: \<open>circuit_breaker.rs\<close>, with
    the documented Closed/Open machine as its abstract specification. Both interpret
    \<open>keyed_component\<close>.
  \<^item> \<open>Regex_Crate\<close>: the interface of the \<open>regex\<close> crate (locales \<open>regex_crate\<close>, \<open>regex_finds\<close>) with a
    backtracking reference engine; \<open>Json_Value\<close>: \<open>serde_json::Value\<close>; \<open>Json_Text\<close>: the text codec of
    \<open>serde_json\<close> as the locale \<open>serde_json\<close>, with a reference printer and parser that interpret it.
  \<^item> \<open>Redactor\<close>, \<open>Redactor_Properties\<close>: \<open>safegate-core/src/redactor.rs\<close>; the locale \<open>pii_regexes\<close> says
    which languages the patterns denote and is interpreted on the reference engine.
  \<^item> \<open>Protocol\<close>: \<open>safegate-core/src/protocol.rs\<close>, what the derived serialisers do included.
  \<^item> \<open>Identity\<close>, \<open>Config\<close>, \<open>Metrics\<close>: the files of \<open>safegate-proxy/src\<close> with these names.
  \<^item> \<open>Audit_Record\<close>: \<open>safegate-audit/src/lib.rs\<close>; \<open>Audit_Writer\<close>: \<open>writer.rs\<close>, as a step relation of
    request handlers and background writer with failing I/O.
  \<^item> \<open>Policy_Engine\<close>: \<open>safegate-wasm/src/lib.rs\<close>, \<open>sandbox.rs\<close> and the decision function of
    \<open>examples/sample-policy\<close>; wasmtime is the record \<open>wasm_lib\<close> under the locale \<open>wasm_runtime\<close>.
  \<^item> \<open>Policy_Registry\<close>: \<open>registry.rs\<close> and \<open>watcher.rs\<close>, the debounced loops included.
  \<^item> \<open>Proxy\<close>: \<open>proxy.rs\<close>; \<open>handle_request\<close> is the composition of the stages that its comments
    number, over the proxy's state and an environment of clock readings and answers.
    \<open>Proxy_Properties\<close> and \<open>Proxy_Redaction\<close> hold what it guarantees.
  \<^item> \<open>Gateway\<close>: the concurrent system. A handler is \<open>handle_request\<close> cut at its calls of shared
    components and its await points; the step relation interleaves any number of handlers with
    hot reloads, the audit writer, client disconnects and the error of \<open>accept\<close> that ends
    \<open>main\<close>. \<open>startup\<close> is \<open>main.rs\<close> up to the accept loop. \<open>Gateway_Handlers\<close> has the effect of a
    handler's steps and its run to the end, \<open>Gateway_Invariants\<close> one invariant for each shared
    component and their preservation, \<open>Gateway_Runs\<close> continuations and concrete runs, and
    \<open>Gateway_Properties\<close> what a started gateway guarantees of its limits, records and policies.
    \<open>Gateway_Clearance\<close> keeps the history of every handler along a run (\<open>gateway_run\<close>): why it is
    where it is, what was sent for it and what it answered.
  \<^item> \<open>Unit_Tests_Redactor\<close>, \<open>Unit_Tests\<close>: the unit tests of the modules as definitions on the model,
    with the proofs that they pass. \<open>Integration_Tests\<close>: the end-to-end tests on \<open>handle_request\<close>,
    with a mock server in place of the upstream server.

  \<^bold>\<open>What is shown\<close>

  \<^item> The gate: nothing is forwarded unless every stage cleared it, a denial blocks and feeds
    the breaker, the forwarded request has the configured origin and a matching length, and
    every answer is the upstream response or a decodable JSON-RPC error with a known id. In every
    interleaving each request sent upstream has one handler that was cleared for it by the
    policy in force at that time, and every answer has its reason.
  \<^item> Limits: the quota per window of admission, the breaker's refinement of its machine, its
    quarantine and its trip condition, for the component and for the whole concurrent gateway;
    isolation of agents, and of tenants up to the debouncing of file events.
  \<^item> Redaction: no API key, bearer token or e-mail address survives \<open>sanitize_str\<close>, JSON keeps
    its shape, and end to end none is left in the string values of forwarded arguments, whatever
    the interleaving, for bodies that are the object form of a tool call with exact numbers; which
    single-digit errors the Luhn check detects, and when high-entropy tokens are replaced.
  \<^item> Audit: one verifying record for each forwarded or denied request, tampering is detected,
    nothing is lost between handler and sink while no I/O fails, the log parses back, shutdown
    drains; in every state of the gateway the metrics agree with the audit trail.
  \<^item> Policies: a registered tenant always has a compiled policy, reloads are atomic, evaluation
    is never given more than 5 ms and the delay of its timer before it is interrupted, and depends
    on nothing of the host beyond a state that grants clocks and random numbers and 16 MiB of
    memory.
  \<^item> The interleaved model agrees with the sequential one: a handler that runs alone ends
    after at most eight steps with the result of \<open>handle_request\<close>, and no handler is ever stuck.
  \<^item> Deviations, proved on the model: secrets behind a line break, fields that defeat the
    rebuild of a body, policy errors and missing policies that let calls pass, events lost by the
    debounce, records lost by a disconnect or joined by a torn write, a gateway that ends at the
    first error of \<open>accept\<close>.

  \<^bold>\<open>Bounds and parameters\<close>

  There is no fuel: loops are structural recursions or functions with a termination proof,
  and a policy evaluation takes the time that the runtime reports. The deadline interrupts code of
  the component, not a call into the host: the time of an evaluation is bounded only up to the
  overrun of such a call (\<open>wasm_runtime\<close>). Counters
  and instants are natural numbers, since 64-bit counters and clocks do not overflow in the life
  of a process; JSON integers and error codes keep their 64-, 128- and 32-bit ranges. Text is
  a list of bytes. Entropy is computed over the reals, so a token whose entropy is within rounding
  of the threshold may be judged differently by the code. Floating-point numbers of JSON need not
  be read back as printed: round trips are stated for exact numbers. Third-party crates (\<open>regex\<close>, \<open>serde_json\<close>,
  \<open>wasmtime\<close>, \<open>hmac\<close>, \<open>hex\<close>, \<open>chrono\<close>, \<open>prometheus\<close>, \<open>http\<close>) are records of functions; what the theorems
  need of them are locales, each interpreted on an executable instance. One call of the limiter,
  the breaker, the registry or the logger is atomic, as the lock of its map entry, its atomic
  pointer or its channel makes it.

  \<^bold>\<open>Not modelled\<close>

  Sockets, HTTP framing and connection handling of hyper, logging by \<open>tracing\<close>, rounding of
  \<open>f64\<close>, the generated bindings of wasmtime, the text that the Prometheus encoder prints (and
  with it the tests of that text), the stress test and the benchmarks, which are about load and
  time. What a WASI context or a store limit means to a guest is wasmtime's: the model records
  what is granted, and what a component reads from a clock or a random source is left open.
\<close>

end
